theory Spec2Isabelle
  imports Complex_Main "HOL-Library.Sublist"
begin

section \<open>Common vocabulary\<close>

text \<open>
  Python exceptions that the modelled functions can raise or catch.
\<close>

datatype error = IndexError | ValueError | OSError | TimeoutExpired | QueueFull | Exception

text \<open>
  The random source. Every draw the source makes is an explicit argument of the model:
  a raw natural number for an integer draw (reduced below the bound, as
  \<^verbatim>\<open>_randbelow\<close> does) and a rational for \<^verbatim>\<open>random.random()\<close>.
  Floats are modelled as exact rationals.
\<close>

definition randbelow :: "nat \<Rightarrow> nat \<Rightarrow> nat" where
  "randbelow n k = k mod n"

definition choice :: "'a list \<Rightarrow> nat \<Rightarrow> error + 'a" where
  "choice xs k = (if xs = [] then Inl IndexError else Inr (xs ! randbelow (length xs) k))"

definition randint :: "int \<Rightarrow> int \<Rightarrow> nat \<Rightarrow> error + int" where
  "randint a b k =
     (if b < a then Inl ValueError else Inr (a + int (randbelow (nat (b - a + 1)) k)))"

definition uniform :: "rat \<Rightarrow> rat \<Rightarrow> rat \<Rightarrow> rat" where
  "uniform a b r = a + (b - a) * r"

text \<open>
  \<^verbatim>\<open>round(x, 2)\<close> on an exact rational: to the nearest hundredth, ties to the even one.
\<close>

definition round_half_even :: "rat \<Rightarrow> int" where
  "round_half_even x =
     (let f = \<lfloor>x\<rfloor>; d = x - of_int f
      in if d < 1 / 2 then f else if d > 1 / 2 then f + 1 else if even f then f else f + 1)"

definition round_2 :: "rat \<Rightarrow> rat" where
  "round_2 x = of_int (round_half_even (x * 100)) / 100"

section \<open>Clip selection (vj\_pipeline.pick\_clip)\<close>

type_synonym media_entry = "string \<times> rat"

definition pick_clip ::
  "media_entry list \<Rightarrow> rat \<Rightarrow> rat \<Rightarrow> nat \<Rightarrow> rat \<Rightarrow> rat \<Rightarrow> error + (string \<times> rat \<times> rat \<times> bool)" where
  "pick_clip clips min_dur max_dur k r1 r2 =
     (case choice clips k of
        Inl e \<Rightarrow> Inl e
      | Inr (clip_path, clip_dur) \<Rightarrow>
          (let use_dur = uniform min_dur max_dur r1 in
           if clip_dur \<le> use_dur then Inr (clip_path, 0, clip_dur, True)
           else
             (let max_start = clip_dur - use_dur;
                  start = (if max_start > 1 then uniform 0 max_start r2 else 0)
              in Inr (clip_path, start, use_dur, False))))"

section \<open>Broadcast window (vj\_pipeline.is\_on\_air, wait\_for\_broadcast)\<close>

definition BROADCAST_START :: nat where "BROADCAST_START = 10"
definition BROADCAST_END :: nat where "BROADCAST_END = 2"

text \<open>
  A naive local \<^verbatim>\<open>datetime\<close>: the date as its ordinal, and the time of day.
\<close>

record datetime =
  ordinal :: int
  hour :: nat
  minute :: nat
  second :: nat
  microsecond :: nat

definition valid_datetime :: "datetime \<Rightarrow> bool" where
  "valid_datetime d = (hour d < 24 \<and> minute d < 60 \<and> second d < 60 \<and> microsecond d < 1000000)"

text \<open>Microseconds since midnight of day 0; a \<^verbatim>\<open>timedelta\<close> is a number of microseconds.\<close>

definition micros :: "datetime \<Rightarrow> int" where
  "micros d = (((ordinal d * 24 + int (hour d)) * 60 + int (minute d)) * 60 + int (second d)) * 1000000
                + int (microsecond d)"

definition add_days :: "datetime \<Rightarrow> int \<Rightarrow> datetime" where
  "add_days d n = d\<lparr>ordinal := ordinal d + n\<rparr>"

definition total_seconds :: "int \<Rightarrow> rat" where
  "total_seconds td = of_int td / 1000000"

definition is_on_air :: "datetime \<Rightarrow> bool" where
  "is_on_air now = (hour now \<ge> BROADCAST_START \<or> hour now < BROADCAST_END)"

text \<open>
  \<^verbatim>\<open>wait_for_broadcast\<close> returns nothing; the model returns what it computes: the target
  \<^verbatim>\<open>sign_on\<close>, \<^verbatim>\<open>wait_secs\<close>, and the sleep it performs (\<open>None\<close> when it does not sleep).
\<close>

definition wait_for_broadcast :: "datetime \<Rightarrow> datetime \<times> rat \<times> rat option" where
  "wait_for_broadcast now =
     (let sign_on0 = now\<lparr>hour := BROADCAST_START, minute := 0, second := 0, microsecond := 0\<rparr>;
          sign_on = (if hour now \<ge> BROADCAST_END then sign_on0 else add_days sign_on0 1);
          wait_secs = total_seconds (micros sign_on - micros now)
      in (sign_on, wait_secs, if wait_secs > 0 then Some wait_secs else None))"

text \<open>The 10:00 boundary of day \<open>d\<close>.\<close>

definition ten_oclock :: "int \<Rightarrow> datetime" where
  "ten_oclock d = \<lparr>ordinal = d, hour = BROADCAST_START, minute = 0, second = 0, microsecond = 0\<rparr>"

section \<open>Effects catalogue and daypart profiles (vj\_effects)\<close>

record effect =
  name :: string
  filter_expr :: string

definition LIGHT_EFFECTS :: "effect list" where
  "LIGHT_EFFECTS =
     [
      \<lparr>name = ''warm_shift'', filter_expr = ''colorbalance=rs=0.15:gs=-0.05:bs=-0.1''\<rparr>,
      \<lparr>name = ''cool_shift'', filter_expr = ''colorbalance=rs=-0.1:gs=0.05:bs=0.15''\<rparr>,
      \<lparr>name = ''high_saturation'', filter_expr = ''eq=saturation=1.5''\<rparr>,
      \<lparr>name = ''low_saturation'', filter_expr = ''eq=saturation=0.6''\<rparr>,
      \<lparr>name = ''hue_drift'', filter_expr = ''hue=H=2*PI*t/10''\<rparr>,
      \<lparr>name = ''vignette'', filter_expr = ''vignette=PI/4''\<rparr>,
      \<lparr>name = ''soft_blur'', filter_expr = ''gblur=sigma=1.5''\<rparr>,
      \<lparr>name = ''brightness_boost'', filter_expr = ''eq=brightness=0.08:contrast=1.1''\<rparr>,
      \<lparr>name = ''dark_contrast'', filter_expr = ''eq=brightness=-0.05:contrast=1.3''\<rparr>,
      \<lparr>name = ''slight_hue_rotate'', filter_expr = ''hue=h=30''\<rparr>,
      \<lparr>name = ''sepia'', filter_expr = ''colorchannelmixer=.393:.769:.189:0:.349:.686:.168:0:.272:.534:.131''\<rparr>
     ]"

definition MEDIUM_EFFECTS :: "effect list" where
  "MEDIUM_EFFECTS =
     [
      \<lparr>name = ''frame_blend'', filter_expr = ''tblend=all_mode=average''\<rparr>,
      \<lparr>name = ''frame_blend_screen'', filter_expr = ''tblend=all_mode=screen''\<rparr>,
      \<lparr>name = ''rgba_shift'', filter_expr = ''rgbashift=rh=-3:bh=3''\<rparr>,
      \<lparr>name = ''film_grain'', filter_expr = ''noise=alls=20:allf=t+u''\<rparr>,
      \<lparr>name = ''cross_process'', filter_expr = ''curves=preset=cross_process''\<rparr>,
      \<lparr>name = ''vintage'', filter_expr = ''curves=preset=vintage''\<rparr>,
      \<lparr>name = ''negative'', filter_expr = ''curves=preset=negative''\<rparr>,
      \<lparr>name = ''chromatic_aberration'', filter_expr = ''rgbashift=rh=5:rv=-2:bh=-5:bv=2''\<rparr>,
      \<lparr>name = ''posterize'', filter_expr = ''lutyuv=y='bitand(val,240)':u='bitand(val,240)':v='bitand(val,240)'' @ [CHR 0x27]\<rparr>,
      \<lparr>name = ''scan_lines'', filter_expr = ''drawgrid=w=0:h=2:t=1:c=black@0.3''\<rparr>,
      \<lparr>name = ''color_bleed'', filter_expr = ''gblur=sigma=3,rgbashift=rh=8:bh=-8''\<rparr>,
      \<lparr>name = ''red_channel'', filter_expr = ''colorchannelmixer=rr=1:rg=0:rb=0:gg=0:bb=0''\<rparr>,
      \<lparr>name = ''blue_channel'', filter_expr = ''colorchannelmixer=rr=0:gg=0:bb=1:bg=0:br=0''\<rparr>
     ]"

definition HEAVY_EFFECTS :: "effect list" where
  "HEAVY_EFFECTS =
     [
      \<lparr>name = ''edge_glow'', filter_expr = ''edgedetect=low=0.1:high=0.3:mode=colormix''\<rparr>,
      \<lparr>name = ''pixelate'', filter_expr = ''scale=iw/8:ih/8:flags=neighbor,scale=iw*8:ih*8:flags=neighbor''\<rparr>,
      \<lparr>name = ''psychedelic_hue'', filter_expr = ''hue=H=2*PI*t/3:s=3''\<rparr>,
      \<lparr>name = ''quad_mirror'', filter_expr = ''crop=iw/2:ih/2:0:0,split[a][b];[a]hflip[c];[b][c]hstack,split[d][e];[d]vflip[f];[e][f]vstack''\<rparr>,
      \<lparr>name = ''heavy_trails'', filter_expr = ''tblend=all_mode=addition:all_opacity=0.7''\<rparr>,
      \<lparr>name = ''solarize'', filter_expr = ''lutyuv=y='if(gt(val,128),256-val,val)*2'' @ [CHR 0x27]\<rparr>,
      \<lparr>name = ''glitch'', filter_expr = ''noise=alls=40:allf=t,rgbashift=rh=10:rv=5:bh=-10:bv=-3''\<rparr>,
      \<lparr>name = ''deep_pixelate'', filter_expr = ''scale=iw/16:ih/16:flags=neighbor,scale=iw*16:ih*16:flags=neighbor''\<rparr>
     ]"

definition OVERLAY_EFFECTS :: "effect list" where
  "OVERLAY_EFFECTS = []"

record profile =
  tier_weights :: "rat \<times> rat \<times> rat"
  speed_range :: "rat \<times> rat"
  overlay_chance :: rat
  blend_modes :: "string list"

definition DAYPART_PROFILES :: "(string \<times> profile) list" where
  "DAYPART_PROFILES =
     [(''daytime'',
         \<lparr>tier_weights = (60 / 100, 30 / 100, 10 / 100), speed_range = (85 / 100, 1),
          overlay_chance = 40 / 100,
          blend_modes = [''screen'', ''addition'', ''softlight'']\<rparr>),
      (''nighttime'',
         \<lparr>tier_weights = (25 / 100, 40 / 100, 35 / 100), speed_range = (15 / 10, 22 / 10),
          overlay_chance = 50 / 100,
          blend_modes = [''multiply'', ''overlay'', ''softlight'', ''screen'']\<rparr>),
      (''overnight'',
         \<lparr>tier_weights = (15 / 100, 30 / 100, 55 / 100), speed_range = (15 / 10, 25 / 10),
          overlay_chance = 55 / 100,
          blend_modes = [''difference'', ''hardlight'', ''exclusion'', ''multiply'']\<rparr>),
      (''default'',
         \<lparr>tier_weights = (50 / 100, 35 / 100, 15 / 100), speed_range = (9 / 10, 11 / 10),
          overlay_chance = 40 / 100,
          blend_modes = [''screen'', ''overlay'', ''softlight'']\<rparr>)]"

text \<open>\<^verbatim>\<open>DAYPART_PROFILES.get(daypart, DAYPART_PROFILES["default"])\<close>; the daypart may be \<^verbatim>\<open>None\<close>.\<close>

definition get_profile :: "string option \<Rightarrow> profile" where
  "get_profile daypart =
     (case daypart of
        None \<Rightarrow> the (map_of DAYPART_PROFILES ''default'')
      | Some dp \<Rightarrow>
          (case map_of DAYPART_PROFILES dp of
             Some p \<Rightarrow> p
           | None \<Rightarrow> the (map_of DAYPART_PROFILES ''default'')))"

definition INCOMPATIBLE_PAIRS :: "string set list" where
  "INCOMPATIBLE_PAIRS = [{''edge_glow'', ''high_saturation''}]"

datatype tier = Light | Medium | Heavy

text \<open>The local variables of \<^verbatim>\<open>pick_effects\<close> that its loop updates.\<close>

record pick_state =
  chosen :: "effect list"
  chosen_names :: "string set"
  medium_count :: nat
  heavy_count :: nat

definition blocked_names :: "string set \<Rightarrow> string set" where
  "blocked_names names =
     fold (\<lambda>pair blocked.
             (let overlap = names \<inter> pair
              in if overlap \<noteq> {} then blocked \<union> (pair - overlap) else blocked))
          INCOMPATIBLE_PAIRS {}"

text \<open>One pass through the body of the \<^verbatim>\<open>for\<close> loop, with its two draws.\<close>

definition pick_one :: "rat \<Rightarrow> rat \<Rightarrow> rat \<Rightarrow> nat \<Rightarrow> pick_state \<Rightarrow> error + pick_state" where
  "pick_one light_w medium_threshold roll k st =
     (let (pool, tier) =
            (if roll < light_w then (LIGHT_EFFECTS, Light)
             else if roll < medium_threshold then (MEDIUM_EFFECTS, Medium)
             else (HEAVY_EFFECTS, Heavy));
          (pool, tier) =
            (if tier = Medium \<and> medium_count st \<ge> 2 then (LIGHT_EFFECTS, Light)
             else if tier = Heavy \<and> heavy_count st \<ge> 1 then
               (if medium_count st < 2 then MEDIUM_EFFECTS else LIGHT_EFFECTS,
                if medium_count st < 2 then Medium else Light)
             else (pool, tier));
          blocked = blocked_names (chosen_names st);
          eligible = filter (\<lambda>e. name e \<notin> blocked) pool;
          eligible = (if eligible = [] then pool else eligible)
      in case choice eligible k of
           Inl e \<Rightarrow> Inl e
         | Inr effect \<Rightarrow>
             Inr (st\<lparr>chosen := chosen st @ [effect],
                     chosen_names := insert (name effect) (chosen_names st),
                     medium_count := (if tier = Medium then medium_count st + 1 else medium_count st),
                     heavy_count := (if tier = Medium then heavy_count st
                                     else if tier = Heavy then heavy_count st + 1
                                     else heavy_count st)\<rparr>))"

text \<open>
  \<^verbatim>\<open>for _ in range(count)\<close>: \<open>n\<close> passes remain, \<open>i\<close> is the index of the next pass; the
  pass \<open>i\<close> takes its roll and its choice from \<open>rolls i\<close> and \<open>picks i\<close>.
\<close>

fun pick_loop ::
  "nat \<Rightarrow> rat \<Rightarrow> rat \<Rightarrow> (nat \<Rightarrow> rat) \<Rightarrow> (nat \<Rightarrow> nat) \<Rightarrow> nat \<Rightarrow> pick_state \<Rightarrow> error + pick_state" where
  "pick_loop 0 light_w medium_threshold rolls picks i st = Inr st"
| "pick_loop (Suc n) light_w medium_threshold rolls picks i st =
     (case pick_one light_w medium_threshold (rolls i) (picks i) st of
        Inl e \<Rightarrow> Inl e
      | Inr st' \<Rightarrow> pick_loop n light_w medium_threshold rolls picks (Suc i) st')"

definition pick_effects ::
  "int \<Rightarrow> int \<Rightarrow> string option \<Rightarrow> nat \<Rightarrow> (nat \<Rightarrow> rat) \<Rightarrow> (nat \<Rightarrow> nat) \<Rightarrow> error + effect list" where
  "pick_effects min_count max_count daypart kc rolls picks =
     (let profile = get_profile daypart;
          light_w = fst (tier_weights profile);
          medium_threshold = light_w + fst (snd (tier_weights profile))
      in case randint min_count max_count kc of
           Inl e \<Rightarrow> Inl e
         | Inr count \<Rightarrow>
             (case pick_loop (nat count) light_w medium_threshold rolls picks 0
                     \<lparr>chosen = [], chosen_names = {}, medium_count = 0, heavy_count = 0\<rparr> of
                Inl e \<Rightarrow> Inl e
              | Inr st \<Rightarrow> Inr (chosen st)))"

definition pick_speed :: "string option \<Rightarrow> rat \<Rightarrow> rat" where
  "pick_speed daypart r =
     (let profile = get_profile daypart; (low, high) = speed_range profile
      in round_2 (uniform low high r))"

definition should_overlay :: "string option \<Rightarrow> rat \<Rightarrow> bool" where
  "should_overlay daypart r = (r < overlay_chance (get_profile daypart))"

definition pick_blend_mode :: "string option \<Rightarrow> nat \<Rightarrow> error + string" where
  "pick_blend_mode daypart k = choice (blend_modes (get_profile daypart)) k"

definition pick_overlay_effects ::
  "int \<Rightarrow> int \<Rightarrow> string option \<Rightarrow> nat \<Rightarrow> (nat \<Rightarrow> rat) \<Rightarrow> (nat \<Rightarrow> nat) \<Rightarrow> rat \<Rightarrow> nat
     \<Rightarrow> error + effect list" where
  "pick_overlay_effects min_count max_count daypart kc rolls picks r k =
     (case pick_effects min_count max_count daypart kc rolls picks of
        Inl e \<Rightarrow> Inl e
      | Inr effects \<Rightarrow>
          (if OVERLAY_EFFECTS \<noteq> [] \<and> r < 30 / 100 then
             (case choice OVERLAY_EFFECTS k of
                Inl e \<Rightarrow> Inl e
              | Inr extra \<Rightarrow> Inr (effects @ [extra]))
           else Inr effects))"

text \<open>\<^verbatim>\<open>sep.join(xs)\<close>\<close>

fun str_join :: "string \<Rightarrow> string list \<Rightarrow> string" where
  "str_join sep [] = []"
| "str_join sep [x] = x"
| "str_join sep (x # y # ys) = x @ sep @ str_join sep (y # ys)"

definition build_filter_string :: "effect list \<Rightarrow> string" where
  "build_filter_string effects = str_join '','' (map filter_expr effects)"

definition effect_names :: "effect list \<Rightarrow> string list" where
  "effect_names effects = map name effects"

section \<open>Formatting, configuration and the file system\<close>

text \<open>\<^verbatim>\<open>str(n)\<close> and \<^verbatim>\<open>f"{n:06d}"\<close> for a non-negative integer.\<close>

definition digit_char :: "nat \<Rightarrow> char" where
  "digit_char d = char_of (48 + d)"

fun str_nat :: "nat \<Rightarrow> string" where
  "str_nat n = (if n < 10 then [digit_char n] else str_nat (n div 10) @ [digit_char (n mod 10)])"

declare str_nat.simps [simp del]

definition zero_pad :: "nat \<Rightarrow> string \<Rightarrow> string" where
  "zero_pad w s = replicate (w - length s) (CHR ''0'') @ s"

text \<open>
  \<^verbatim>\<open>f"{x:.2f}"\<close> and \<^verbatim>\<open>f"{x:.3f}"\<close> on an exact rational: \<open>k\<close> decimals, ties to even.
\<close>

definition fmt_fixed :: "nat \<Rightarrow> rat \<Rightarrow> string" where
  "fmt_fixed k x =
     (let m = nat (round_half_even (\<bar>x\<bar> * 10 ^ k));
          sign = (if x < 0 then ''-'' else '''')
      in sign @ str_nat (m div 10 ^ k) @ ''.'' @ zero_pad k (str_nat (m mod 10 ^ k)))"

text \<open>
  \<^verbatim>\<open>f"{speed}"\<close>: the shortest decimal of the float; exact for the two-decimal values that
  \<^verbatim>\<open>pick_speed\<close> returns (\<^verbatim>\<open>1.0\<close>, \<^verbatim>\<open>0.9\<close>, \<^verbatim>\<open>0.93\<close>).
\<close>

definition str_float :: "rat \<Rightarrow> string" where
  "str_float x =
     (let s = fmt_fixed 2 x
      in if last s = CHR ''0'' then butlast s else s)"

record video_cfg =
  width :: nat
  height :: nat
  fps :: nat
  codec :: string
  preset :: string
  bitrate :: string
  pix_fmt :: string

record daypart =
  dp_name :: string
  start_hour :: nat
  end_hour :: nat
  subdir :: string

text \<open>
  The configuration file, as far as the modelled functions read it, with the two paths
  \<^verbatim>\<open>main\<close> derives from the script's directory. \<open>None\<close> is a missing key.
\<close>

record config =
  music_dir :: string
  hls_dir :: string
  bug_path :: "string option"
  video :: video_cfg
  clip_min_duration :: rat
  clip_max_duration :: rat
  effects_per_clip_min :: int
  effects_per_clip_max :: int
  min_interval_minutes :: "rat option"
  dayparts :: "daypart list"
  clips_dayparts :: "(string \<times> string) list"
  staging_dir :: string

text \<open>
  The file system is the list of the paths that exist. Removing a path fails when the path
  is missing or when the system refuses; creating a FIFO fails when the path exists or when
  the system refuses. Whether the system refuses a call (\<open>refused\<close>) is chosen by the
  environment.
\<close>

type_synonym fs = "string list"

definition os_path_exists :: "fs \<Rightarrow> string \<Rightarrow> bool" where
  "os_path_exists files p = (p \<in> set files)"

definition os_unlink :: "bool \<Rightarrow> fs \<Rightarrow> string \<Rightarrow> error + fs" where
  "os_unlink refused files p =
     (if refused \<or> p \<notin> set files then Inl OSError else Inr (removeAll p files))"

definition os_mkfifo :: "bool \<Rightarrow> fs \<Rightarrow> string \<Rightarrow> error + fs" where
  "os_mkfifo refused files p =
     (if refused \<or> p \<in> set files then Inl OSError else Inr (files @ [p]))"

text \<open>\<^verbatim>\<open>try: os.unlink(p) / except OSError: pass\<close>\<close>

definition unlink_quietly :: "bool \<Rightarrow> fs \<Rightarrow> string \<Rightarrow> fs" where
  "unlink_quietly refused files p =
     (case os_unlink refused files p of Inl e \<Rightarrow> files | Inr files' \<Rightarrow> files')"

definition path_join :: "string \<Rightarrow> string \<Rightarrow> string" where
  "path_join d f = d @ ''/'' @ f"

definition audio_fifo_path :: "config \<Rightarrow> string" where
  "audio_fifo_path cfg = path_join (staging_dir cfg) ''audio_pipe''"

text \<open>\<^verbatim>\<open>glob(os.path.join(staging_dir, "*.ts"))\<close>: the entries of the directory itself whose
  name ends in \<^verbatim>\<open>.ts\<close> and does not start with a dot.\<close>

definition staging_ts :: "config \<Rightarrow> string \<Rightarrow> bool" where
  "staging_ts cfg p =
     (let d = staging_dir cfg @ ''/''; f = drop (length d) p
      in take (length d) p = d \<and> CHR ''/'' \<notin> set f \<and>
         length f \<ge> 3 \<and> drop (length f - 3) f = ''.ts'' \<and> hd f \<noteq> CHR ''.'')"

definition glob_staging :: "config \<Rightarrow> fs \<Rightarrow> string list" where
  "glob_staging cfg files = filter (staging_ts cfg) files"

definition count_staging_files :: "config \<Rightarrow> fs \<Rightarrow> nat" where
  "count_staging_files cfg files = length (glob_staging cfg files)"

definition MIN_FREE_BYTES :: int where "MIN_FREE_BYTES = 1024 * 1024 * 1024"
definition MAX_STAGING_FILES :: nat where "MAX_STAGING_FILES = 30"

section \<open>Rendering (render\_clip, render\_overlay\_clip, render\_bumper)\<close>

definition build_scale_filter :: "video_cfg \<Rightarrow> string" where
  "build_scale_filter v =
     ''scale='' @ str_nat (width v) @ '':'' @ str_nat (height v)
       @ '':force_original_aspect_ratio=decrease,''
       @ ''pad='' @ str_nat (width v) @ '':'' @ str_nat (height v) @ '':(ow-iw)/2:(oh-ih)/2,''
       @ ''setsar=1''"

text \<open>\<^verbatim>\<open>bug_path and os.path.exists(bug_path)\<close>\<close>

definition bug_present :: "config \<Rightarrow> fs \<Rightarrow> bool" where
  "bug_present cfg files =
     (case bug_path cfg of None \<Rightarrow> False | Some p \<Rightarrow> p \<noteq> [] \<and> os_path_exists files p)"

definition render_clip_cmd ::
  "config \<Rightarrow> fs \<Rightarrow> string \<Rightarrow> rat \<Rightarrow> rat \<Rightarrow> bool \<Rightarrow> effect list \<Rightarrow> string \<Rightarrow> rat \<Rightarrow> rat
     \<Rightarrow> string list" where
  "render_clip_cmd cfg files clip_path clip_start clip_dur needs_loop effects output_path
       ts_offset speed =
     (let v = video cfg;
          cmd = [''ffmpeg'', ''-y'', ''-hide_banner'', ''-loglevel'', ''warning''];
          cmd = (if needs_loop then cmd @ [''-stream_loop'', ''-1''] else cmd);
          cmd = cmd @ [''-ss'', fmt_fixed 2 clip_start, ''-t'', fmt_fixed 2 clip_dur, ''-i'', clip_path];
          scale = build_scale_filter v;
          effect_str = build_filter_string effects;
          vf = scale @ '',setpts='' @ str_float speed @ ''*PTS,fps='' @ str_nat (fps v);
          vf = (if effect_str \<noteq> [] then vf @ '','' @ effect_str else vf);
          cmd =
            (if bug_present cfg files then
               cmd @ [''-i'', the (bug_path cfg)]
                 @ [''-filter_complex'',
                    ''[0:v]'' @ vf @ ''[vid];''
                      @ ''[1:v]colorchannelmixer=aa=0.5[bug];[vid][bug]overlay=W-w-45:H-h-40[out]'',
                    ''-map'', ''[out]'']
             else cmd @ [''-vf'', vf])
      in cmd @
         [''-an'',
          ''-c:v'', codec v,
          ''-preset'', preset v,
          ''-b:v'', bitrate v,
          ''-g'', str_nat (fps v * 4),
          ''-pix_fmt'', pix_fmt v,
          ''-output_ts_offset'', fmt_fixed 3 ts_offset,
          ''-f'', ''mpegts'',
          output_path])"

definition render_overlay_clip_cmd ::
  "config \<Rightarrow> fs \<Rightarrow> string \<Rightarrow> rat \<Rightarrow> string \<Rightarrow> rat \<Rightarrow> rat \<Rightarrow> effect list \<Rightarrow> string \<Rightarrow> string
     \<Rightarrow> rat \<Rightarrow> rat \<Rightarrow> string list" where
  "render_overlay_clip_cmd cfg files clip1_path clip1_start clip2_path clip2_start clip_dur
       effects blend_mode output_path ts_offset speed =
     (let v = video cfg;
          scale = build_scale_filter v;
          effect_str = build_filter_string effects;
          base_filters = scale @ '',setpts='' @ str_float speed @ ''*PTS,fps='' @ str_nat (fps v);
          base_filters =
            (if effect_str \<noteq> [] then base_filters @ '','' @ effect_str else base_filters);
          top_filters = scale @ '',setpts='' @ str_float speed @ ''*PTS,fps='' @ str_nat (fps v);
          filter_complex =
            (if bug_present cfg files then
               ''[0:v]'' @ base_filters @ ''[base];''
                 @ ''[1:v]'' @ top_filters @ ''[top];''
                 @ ''[base][top]blend=all_mode='' @ blend_mode @ ''[blended];''
                 @ ''[2:v]colorchannelmixer=aa=0.5[bug];[blended][bug]overlay=W-w-45:H-h-40[out]''
             else
               ''[0:v]'' @ base_filters @ ''[base];''
                 @ ''[1:v]'' @ top_filters @ ''[top];''
                 @ ''[base][top]blend=all_mode='' @ blend_mode @ ''[out]'');
          cmd =
            [''ffmpeg'', ''-y'', ''-hide_banner'', ''-loglevel'', ''warning'',
             ''-ss'', fmt_fixed 2 clip1_start, ''-t'', fmt_fixed 2 clip_dur, ''-i'', clip1_path,
             ''-ss'', fmt_fixed 2 clip2_start, ''-t'', fmt_fixed 2 clip_dur, ''-i'', clip2_path];
          cmd = (if bug_present cfg files then cmd @ [''-i'', the (bug_path cfg)] else cmd)
      in cmd @
         [''-filter_complex'', filter_complex,
          ''-map'', ''[out]'',
          ''-an'',
          ''-c:v'', codec v,
          ''-preset'', preset v,
          ''-b:v'', bitrate v,
          ''-pix_fmt'', pix_fmt v,
          ''-output_ts_offset'', fmt_fixed 3 ts_offset,
          ''-f'', ''mpegts'',
          output_path])"

definition render_bumper_cmd :: "config \<Rightarrow> string \<Rightarrow> string \<Rightarrow> rat \<Rightarrow> string list" where
  "render_bumper_cmd cfg bumper_path output_path ts_offset =
     (let v = video cfg;
          scale = build_scale_filter v;
          cmd = [''ffmpeg'', ''-y'', ''-hide_banner'', ''-loglevel'', ''warning'', ''-i'', bumper_path];
          cmd = cmd @ [''-vf'', scale @ '',fps='' @ str_nat (fps v)]
      in cmd @
         [''-an'',
          ''-c:v'', codec v,
          ''-preset'', preset v,
          ''-b:v'', bitrate v,
          ''-g'', str_nat (fps v * 4),
          ''-pix_fmt'', pix_fmt v,
          ''-output_ts_offset'', fmt_fixed 3 ts_offset,
          ''-f'', ''mpegts'',
          output_path])"

text \<open>
  One call of \<^verbatim>\<open>subprocess.run\<close> on the encoder, as the environment decides it: the exit
  status (\<open>None\<close> when the call raises, as it does on a timeout), whether the encoder
  left a file, whole or partial, at the output path, and whether the system refuses the
  \<^verbatim>\<open>os.unlink\<close> of the output path that follows a failed run. The environment answers
  each command line (\<open>subprocess\<close>).
\<close>

record ffmpeg_run =
  returncode :: "int option"
  wrote_output :: bool
  unlink_refused :: bool

type_synonym subprocess = "string list \<Rightarrow> ffmpeg_run"

definition run_ffmpeg :: "ffmpeg_run \<Rightarrow> fs \<Rightarrow> string \<Rightarrow> fs" where
  "run_ffmpeg run files output_path =
     (if wrote_output run \<and> output_path \<notin> set files then files @ [output_path] else files)"

text \<open>
  The \<^verbatim>\<open>try\<close> block shared by the three render functions: run the command; on a non-zero
  exit status or an exception try to remove the output, passing over an \<^verbatim>\<open>OSError\<close> of
  the removal, and return \<^verbatim>\<open>False\<close>. Logging is not modelled.
\<close>

definition run_render :: "ffmpeg_run \<Rightarrow> fs \<Rightarrow> string \<Rightarrow> bool \<times> fs" where
  "run_render run files output_path =
     (let files' = run_ffmpeg run files output_path
      in case returncode run of
           Some rc \<Rightarrow>
             (if rc \<noteq> 0 then (False, unlink_quietly (unlink_refused run) files' output_path)
              else (True, files'))
         | None \<Rightarrow> (False, unlink_quietly (unlink_refused run) files' output_path))"

definition render_clip ::
  "subprocess \<Rightarrow> config \<Rightarrow> fs \<Rightarrow> string \<Rightarrow> rat \<Rightarrow> rat \<Rightarrow> bool \<Rightarrow> effect list \<Rightarrow> string \<Rightarrow> rat \<Rightarrow> rat
     \<Rightarrow> bool \<times> fs" where
  "render_clip run cfg files clip_path clip_start clip_dur needs_loop effects output_path
       ts_offset speed =
     run_render
       (run (render_clip_cmd cfg files clip_path clip_start clip_dur needs_loop effects
               output_path ts_offset speed))
       files output_path"

definition render_overlay_clip ::
  "subprocess \<Rightarrow> config \<Rightarrow> fs \<Rightarrow> string \<Rightarrow> rat \<Rightarrow> string \<Rightarrow> rat \<Rightarrow> rat \<Rightarrow> effect list \<Rightarrow> string
     \<Rightarrow> string \<Rightarrow> rat \<Rightarrow> rat \<Rightarrow> bool \<times> fs" where
  "render_overlay_clip run cfg files clip1_path clip1_start clip2_path clip2_start clip_dur
       effects blend_mode output_path ts_offset speed =
     run_render
       (run (render_overlay_clip_cmd cfg files clip1_path clip1_start clip2_path clip2_start
               clip_dur effects blend_mode output_path ts_offset speed))
       files output_path"

definition render_bumper :: "subprocess \<Rightarrow> config \<Rightarrow> fs \<Rightarrow> string \<Rightarrow> string \<Rightarrow> rat \<Rightarrow> bool \<times> fs" where
  "render_bumper run cfg files bumper_path output_path ts_offset =
     run_render (run (render_bumper_cmd cfg bumper_path output_path ts_offset)) files output_path"

section \<open>The Conductor's state (the local variables of vj\_pipeline.main)\<close>

text \<open>
  What the main thread does to the outside, in order: the sleeps, the threads and processes
  it starts and stops, what it puts on the feeder queue, and the renders it attempts (with
  their outcome).
\<close>

datatype event =
    MusicStarted
  | MusicStopped
  | Slept rat
  | StreamerStarted nat
  | StreamerKilled nat
  | HeartbeatReset rat
  | Queued string nat
  | RenderedBumper string bool
  | RenderedClip string bool
  | RenderedOverlay string bool

text \<open>
  A streamer process is known by a handle. \<open>files\<close> is the file system, \<open>music_alive\<close>
  tells whether a music thread has been started and not stopped, and the two cache fields
  are the module's \<^verbatim>\<open>_clips_cache\<close>.
\<close>

record conductor =
  seq :: nat
  cumulative_ts :: rat
  last_bumper_time :: rat
  prebuffer :: "string list"
  streamer_proc :: "nat option"
  last_feed_time :: rat
  feed_queue :: "(string \<times> nat) list"
  files :: fs
  music_alive :: bool
  cache_daypart :: "string option"
  cache_files :: "media_entry list option"
  events :: "event list"

definition WATCHDOG_TIMEOUT :: rat where "WATCHDOG_TIMEOUT = 90"
definition prebuffer_size :: nat where "prebuffer_size = 4"
definition feed_queue_maxsize :: nat where "feed_queue_maxsize = 20"

definition emit :: "event list \<Rightarrow> conductor \<Rightarrow> conductor" where
  "emit evs s = s\<lparr>events := events s @ evs\<rparr>"

definition ts_name :: "config \<Rightarrow> nat \<Rightarrow> string" where
  "ts_name cfg n = path_join (staging_dir cfg) (''clip_'' @ zero_pad 6 (str_nat n) @ ''.ts'')"

subsection \<open>The feeder thread\<close>

text \<open>
  One item of \<^verbatim>\<open>feeder_worker\<close>: take the head of the queue, feed it, record the time of
  a successful feed, remove the file. The environment says whether the write to the
  streamer succeeds, what the clock shows and whether the system refuses the removal of
  the file. The feeder runs beside the main thread; the model lets it work where the main
  thread waits.
\<close>

record feeder_env =
  f_write_ok :: bool
  f_time :: rat
  f_unlink_refused :: bool

definition feeder_step :: "feeder_env \<Rightarrow> conductor \<Rightarrow> conductor" where
  "feeder_step fe s =
     (case feed_queue s of
        [] \<Rightarrow> s
      | (ts_path, proc) # rest \<Rightarrow>
          (let fed = (os_path_exists (files s) ts_path \<and> f_write_ok fe);
               s = s\<lparr>feed_queue := rest\<rparr>;
               s = (if fed then s\<lparr>last_feed_time := f_time fe\<rparr> else s)
           in s\<lparr>files := unlink_quietly (f_unlink_refused fe) (files s) ts_path\<rparr>))"

definition feeder_steps :: "feeder_env list \<Rightarrow> conductor \<Rightarrow> conductor" where
  "feeder_steps fes s = fold feeder_step fes s"

subsection \<open>Music thread control\<close>

definition start_music :: "conductor \<Rightarrow> conductor" where
  "start_music s = emit [MusicStarted] (s\<lparr>music_alive := True\<rparr>)"

definition stop_music :: "conductor \<Rightarrow> conductor" where
  "stop_music s = (if music_alive s then emit [MusicStopped] (s\<lparr>music_alive := False\<rparr>) else s)"

subsection \<open>Watchdog recovery (recover\_streamer)\<close>

text \<open>
  The environment of one call: the step of the \<^verbatim>\<open>try\<close> block that raises, if any; whether
  the streamer process is still running; the paths whose removal the system refuses;
  whether the system refuses the FIFO in the \<^verbatim>\<open>try\<close> block and again in the handler; and
  the clock.
\<close>

datatype recover_step = KillStreamer | StopMusic | SettleSleep | DrainQueue | CleanStaging

record recover_env =
  r_fault :: "recover_step option"
  r_streamer_running :: bool
  r_unlink_refused :: "string \<Rightarrow> bool"
  r_mkfifo_refused :: bool
  r_mkfifo_refused_again :: bool
  r_now :: rat

definition kill_streamer :: "bool \<Rightarrow> conductor \<Rightarrow> conductor" where
  "kill_streamer running s =
     (case streamer_proc s of
        None \<Rightarrow> s
      | Some p \<Rightarrow> (if running then emit [StreamerKilled p] s else s))"

definition drain_queue :: "(string \<Rightarrow> bool) \<Rightarrow> conductor \<Rightarrow> conductor" where
  "drain_queue refused s =
     s\<lparr>files := fold (\<lambda>item fl. unlink_quietly (refused (fst item)) fl (fst item))
                     (feed_queue s) (files s),
       feed_queue := []\<rparr>"

definition clean_staging :: "config \<Rightarrow> (string \<Rightarrow> bool) \<Rightarrow> conductor \<Rightarrow> conductor" where
  "clean_staging cfg refused s =
     s\<lparr>files := fold (\<lambda>f fl. unlink_quietly (refused f) fl f)
                     (glob_staging cfg (files s)) (files s)\<rparr>"

text \<open>The \<^verbatim>\<open>try\<close> block: the state it leaves and whether it raised.\<close>

definition recover_try :: "config \<Rightarrow> recover_env \<Rightarrow> conductor \<Rightarrow> conductor \<times> bool" where
  "recover_try cfg re s =
     (if r_fault re = Some KillStreamer then (s, True)
      else
        (let s = (kill_streamer (r_streamer_running re) s)\<lparr>streamer_proc := None\<rparr>
         in if r_fault re = Some StopMusic then (s, True)
            else
              (let s = stop_music s
               in if r_fault re = Some SettleSleep then (s, True)
                  else
                    (let s = emit [Slept 1] s
                     in if r_fault re = Some DrainQueue then (s, True)
                        else
                          (let s = drain_queue (r_unlink_refused re) s
                           in if r_fault re = Some CleanStaging then (s, True)
                              else
                                (let s = clean_staging cfg (r_unlink_refused re) s;
                                     s = s\<lparr>files := unlink_quietly
                                                      (r_unlink_refused re (audio_fifo_path cfg))
                                                      (files s) (audio_fifo_path cfg)\<rparr>
                                 in case os_mkfifo (r_mkfifo_refused re) (files s)
                                           (audio_fifo_path cfg) of
                                      Inl e \<Rightarrow> (s, True)
                                    | Inr fl \<Rightarrow> (s\<lparr>files := fl\<rparr>, False)))))))"

text \<open>The handler: \<^verbatim>\<open>except Exception\<close>.\<close>

definition recover_except :: "config \<Rightarrow> recover_env \<Rightarrow> conductor \<Rightarrow> conductor" where
  "recover_except cfg re s =
     (let s = s\<lparr>streamer_proc := None\<rparr>
      in if \<not> os_path_exists (files s) (audio_fifo_path cfg) then
           (case os_mkfifo (r_mkfifo_refused_again re) (files s) (audio_fifo_path cfg) of
              Inl e \<Rightarrow> s
            | Inr fl \<Rightarrow> s\<lparr>files := fl\<rparr>)
         else s)"

definition recover_streamer :: "config \<Rightarrow> recover_env \<Rightarrow> conductor \<Rightarrow> conductor" where
  "recover_streamer cfg re s =
     (let (s, raised) = recover_try cfg re s;
          s = (if raised then recover_except cfg re s else s)
      in s\<lparr>cumulative_ts := 0, prebuffer := [], last_feed_time := r_now re\<rparr>)"

subsection \<open>Pre-buffer and queueing (start\_streamer\_and\_flush, queue\_clip)\<close>

text \<open>
  The environment of one call of \<^verbatim>\<open>queue_clip\<close>: the handle of the streamer process if one
  is started, the clock at that moment, the work the feeder does while a \<^verbatim>\<open>put\<close> waits
  for room (at most \<^verbatim>\<open>WATCHDOG_TIMEOUT\<close> seconds), and the environment of the recovery
  that follows \<^verbatim>\<open>queue.Full\<close>.
\<close>

record queue_env =
  q_new_proc :: nat
  q_now :: rat
  q_feeder :: "feeder_env list"
  q_recover :: recover_env

text \<open>
  \<^verbatim>\<open>for ts in prebuffer: feed_queue.put((ts, streamer_proc))\<close>. This \<^verbatim>\<open>put\<close> has no
  timeout; the model takes it to find room.
\<close>

definition flush_prebuffer :: "nat \<Rightarrow> conductor \<Rightarrow> conductor" where
  "flush_prebuffer p s =
     fold (\<lambda>ts s. emit [Queued ts p] (s\<lparr>feed_queue := feed_queue s @ [(ts, p)]\<rparr>)) (prebuffer s) s"

definition start_streamer_and_flush :: "queue_env \<Rightarrow> conductor \<Rightarrow> conductor" where
  "start_streamer_and_flush qe s =
     (let s = start_music s;
          s = emit [Slept (1 / 2)] s;
          s = emit [StreamerStarted (q_new_proc qe)] (s\<lparr>streamer_proc := Some (q_new_proc qe)\<rparr>);
          s = emit [HeartbeatReset (q_now qe)] (s\<lparr>last_feed_time := q_now qe\<rparr>);
          s = flush_prebuffer (q_new_proc qe) s
      in s\<lparr>prebuffer := []\<rparr>)"

definition queue_clip :: "config \<Rightarrow> queue_env \<Rightarrow> string \<Rightarrow> conductor \<Rightarrow> conductor" where
  "queue_clip cfg qe ts_path s =
     (case streamer_proc s of
        None \<Rightarrow>
          (let s = s\<lparr>prebuffer := prebuffer s @ [ts_path]\<rparr>
           in if length (prebuffer s) \<ge> prebuffer_size then start_streamer_and_flush qe s else s)
      | Some p \<Rightarrow>
          (if length (feed_queue s) < feed_queue_maxsize then
             emit [Queued ts_path p] (s\<lparr>feed_queue := feed_queue s @ [(ts_path, p)]\<rparr>)
           else
             (let s = feeder_steps (q_feeder qe) s
              in if length (feed_queue s) < feed_queue_maxsize then
                   emit [Queued ts_path p] (s\<lparr>feed_queue := feed_queue s @ [(ts_path, p)]\<rparr>)
                 else recover_streamer cfg (q_recover qe) s)))"

section \<open>The main loop (vj\_pipeline.main)\<close>

subsection \<open>Dayparts and the clip cache\<close>

definition in_daypart :: "nat \<Rightarrow> daypart \<Rightarrow> bool" where
  "in_daypart h dp =
     (if start_hour dp < end_hour dp then start_hour dp \<le> h \<and> h < end_hour dp
      else h \<ge> start_hour dp \<or> h < end_hour dp)"

definition get_current_daypart :: "config \<Rightarrow> nat \<Rightarrow> daypart option" where
  "get_current_daypart cfg h = find (in_daypart h) (dayparts cfg)"

text \<open>
  \<^verbatim>\<open>get_daypart_clips\<close>: \<open>h\<close> is the hour it reads from the clock and \<open>scan\<close> answers
  \<^verbatim>\<open>scan_media_files\<close> for a directory. It returns the clips, the label and the state
  with the cache as it leaves it.
\<close>

definition get_daypart_clips ::
  "config \<Rightarrow> media_entry list \<Rightarrow> nat \<Rightarrow> (string \<Rightarrow> media_entry list) \<Rightarrow> conductor
     \<Rightarrow> media_entry list \<times> string \<times> conductor" where
  "get_daypart_clips cfg default_clips h scan s =
     (let dp = get_current_daypart cfg h;
          dpn = map_option dp_name dp;
          fallback = (default_clips, ''default'',
                      s\<lparr>cache_daypart := dpn, cache_files := Some default_clips\<rparr>)
      in case (if dpn = cache_daypart s then cache_files s else None) of
           Some cached \<Rightarrow>
             (cached, (case dpn of None \<Rightarrow> ''default'' | Some n \<Rightarrow> if n = [] then ''default'' else n), s)
         | None \<Rightarrow>
             (case dpn of
                None \<Rightarrow> fallback
              | Some n \<Rightarrow>
                  (case map_of (clips_dayparts cfg) n of
                     None \<Rightarrow> fallback
                   | Some override_dir \<Rightarrow>
                       (let found = scan override_dir
                        in if found \<noteq> [] then
                             (found, n, s\<lparr>cache_daypart := dpn, cache_files := Some found\<rparr>)
                           else fallback))))"

subsection \<open>The two waits\<close>

text \<open>
  \<^verbatim>\<open>wait_for_disk_space\<close> polls until both partitions have room. Each element of the list
  is one poll: the free bytes of the two paths, \<open>None\<close> where \<^verbatim>\<open>disk_usage\<close> raises. The
  result is the number of 30 second sleeps, or \<open>None\<close> when the polls the environment
  gives never show room: the loop is still waiting.
\<close>

definition low_space :: "int option \<Rightarrow> bool" where
  "low_space r = (case r of None \<Rightarrow> False | Some free \<Rightarrow> free < MIN_FREE_BYTES)"

fun wait_for_disk_space :: "(int option \<times> int option) list \<Rightarrow> nat option" where
  "wait_for_disk_space [] = None"
| "wait_for_disk_space ((a, b) # polls) =
     (if low_space a \<or> low_space b then map_option Suc (wait_for_disk_space polls) else Some 0)"

text \<open>
  The throttle: \<^verbatim>\<open>while count_staging_files(staging_dir) >= MAX_STAGING_FILES: sleep(5)\<close>.
  Each element of the list is what the feeder does during one sleep. \<open>None\<close>: still
  waiting when the list ends.
\<close>

fun staging_guard :: "config \<Rightarrow> feeder_env list list \<Rightarrow> conductor \<Rightarrow> conductor option" where
  "staging_guard cfg [] s =
     (if count_staging_files cfg (files s) \<ge> MAX_STAGING_FILES then None else Some s)"
| "staging_guard cfg (fes # rest) s =
     (if count_staging_files cfg (files s) \<ge> MAX_STAGING_FILES
      then staging_guard cfg rest (feeder_steps fes (emit [Slept 5] s))
      else Some s)"

subsection \<open>The environment of one iteration\<close>

text \<open>
  Everything one pass of the loop body reads from outside, in the order the body reads
  it: the clock, the random source, the encoder runs, the other threads.
\<close>

record iter_env =
  e_feeder :: "feeder_env list"
  e_now_dt :: datetime
  e_streamer_running :: bool
  e_unlink_refused :: bool
  e_mkfifo_refused :: bool
  e_wake_dt :: datetime
  e_t_watchdog :: rat
  e_recover :: recover_env
  e_disk :: "(int option \<times> int option) list"
  e_staging :: "feeder_env list list"
  e_t_now :: rat
  e_bumper_pick :: nat
  e_bumper_run :: subprocess
  e_t_bumper :: rat
  e_bumper_queue :: queue_env
  e_hour_clips :: nat
  e_scan :: "string \<Rightarrow> media_entry list"
  e_hour :: nat
  e_speed :: rat
  e_clip_pick :: nat
  e_clip_r1 :: rat
  e_clip_r2 :: rat
  e_fx_count :: nat
  e_fx_rolls :: "nat \<Rightarrow> rat"
  e_fx_picks :: "nat \<Rightarrow> nat"
  e_overlay :: rat
  e_clip2_pick :: nat
  e_clip2_r1 :: rat
  e_clip2_r2 :: rat
  e_blend_pick :: nat
  e_ofx_count :: nat
  e_ofx_rolls :: "nat \<Rightarrow> rat"
  e_ofx_picks :: "nat \<Rightarrow> nat"
  e_ofx_extra :: rat
  e_ofx_extra_pick :: nat
  e_clip_run :: subprocess
  e_clip_queue :: queue_env
  e_handler_recover :: recover_env

text \<open>
  A stage of the loop body either completes with a state or raises; the exception carries
  the state at the moment it is raised, which the handler of the loop sees.
\<close>

type_synonym outcome = "(error \<times> conductor) + conductor"

subsection \<open>Sign-off\<close>

definition sign_off :: "config \<Rightarrow> iter_env \<Rightarrow> conductor \<Rightarrow> outcome" where
  "sign_off cfg env s =
     (let s = stop_music s;
          s = (case streamer_proc s of
                 None \<Rightarrow> s
               | Some p \<Rightarrow>
                   (if e_streamer_running env
                    then emit [StreamerKilled p] (s\<lparr>streamer_proc := None\<rparr>) else s));
          s = s\<lparr>cumulative_ts := 0\<rparr>;
          s = s\<lparr>files := unlink_quietly (e_unlink_refused env) (files s) (audio_fifo_path cfg)\<rparr>
      in case os_mkfifo (e_mkfifo_refused env) (files s) (audio_fifo_path cfg) of
           Inl e \<Rightarrow> Inl (e, s)
         | Inr fl \<Rightarrow>
             (let s = s\<lparr>files := fl\<rparr>
              in case snd (snd (wait_for_broadcast (e_wake_dt env))) of
                   None \<Rightarrow> Inr s
                 | Some secs \<Rightarrow> Inr (emit [Slept secs] s)))"

subsection \<open>The bumper\<close>

definition bumper_due :: "config \<Rightarrow> media_entry list \<Rightarrow> iter_env \<Rightarrow> conductor \<Rightarrow> bool" where
  "bumper_due cfg bumper_files env s =
     (bumper_files \<noteq> [] \<and> last_bumper_time s > 0 \<and>
      e_t_now env - last_bumper_time s
        \<ge> (case min_interval_minutes cfg of None \<Rightarrow> 10 | Some m \<Rightarrow> m) * 60)"

definition bumper_step :: "config \<Rightarrow> media_entry list \<Rightarrow> iter_env \<Rightarrow> conductor \<Rightarrow> outcome" where
  "bumper_step cfg bumper_files env s =
     (if bumper_due cfg bumper_files env s then
        (case choice bumper_files (e_bumper_pick env) of
           Inl e \<Rightarrow> Inl (e, s)
         | Inr (bumper_path, bumper_dur) \<Rightarrow>
             (let s = s\<lparr>seq := seq s + 1\<rparr>;
                  ts_path = ts_name cfg (seq s);
                  (ok, fl) = render_bumper (e_bumper_run env) cfg (files s) bumper_path ts_path
                               (cumulative_ts s);
                  s = emit [RenderedBumper ts_path ok] (s\<lparr>files := fl\<rparr>)
              in if ok then
                   Inr (queue_clip cfg (e_bumper_queue env) ts_path
                          (s\<lparr>cumulative_ts := cumulative_ts s + bumper_dur,
                             last_bumper_time := e_t_bumper env\<rparr>))
                 else Inr s))
      else if last_bumper_time s = 0 then Inr (s\<lparr>last_bumper_time := e_t_bumper env\<rparr>)
      else Inr s)"

subsection \<open>The clip\<close>

definition clip_step :: "config \<Rightarrow> media_entry list \<Rightarrow> iter_env \<Rightarrow> conductor \<Rightarrow> outcome" where
  "clip_step cfg clip_files env s =
     (let (active_clips, clips_daypart, s) =
            get_daypart_clips cfg clip_files (e_hour_clips env) (e_scan env) s;
          dp = get_current_daypart cfg (e_hour env);
          dpn = map_option dp_name dp;
          speed = pick_speed dpn (e_speed env)
      in case pick_clip active_clips (clip_min_duration cfg) (clip_max_duration cfg)
                (e_clip_pick env) (e_clip_r1 env) (e_clip_r2 env) of
           Inl e \<Rightarrow> Inl (e, s)
         | Inr (clip_path, clip_start, clip_dur, needs_loop) \<Rightarrow>
        (case pick_effects (effects_per_clip_min cfg) (effects_per_clip_max cfg) dpn
                (e_fx_count env) (e_fx_rolls env) (e_fx_picks env) of
           Inl e \<Rightarrow> Inl (e, s)
         | Inr effects \<Rightarrow>
        (let s = s\<lparr>seq := seq s + 1\<rparr>;
             ts_path = ts_name cfg (seq s);
             output_dur = clip_dur * speed
         in if should_overlay dpn (e_overlay env) \<and> length active_clips \<ge> 2 then
              (case pick_clip active_clips (clip_min_duration cfg) (clip_max_duration cfg)
                      (e_clip2_pick env) (e_clip2_r1 env) (e_clip2_r2 env) of
                 Inl e \<Rightarrow> Inl (e, s)
               | Inr (clip2_path, clip2_start, clip2_dur, clip2_loop) \<Rightarrow>
              (case pick_blend_mode dpn (e_blend_pick env) of
                 Inl e \<Rightarrow> Inl (e, s)
               | Inr blend_mode \<Rightarrow>
              (case pick_overlay_effects (effects_per_clip_min cfg) (effects_per_clip_max cfg)
                      dpn (e_ofx_count env) (e_ofx_rolls env) (e_ofx_picks env)
                      (e_ofx_extra env) (e_ofx_extra_pick env) of
                 Inl e \<Rightarrow> Inl (e, s)
               | Inr effects \<Rightarrow>
                   (let (ok, fl) = render_overlay_clip (e_clip_run env) cfg (files s)
                                     clip_path clip_start clip2_path clip2_start clip_dur
                                     effects blend_mode ts_path (cumulative_ts s) speed;
                        s = emit [RenderedOverlay ts_path ok] (s\<lparr>files := fl\<rparr>)
                    in if ok then
                         Inr (queue_clip cfg (e_clip_queue env) ts_path
                                (s\<lparr>cumulative_ts := cumulative_ts s + output_dur\<rparr>))
                       else Inr s))))
            else
              (let (ok, fl) = render_clip (e_clip_run env) cfg (files s) clip_path clip_start
                                clip_dur needs_loop effects ts_path (cumulative_ts s) speed;
                   s = emit [RenderedClip ts_path ok] (s\<lparr>files := fl\<rparr>)
               in if ok then
                    Inr (queue_clip cfg (e_clip_queue env) ts_path
                           (s\<lparr>cumulative_ts := cumulative_ts s + output_dur\<rparr>))
                  else Inr s))))"

subsection \<open>One pass of the loop body\<close>

text \<open>The bumper check and the clip, in this order, in the same pass.\<close>

definition render_stage ::
  "config \<Rightarrow> media_entry list \<Rightarrow> media_entry list \<Rightarrow> iter_env \<Rightarrow> conductor \<Rightarrow> outcome" where
  "render_stage cfg clip_files bumper_files env s =
     (case bumper_step cfg bumper_files env s of
        Inl x \<Rightarrow> Inl x
      | Inr s \<Rightarrow> clip_step cfg clip_files env s)"

text \<open>
  The body of the \<^verbatim>\<open>try\<close>. \<open>None\<close>: the pass is still inside one of its two waits when the
  environment's polls end.
\<close>

definition loop_body ::
  "config \<Rightarrow> media_entry list \<Rightarrow> media_entry list \<Rightarrow> iter_env \<Rightarrow> conductor \<Rightarrow> outcome option" where
  "loop_body cfg clip_files bumper_files env s =
     (case (if is_on_air (e_now_dt env) then Inr s else sign_off cfg env s) of
        Inl x \<Rightarrow> Some (Inl x)
      | Inr s \<Rightarrow>
          (if streamer_proc s \<noteq> None \<and> e_t_watchdog env - last_feed_time s > WATCHDOG_TIMEOUT
           then Some (Inr (recover_streamer cfg (e_recover env) s))
           else
             (case wait_for_disk_space (e_disk env) of
                None \<Rightarrow> None
              | Some n \<Rightarrow>
                  (case staging_guard cfg (e_staging env) (emit (replicate n (Slept 30)) s) of
                     None \<Rightarrow> None
                   | Some s \<Rightarrow> Some (render_stage cfg clip_files bumper_files env s)))))"

text \<open>
  One iteration: the feeder's work since the last one, the body, and the handler of the
  loop for an exception of the body. (\<^verbatim>\<open>recover_streamer\<close> catches what it raises, so the
  handler's own \<^verbatim>\<open>except\<close> branch is never taken.)
\<close>

definition main_iteration ::
  "config \<Rightarrow> media_entry list \<Rightarrow> media_entry list \<Rightarrow> iter_env \<Rightarrow> conductor \<Rightarrow> conductor option" where
  "main_iteration cfg clip_files bumper_files env s =
     (case loop_body cfg clip_files bumper_files env (feeder_steps (e_feeder env) s) of
        None \<Rightarrow> None
      | Some (Inr s') \<Rightarrow> Some s'
      | Some (Inl (e, s')) \<Rightarrow> Some (recover_streamer cfg (e_handler_recover env) s'))"

text \<open>
  The state in which \<^verbatim>\<open>main\<close> enters the loop: \<open>present\<close> are the paths that exist when the
  program starts (the staging directory is not emptied), \<open>t0\<close> is the clock. A failure of
  the first \<^verbatim>\<open>os.unlink\<close> or \<^verbatim>\<open>os.mkfifo\<close>, neither of them caught, ends the program
  before the loop and is not part of the model.
\<close>

definition startup :: "config \<Rightarrow> fs \<Rightarrow> rat \<Rightarrow> conductor" where
  "startup cfg present t0 =
     \<lparr>seq = 0, cumulative_ts = 0, last_bumper_time = 0, prebuffer = [], streamer_proc = None,
      last_feed_time = t0, feed_queue = [],
      files = removeAll (audio_fifo_path cfg) present @ [audio_fifo_path cfg],
      music_alive = False, cache_daypart = None, cache_files = None, events = []\<rparr>"

section \<open>The music worker (vj\_pipeline.music\_worker)\<close>

text \<open>
  \<^verbatim>\<open>get_daypart_music\<close>: \<open>h\<close> is the hour it reads from the clock and \<open>scan\<close> answers
  \<^verbatim>\<open>scan_media_files\<close> for a directory.
\<close>

definition get_daypart_music ::
  "config \<Rightarrow> nat \<Rightarrow> (string \<Rightarrow> media_entry list) \<Rightarrow> media_entry list \<times> string" where
  "get_daypart_music cfg h scan =
     (case get_current_daypart cfg h of
        None \<Rightarrow> (scan (music_dir cfg), ''all'')
      | Some dp \<Rightarrow>
          (let found = scan (path_join (music_dir cfg) (subdir dp))
           in if found \<noteq> [] then (found, dp_name dp) else (scan (music_dir cfg), ''all'')))"

text \<open>
  \<^verbatim>\<open>random.shuffle\<close>: for \<open>i\<close> from the last index down to 1, swap the entries at \<open>i\<close> and at a
  drawn index below \<open>i + 1\<close>. \<open>draws i\<close> is the raw draw of step \<open>i\<close>.
\<close>

fun shuffle_from :: "nat \<Rightarrow> (nat \<Rightarrow> nat) \<Rightarrow> 'a list \<Rightarrow> 'a list" where
  "shuffle_from 0 draws xs = xs"
| "shuffle_from (Suc i) draws xs =
     (let j = randbelow (Suc i + 1) (draws (Suc i))
      in shuffle_from i draws (xs[Suc i := xs ! j, j := xs ! Suc i]))"

definition shuffle :: "(nat \<Rightarrow> nat) \<Rightarrow> 'a list \<Rightarrow> 'a list" where
  "shuffle draws xs = shuffle_from (length xs - 1) draws xs"

text \<open>
  What the worker does to the FIFO and to its decoder processes, in order.
\<close>

datatype music_event =
    FifoOpened
  | FifoWrite string
  | FifoClosed
  | DecoderSpawned string
  | DecoderKilled
  | DecoderReaped
  | Waited rat

text \<open>
  The environment of one pass of the copy loop: whether the stop event is set when the
  loop tests it, what the decoder's output gives (the empty string at its end), and
  whether the write to the FIFO raises \<^verbatim>\<open>BrokenPipeError\<close> or another \<^verbatim>\<open>OSError\<close>.
\<close>

record chunk_env =
  c_stop :: bool
  c_data :: string
  c_write_fails :: bool

text \<open>
  How the copy loop of a track ends: it is left at the end of the decoder's output or on the
  stop event, or a write to the FIFO raised and the worker returns.
\<close>

datatype track_result = TrackDone | PipeBroken

text \<open>
  The copy loop \<^verbatim>\<open>while not stop_event.is_set()\<close>. A decoder's output is finite: after the
  passes the environment lists, the next read is at the end of the output.
\<close>

fun pump :: "chunk_env list \<Rightarrow> music_event list \<times> track_result" where
  "pump [] = ([], TrackDone)"
| "pump (c # cs) =
     (if c_stop c then ([], TrackDone)
      else if c_data c = [] then ([], TrackDone)
      else if c_write_fails c then ([DecoderKilled], PipeBroken)
      else (let (evs, r) = pump cs in (FifoWrite (c_data c) # evs, r)))"

text \<open>
  One track with a decoder that was started: copy, and in the \<^verbatim>\<open>finally\<close> close the
  decoder's output and wait for it. A decoder that fails, on a track it cannot read for one,
  ends its output early or gives none.
\<close>

definition play_track :: "string \<Rightarrow> chunk_env list \<Rightarrow> music_event list \<times> track_result" where
  "play_track track_path chunks =
     (let (evs, r) = pump chunks in ([DecoderSpawned track_path] @ evs @ [DecoderReaped], r))"

text \<open>
  How the \<^verbatim>\<open>for\<close> loop over the playlist ends: the playlist is exhausted or the loop is left
  by \<^verbatim>\<open>break\<close>; the worker returns after a write to the FIFO raised; or
  \<^verbatim>\<open>subprocess.Popen\<close> raised, no decoder was started and nothing catches the exception.
\<close>

datatype playlist_result = ListDone | WorkerReturns | SpawnFailed

text \<open>
  The environment of one track: whether the stop event is set when the loop tests it, the
  hour and the directory scan of the daypart check, whether \<^verbatim>\<open>subprocess.Popen\<close> raises
  (the system cannot start the decoder), and the passes of the copy loop.
\<close>

record track_env =
  t_stop :: bool
  t_hour :: nat
  t_scan :: "string \<Rightarrow> media_entry list"
  t_spawn_fails :: bool
  t_chunks :: "chunk_env list"

text \<open>
  The \<^verbatim>\<open>for\<close> loop over the playlist; \<open>i\<close> is the index of the next track and \<open>tracks i\<close> its
  environment.
\<close>

fun play_list ::
  "config \<Rightarrow> (nat \<Rightarrow> track_env) \<Rightarrow> string \<Rightarrow> nat \<Rightarrow> media_entry list
     \<Rightarrow> music_event list \<times> playlist_result" where
  "play_list cfg tracks current_daypart i [] = ([], ListDone)"
| "play_list cfg tracks current_daypart i ((track_path, track_dur) # rest) =
     (if t_stop (tracks i) then ([], ListDone)
      else if snd (get_daypart_music cfg (t_hour (tracks i)) (t_scan (tracks i))) \<noteq> current_daypart
      then ([], ListDone)
      else if t_spawn_fails (tracks i) then ([], SpawnFailed)
      else
        (case play_track track_path (t_chunks (tracks i)) of
           (evs, PipeBroken) \<Rightarrow> (evs, WorkerReturns)
         | (evs, TrackDone) \<Rightarrow>
             (let (evs', r) = play_list cfg tracks current_daypart (Suc i) rest
              in (evs @ evs', r))))"

text \<open>
  The environment of one pass of the supervision loop \<^verbatim>\<open>while not stop_event.is_set()\<close>.
\<close>

record round_env =
  r_stop :: bool
  r_hour :: nat
  r_scan :: "string \<Rightarrow> media_entry list"
  r_wait_stop :: bool
  r_shuffle :: "nat \<Rightarrow> nat"
  r_tracks :: "nat \<Rightarrow> track_env"

text \<open>
  The worker has returned, has been ended by an exception that nothing catches, or is still
  running.
\<close>

datatype worker_status = Exited | Raised | Running

text \<open>
  The supervision loop. It can run for ever; the model follows it through the passes the
  environment lists and reports \<open>Running\<close> when they end before the worker does.
\<close>

fun supervise :: "config \<Rightarrow> round_env list \<Rightarrow> music_event list \<times> worker_status" where
  "supervise cfg [] = ([], Running)"
| "supervise cfg (r # rs) =
     (if r_stop r then ([], Exited)
      else
        (let (music_files, daypart_name) = get_daypart_music cfg (r_hour r) (r_scan r)
         in if music_files = [] then
              (if r_wait_stop r then ([Waited 30], Exited)
               else (let (evs, st) = supervise cfg rs in (Waited 30 # evs, st)))
            else
              (let playlist = shuffle (r_shuffle r) music_files
               in case play_list cfg (r_tracks r) daypart_name 0 playlist of
                    (evs, WorkerReturns) \<Rightarrow> (evs, Exited)
                  | (evs, SpawnFailed) \<Rightarrow> (evs, Raised)
                  | (evs, ListDone) \<Rightarrow>
                      (let (evs', st) = supervise cfg rs in (evs @ evs', st)))))"

text \<open>
  The worker: open the FIFO (the worker ends at once when that fails), supervise, and in
  the \<^verbatim>\<open>finally\<close>, which a return and an exception both pass through, close the FIFO.
\<close>

definition music_worker ::
  "config \<Rightarrow> bool \<Rightarrow> round_env list \<Rightarrow> music_event list \<times> worker_status" where
  "music_worker cfg open_fails rounds =
     (if open_fails then ([], Exited)
      else
        (let (evs, st) = supervise cfg rounds
         in ([FifoOpened] @ evs @ (if st = Running then [] else [FifoClosed]), st)))"

section \<open>Auxiliary notions used in the proofs\<close>

text \<open>
  Environments for concrete runs: a source that gives the same answer to every request
  (the same draw at every index, the same outcome for every command line).
\<close>

definition constant_source :: "'a \<Rightarrow> 'b \<Rightarrow> 'a" where
  "constant_source v i = v"

text \<open>The single incompatible pair, and the loop invariant of \<^verbatim>\<open>pick_effects\<close>.\<close>

definition clash :: "string set" where
  "clash = {''edge_glow'', ''high_saturation''}"

definition is_medium :: "effect \<Rightarrow> bool" where
  "is_medium e = (e \<in> set MEDIUM_EFFECTS)"

definition is_heavy :: "effect \<Rightarrow> bool" where
  "is_heavy e = (e \<in> set HEAVY_EFFECTS)"

definition pick_inv :: "pick_state \<Rightarrow> bool" where
  "pick_inv st =
     (chosen_names st = name ` set (chosen st) \<and>
      medium_count st = length (filter is_medium (chosen st)) \<and>
      heavy_count st = length (filter is_heavy (chosen st)) \<and>
      medium_count st \<le> 2 \<and> heavy_count st \<le> 1 \<and>
      \<not> clash \<subseteq> chosen_names st)"

text \<open>The part of the loop body of \<^verbatim>\<open>pick_effects\<close> after the pool and the tier are fixed.\<close>

definition take_from :: "effect list \<Rightarrow> tier \<Rightarrow> nat \<Rightarrow> pick_state \<Rightarrow> error + pick_state" where
  "take_from pool tier k st =
     (let blocked = blocked_names (chosen_names st);
          eligible = filter (\<lambda>e. name e \<notin> blocked) pool;
          eligible = (if eligible = [] then pool else eligible)
      in case choice eligible k of
           Inl e \<Rightarrow> Inl e
         | Inr effect \<Rightarrow>
             Inr (st\<lparr>chosen := chosen st @ [effect],
                     chosen_names := insert (name effect) (chosen_names st),
                     medium_count := (if tier = Medium then medium_count st + 1 else medium_count st),
                     heavy_count := (if tier = Medium then heavy_count st
                                     else if tier = Heavy then heavy_count st + 1
                                     else heavy_count st)\<rparr>))"

text \<open>A configuration for concrete runs.\<close>

definition example_cfg :: config where
  "example_cfg =
     \<lparr>music_dir = ''/media/music'', hls_dir = ''/srv/hls'', bug_path = None,
      video = \<lparr>width = 1280, height = 720, fps = 30, codec = ''h264_nvenc'', preset = ''p4'',
               bitrate = ''4M'', pix_fmt = ''yuv420p''\<rparr>,
      clip_min_duration = 5, clip_max_duration = 10,
      effects_per_clip_min = 1, effects_per_clip_max = 3,
      min_interval_minutes = Some 10, dayparts = [], clips_dayparts = [],
      staging_dir = ''/opt/vj/staging''\<rparr>"


text \<open>States and environments for concrete runs of the recovery.\<close>

definition stuck_env :: recover_env where
  "stuck_env = \<lparr>r_fault = None, r_streamer_running = True,
                r_unlink_refused = constant_source False, r_mkfifo_refused = True,
                r_mkfifo_refused_again = True, r_now = 100\<rparr>"

definition faulty_env :: recover_env where
  "faulty_env = \<lparr>r_fault = Some StopMusic, r_streamer_running = True,
                 r_unlink_refused = constant_source False, r_mkfifo_refused = False,
                 r_mkfifo_refused_again = False, r_now = 100\<rparr>"

definition live_state :: conductor where
  "live_state = (startup example_cfg [] 0)
     \<lparr>seq := 5, cumulative_ts := 40, streamer_proc := Some 1, music_alive := True,
      feed_queue := [(ts_name example_cfg 5, 1)],
      files := [audio_fifo_path example_cfg, ts_name example_cfg 5]\<rparr>"


text \<open>A calm environment: on the air, room on the disks, every render succeeds.\<close>

definition calm_recover :: recover_env where
  "calm_recover = \<lparr>r_fault = None, r_streamer_running = True,
                   r_unlink_refused = constant_source False, r_mkfifo_refused = False,
                   r_mkfifo_refused_again = False, r_now = 5000\<rparr>"

definition calm_queue :: queue_env where
  "calm_queue = \<lparr>q_new_proc = 1, q_now = 2000, q_feeder = [], q_recover = calm_recover\<rparr>"

definition encoder_ok :: ffmpeg_run where
  "encoder_ok = \<lparr>returncode = Some 0, wrote_output = True, unlink_refused = False\<rparr>"

definition encoder_fails :: ffmpeg_run where
  "encoder_fails = \<lparr>returncode = Some 1, wrote_output = True, unlink_refused = False\<rparr>"

definition noon :: datetime where
  "noon = \<lparr>ordinal = 0, hour = 12, minute = 0, second = 0, microsecond = 0\<rparr>"

definition calm_env :: iter_env where
  "calm_env =
     \<lparr>e_feeder = [], e_now_dt = noon, e_streamer_running = True,
      e_unlink_refused = False, e_mkfifo_refused = False,
      e_wake_dt = noon, e_t_watchdog = 2000, e_recover = calm_recover,
      e_disk = [(Some (2 * MIN_FREE_BYTES), Some (2 * MIN_FREE_BYTES))], e_staging = [],
      e_t_now = 2000, e_bumper_pick = 0, e_bumper_run = constant_source encoder_ok,
      e_t_bumper = 2001, e_bumper_queue = calm_queue,
      e_hour_clips = 12, e_scan = constant_source [], e_hour = 12, e_speed = 1 / 2,
      e_clip_pick = 0, e_clip_r1 = 1 / 2, e_clip_r2 = 1 / 2,
      e_fx_count = 0, e_fx_rolls = constant_source 0, e_fx_picks = constant_source 0,
      e_overlay = 9 / 10, e_clip2_pick = 1, e_clip2_r1 = 1 / 2, e_clip2_r2 = 1 / 2,
      e_blend_pick = 0, e_ofx_count = 0, e_ofx_rolls = constant_source 0,
      e_ofx_picks = constant_source 0, e_ofx_extra = 9 / 10, e_ofx_extra_pick = 0,
      e_clip_run = constant_source encoder_ok, e_clip_queue = calm_queue,
      e_handler_recover = calm_recover\<rparr>"

definition two_clips :: "media_entry list" where
  "two_clips = [(''/media/clips/a.mp4'', 30), (''/media/clips/b.mp4'', 4)]"

definition one_bumper :: "media_entry list" where
  "one_bumper = [(''/media/bumpers/ident.mp4'', 6)]"

text \<open>Fragments that an earlier run of the program left in the staging directory.\<close>

definition leftover_name :: "nat \<Rightarrow> string" where
  "leftover_name i = path_join (staging_dir example_cfg) (''old_'' @ str_nat i @ ''.ts'')"

definition leftover :: "nat \<Rightarrow> string list" where
  "leftover n = map leftover_name [0..<n]"

text \<open>Events that record a render, and the outcome of a stage as its state.\<close>

fun is_bumper_render :: "event \<Rightarrow> bool" where
  "is_bumper_render (RenderedBumper p ok) = True"
| "is_bumper_render e = False"

fun is_clip_render :: "event \<Rightarrow> bool" where
  "is_clip_render (RenderedClip p ok) = True"
| "is_clip_render (RenderedOverlay p ok) = True"
| "is_clip_render e = False"

fun render_succeeded :: "event \<Rightarrow> bool" where
  "render_succeeded (RenderedBumper p ok) = ok"
| "render_succeeded (RenderedClip p ok) = ok"
| "render_succeeded (RenderedOverlay p ok) = ok"
| "render_succeeded e = False"

fun is_streamer_start :: "event \<Rightarrow> bool" where
  "is_streamer_start (StreamerStarted p) = True"
| "is_streamer_start e = False"

definition state_of :: "outcome \<Rightarrow> conductor" where
  "state_of r = (case r of Inl (e, s) \<Rightarrow> s | Inr s \<Rightarrow> s)"

text \<open>
  The timed \<^verbatim>\<open>put\<close> of \<^verbatim>\<open>queue_clip\<close> ends in \<^verbatim>\<open>queue.Full\<close>: a streamer is set, the queue
  is full and the feeder frees no place while the call waits.
\<close>

definition queue_times_out :: "queue_env \<Rightarrow> conductor \<Rightarrow> bool" where
  "queue_times_out qe s =
     (streamer_proc s \<noteq> None \<and> length (feed_queue s) \<ge> feed_queue_maxsize \<and>
      length (feed_queue (feeder_steps (q_feeder qe) s)) \<ge> feed_queue_maxsize)"

text \<open>Several iterations in a row, each with its environment.\<close>

fun run_iterations ::
  "config \<Rightarrow> media_entry list \<Rightarrow> media_entry list \<Rightarrow> iter_env list \<Rightarrow> conductor
     \<Rightarrow> conductor option" where
  "run_iterations cfg clip_files bumper_files [] s = Some s"
| "run_iterations cfg clip_files bumper_files (env # envs) s =
     (case main_iteration cfg clip_files bumper_files env s of
        None \<Rightarrow> None
      | Some s' \<Rightarrow> run_iterations cfg clip_files bumper_files envs s')"

text \<open>
  The first pass of a run (the clock shows 1000) and a state one pass later: one fragment
  pre-buffered, the bumper clock set.
\<close>

definition first_env :: iter_env where
  "first_env = calm_env\<lparr>e_t_now := 1000, e_t_bumper := 1000\<rparr>"

definition warm_state :: conductor where
  "warm_state =
     \<lparr>seq = 1, cumulative_ts = 15 / 2, last_bumper_time = 1000,
      prebuffer = [ts_name example_cfg 1], streamer_proc = None, last_feed_time = 999,
      feed_queue = [],
      files = [audio_fifo_path example_cfg, ts_name example_cfg 1],
      music_alive = False, cache_daypart = None, cache_files = Some two_clips, events = []\<rparr>"

text \<open>The number of staged fragments after a run (\<open>None\<close>: the run is still waiting).\<close>

definition staged_count :: "config \<Rightarrow> conductor option \<Rightarrow> nat option" where
  "staged_count cfg r = map_option (\<lambda>s. count_staging_files cfg (files s)) r"


text \<open>Events that are neither a render nor the start of a streamer.\<close>

definition plain :: "event list \<Rightarrow> bool" where
  "plain evs = (filter is_bumper_render evs = [] \<and> filter is_clip_render evs = [] \<and>
                filter render_succeeded evs = [] \<and> filter is_streamer_start evs = [])"


text \<open>
  The clips and the state that \<^verbatim>\<open>get_daypart_clips\<close> gives at the start of the clip stage,
  and the state right after a render: the counter, the files and the record of the render.
\<close>

definition active_clips_of :: "config \<Rightarrow> media_entry list \<Rightarrow> iter_env \<Rightarrow> conductor \<Rightarrow> media_entry list" where
  "active_clips_of cfg clip_files env s =
     fst (get_daypart_clips cfg clip_files (e_hour_clips env) (e_scan env) s)"

definition cache_refreshed :: "config \<Rightarrow> media_entry list \<Rightarrow> iter_env \<Rightarrow> conductor \<Rightarrow> conductor" where
  "cache_refreshed cfg clip_files env s =
     snd (snd (get_daypart_clips cfg clip_files (e_hour_clips env) (e_scan env) s))"

definition after_render :: "conductor \<Rightarrow> fs \<Rightarrow> event \<Rightarrow> conductor" where
  "after_render s fl ev = s\<lparr>seq := seq s + 1, files := fl, events := events s @ [ev]\<rparr>"


text \<open>A pass in which every encoder run exits with status 1 and leaves a partial file.\<close>

definition failing_env :: iter_env where
  "failing_env = calm_env\<lparr>e_bumper_run := constant_source encoder_fails,
                           e_clip_run := constant_source encoder_fails\<rparr>"

text \<open>
  The successful renders recorded before the first start of a streamer, and the invariant
  of the loop that links the pre-buffer to them.
\<close>

definition successes :: "event list \<Rightarrow> nat" where
  "successes evs = length (filter render_succeeded evs)"


definition never_started :: "event list \<Rightarrow> bool" where
  "never_started evs = (filter is_streamer_start evs = [])"




text \<open>The states in which the concrete runs below end.\<close>

definition warm_stage_result :: conductor where
  "warm_stage_result =
     \<lparr>seq = 3, cumulative_ts = 21, last_bumper_time = 2001,
      prebuffer = [''/opt/vj/staging/clip_000001.ts'', ''/opt/vj/staging/clip_000002.ts'',
                   ''/opt/vj/staging/clip_000003.ts''],
      streamer_proc = None, last_feed_time = 999, feed_queue = [],
      files = [''/opt/vj/staging/audio_pipe'', ''/opt/vj/staging/clip_000001.ts'',
               ''/opt/vj/staging/clip_000002.ts'', ''/opt/vj/staging/clip_000003.ts''],
      music_alive = False, cache_daypart = None, cache_files = Some two_clips,
      events = [RenderedBumper ''/opt/vj/staging/clip_000002.ts'' True,
                RenderedClip ''/opt/vj/staging/clip_000003.ts'' True]\<rparr>"

definition calm_clip_result :: conductor where
  "calm_clip_result =
     \<lparr>seq = 2, cumulative_ts = 15, last_bumper_time = 1000,
      prebuffer = [''/opt/vj/staging/clip_000001.ts'', ''/opt/vj/staging/clip_000002.ts''],
      streamer_proc = None, last_feed_time = 999, feed_queue = [],
      files = [''/opt/vj/staging/audio_pipe'', ''/opt/vj/staging/clip_000001.ts'',
               ''/opt/vj/staging/clip_000002.ts''],
      music_alive = False, cache_daypart = None, cache_files = Some two_clips,
      events = [RenderedClip ''/opt/vj/staging/clip_000002.ts'' True]\<rparr>"

definition failed_clip_result :: conductor where
  "failed_clip_result =
     \<lparr>seq = 2, cumulative_ts = 15 / 2, last_bumper_time = 1000,
      prebuffer = [''/opt/vj/staging/clip_000001.ts''],
      streamer_proc = None, last_feed_time = 999, feed_queue = [],
      files = [''/opt/vj/staging/audio_pipe'', ''/opt/vj/staging/clip_000001.ts''],
      music_alive = False, cache_daypart = None, cache_files = Some two_clips,
      events = [RenderedClip ''/opt/vj/staging/clip_000002.ts'' False]\<rparr>"



text \<open>
  The passes of the copy loop: a chunk is read and written; a chunk is read and the write
  to the FIFO raises; the decoder's output is at its end (the decoder has finished or has
  failed). The loop over the playlist reaches the playing of a track when the stop event is
  not set and the daypart is the one the playlist was built for.
\<close>

definition writes_chunk :: "chunk_env \<Rightarrow> bool" where
  "writes_chunk c = (\<not> c_stop c \<and> c_data c \<noteq> [] \<and> \<not> c_write_fails c)"

definition write_raises :: "chunk_env \<Rightarrow> bool" where
  "write_raises c = (\<not> c_stop c \<and> c_data c \<noteq> [] \<and> c_write_fails c)"

definition output_ends :: "chunk_env \<Rightarrow> bool" where
  "output_ends c = (\<not> c_stop c \<and> c_data c = [])"

definition track_played :: "config \<Rightarrow> (nat \<Rightarrow> track_env) \<Rightarrow> string \<Rightarrow> nat \<Rightarrow> bool" where
  "track_played cfg tracks current_daypart i =
     (\<not> t_stop (tracks i) \<and>
      snd (get_daypart_music cfg (t_hour (tracks i)) (t_scan (tracks i))) = current_daypart)"

text \<open>
  A concrete run: two tracks; the decoder of the first track played ends without any
  output, the second track's decoder gives two chunks and the write of the second one
  raises.
\<close>

definition two_tracks :: "media_entry list" where
  "two_tracks = [(''/media/music/a.mp3'', 180), (''/media/music/b.mp3'', 200)]"

definition good_chunk :: chunk_env where
  "good_chunk = \<lparr>c_stop = False, c_data = ''pcm'', c_write_fails = False\<rparr>"

definition broken_chunk :: chunk_env where
  "broken_chunk = \<lparr>c_stop = False, c_data = ''pcm'', c_write_fails = True\<rparr>"

definition end_chunk :: chunk_env where
  "end_chunk = \<lparr>c_stop = False, c_data = [], c_write_fails = False\<rparr>"

definition example_tracks :: "nat \<Rightarrow> track_env" where
  "example_tracks i =
     \<lparr>t_stop = False, t_hour = 12, t_scan = constant_source two_tracks,
      t_spawn_fails = False,
      t_chunks = (if i = 0 then [end_chunk] else [good_chunk, broken_chunk])\<rparr>"

definition example_round :: round_env where
  "example_round =
     \<lparr>r_stop = False, r_hour = 12, r_scan = constant_source two_tracks, r_wait_stop = False,
      r_shuffle = constant_source 0, r_tracks = example_tracks\<rparr>"

text \<open>A run in which the system cannot start the decoder of the first track.\<close>

definition unstartable_tracks :: "nat \<Rightarrow> track_env" where
  "unstartable_tracks i =
     \<lparr>t_stop = False, t_hour = 12, t_scan = constant_source two_tracks,
      t_spawn_fails = (i = 0), t_chunks = [good_chunk, end_chunk]\<rparr>"

definition unstartable_round :: round_env where
  "unstartable_round =
     \<lparr>r_stop = False, r_hour = 12, r_scan = constant_source two_tracks, r_wait_stop = False,
      r_shuffle = constant_source 0, r_tracks = unstartable_tracks\<rparr>"

definition example_music_run :: "music_event list" where
  "example_music_run =
     [FifoOpened, DecoderSpawned ''/media/music/b.mp3'', DecoderReaped,
      DecoderSpawned ''/media/music/a.mp3'', FifoWrite ''pcm'', DecoderKilled, DecoderReaped,
      FifoClosed]"


text \<open>
  An encoder run that fails after writing part of its output, on a system that refuses the
  removal of the file.
\<close>

definition encoder_fails_locked :: ffmpeg_run where
  "encoder_fails_locked = \<lparr>returncode = Some 1, wrote_output = True, unlink_refused = True\<rparr>"

definition locked_env :: iter_env where
  "locked_env = calm_env\<lparr>e_bumper_run := constant_source encoder_fails_locked,
                          e_clip_run := constant_source encoder_fails_locked\<rparr>"

definition kept_clip_result :: conductor where
  "kept_clip_result =
     \<lparr>seq = 2, cumulative_ts = 15 / 2, last_bumper_time = 1000,
      prebuffer = [''/opt/vj/staging/clip_000001.ts''],
      streamer_proc = None, last_feed_time = 999, feed_queue = [],
      files = [''/opt/vj/staging/audio_pipe'', ''/opt/vj/staging/clip_000001.ts'',
               ''/opt/vj/staging/clip_000002.ts''],
      music_alive = False, cache_daypart = None, cache_files = Some two_clips,
      events = [RenderedClip ''/opt/vj/staging/clip_000002.ts'' False]\<rparr>"

section \<open>What the basic operations leave unchanged\<close>

lemma emit_frame [simp]:
  "seq (emit evs s) = seq s" "cumulative_ts (emit evs s) = cumulative_ts s"
  "last_bumper_time (emit evs s) = last_bumper_time s" "prebuffer (emit evs s) = prebuffer s"
  "streamer_proc (emit evs s) = streamer_proc s" "last_feed_time (emit evs s) = last_feed_time s"
  "feed_queue (emit evs s) = feed_queue s" "files (emit evs s) = files s"
  "music_alive (emit evs s) = music_alive s" "cache_daypart (emit evs s) = cache_daypart s"
  "cache_files (emit evs s) = cache_files s" "events (emit evs s) = events s @ evs"
  by (simp_all add: emit_def)

lemma stop_music_frame [simp]:
  "seq (stop_music s) = seq s" "cumulative_ts (stop_music s) = cumulative_ts s"
  "last_bumper_time (stop_music s) = last_bumper_time s" "prebuffer (stop_music s) = prebuffer s"
  "streamer_proc (stop_music s) = streamer_proc s" "last_feed_time (stop_music s) = last_feed_time s"
  "feed_queue (stop_music s) = feed_queue s" "files (stop_music s) = files s"
  "cache_daypart (stop_music s) = cache_daypart s" "cache_files (stop_music s) = cache_files s"
  by (simp_all add: stop_music_def)

lemma start_music_frame [simp]:
  "seq (start_music s) = seq s" "cumulative_ts (start_music s) = cumulative_ts s"
  "last_bumper_time (start_music s) = last_bumper_time s" "prebuffer (start_music s) = prebuffer s"
  "streamer_proc (start_music s) = streamer_proc s" "last_feed_time (start_music s) = last_feed_time s"
  "feed_queue (start_music s) = feed_queue s" "files (start_music s) = files s"
  "cache_daypart (start_music s) = cache_daypart s" "cache_files (start_music s) = cache_files s"
  "music_alive (start_music s)" "events (start_music s) = events s @ [MusicStarted]"
  by (simp_all add: start_music_def)

lemma kill_streamer_frame [simp]:
  "seq (kill_streamer r s) = seq s" "cumulative_ts (kill_streamer r s) = cumulative_ts s"
  "last_bumper_time (kill_streamer r s) = last_bumper_time s" "prebuffer (kill_streamer r s) = prebuffer s"
  "streamer_proc (kill_streamer r s) = streamer_proc s" "last_feed_time (kill_streamer r s) = last_feed_time s"
  "feed_queue (kill_streamer r s) = feed_queue s" "files (kill_streamer r s) = files s"
  "music_alive (kill_streamer r s) = music_alive s" "cache_daypart (kill_streamer r s) = cache_daypart s"
  "cache_files (kill_streamer r s) = cache_files s"
  by (simp_all add: kill_streamer_def split: option.splits)

lemma drain_queue_frame [simp]:
  "seq (drain_queue rf s) = seq s" "cumulative_ts (drain_queue rf s) = cumulative_ts s"
  "last_bumper_time (drain_queue rf s) = last_bumper_time s" "prebuffer (drain_queue rf s) = prebuffer s"
  "streamer_proc (drain_queue rf s) = streamer_proc s" "last_feed_time (drain_queue rf s) = last_feed_time s"
  "feed_queue (drain_queue rf s) = []"
  "music_alive (drain_queue rf s) = music_alive s" "cache_daypart (drain_queue rf s) = cache_daypart s"
  "cache_files (drain_queue rf s) = cache_files s" "events (drain_queue rf s) = events s"
  by (simp_all add: drain_queue_def)

lemma clean_staging_frame [simp]:
  "seq (clean_staging cfg rf s) = seq s" "cumulative_ts (clean_staging cfg rf s) = cumulative_ts s"
  "last_bumper_time (clean_staging cfg rf s) = last_bumper_time s"
  "prebuffer (clean_staging cfg rf s) = prebuffer s"
  "streamer_proc (clean_staging cfg rf s) = streamer_proc s"
  "last_feed_time (clean_staging cfg rf s) = last_feed_time s"
  "feed_queue (clean_staging cfg rf s) = feed_queue s"
  "music_alive (clean_staging cfg rf s) = music_alive s"
  "cache_daypart (clean_staging cfg rf s) = cache_daypart s"
  "cache_files (clean_staging cfg rf s) = cache_files s" "events (clean_staging cfg rf s) = events s"
  by (simp_all add: clean_staging_def)


lemma feeder_step_frame [simp]:
  "seq (feeder_step fe s) = seq s" "cumulative_ts (feeder_step fe s) = cumulative_ts s"
  "last_bumper_time (feeder_step fe s) = last_bumper_time s"
  "prebuffer (feeder_step fe s) = prebuffer s"
  "streamer_proc (feeder_step fe s) = streamer_proc s"
  "music_alive (feeder_step fe s) = music_alive s"
  "cache_daypart (feeder_step fe s) = cache_daypart s"
  "cache_files (feeder_step fe s) = cache_files s" "events (feeder_step fe s) = events s"
  by (simp_all add: feeder_step_def Let_def split: list.splits prod.splits)

lemma feeder_steps_frame [simp]:
  "seq (feeder_steps fes s) = seq s" "cumulative_ts (feeder_steps fes s) = cumulative_ts s"
  "last_bumper_time (feeder_steps fes s) = last_bumper_time s"
  "prebuffer (feeder_steps fes s) = prebuffer s"
  "streamer_proc (feeder_steps fes s) = streamer_proc s"
  "music_alive (feeder_steps fes s) = music_alive s"
  "cache_daypart (feeder_steps fes s) = cache_daypart s"
  "cache_files (feeder_steps fes s) = cache_files s" "events (feeder_steps fes s) = events s"
  unfolding feeder_steps_def by (induction fes arbitrary: s; simp)+

lemma plain_simps [simp]:
  "plain []" "plain (MusicStarted # evs) = plain evs" "plain (MusicStopped # evs) = plain evs"
  "plain (Slept d # evs) = plain evs" "plain (StreamerKilled p # evs) = plain evs"
  "plain (HeartbeatReset t # evs) = plain evs" "plain (Queued ts p # evs) = plain evs"
  "plain (xs @ ys) = (plain xs \<and> plain ys)"
  by (auto simp: plain_def)

lemma recover_try_events:
  "\<exists>evs. events (fst (recover_try cfg re s)) = events s @ evs \<and> plain evs"
  by (auto simp: recover_try_def Let_def kill_streamer_def stop_music_def emit_def
      split: option.splits sum.splits)

lemma recover_except_events [simp]: "events (recover_except cfg re s) = events s"
  by (simp add: recover_except_def Let_def split: sum.splits)

lemma recover_streamer_events:
  "\<exists>evs. events (recover_streamer cfg re s) = events s @ evs \<and> plain evs"
  using recover_try_events[of cfg re s]
  by (auto simp: recover_streamer_def Let_def split: prod.splits)

lemma recover_streamer_fields [simp]:
  "cumulative_ts (recover_streamer cfg re s) = 0"
  "prebuffer (recover_streamer cfg re s) = []"
  "last_feed_time (recover_streamer cfg re s) = r_now re"
  by (simp_all add: recover_streamer_def Let_def split: prod.splits)

lemma recover_try_proc:
  "recover_try cfg re s = (s1, False) \<Longrightarrow> streamer_proc s1 = None"
  by (auto simp: recover_try_def Let_def split: if_splits sum.splits)

lemma recover_streamer_proc [simp]: "streamer_proc (recover_streamer cfg re s) = None"
proof -
  obtain s1 raised where t: "recover_try cfg re s = (s1, raised)"
    by (cases "recover_try cfg re s") auto
  show ?thesis
    using t recover_try_proc[of cfg re s s1]
    by (cases raised) (simp_all add: recover_streamer_def recover_except_def Let_def split: sum.splits)
qed

lemma recover_try_seq: "seq (fst (recover_try cfg re s)) = seq s"
  by (auto simp: recover_try_def Let_def split: sum.splits)

lemma recover_streamer_seq [simp]: "seq (recover_streamer cfg re s) = seq s"
  using recover_try_seq[of cfg re s]
  by (auto simp: recover_streamer_def recover_except_def Let_def split: prod.splits sum.splits)


lemma flush_prebuffer_fold:
  "fold (\<lambda>ts s. emit [Queued ts p] (s\<lparr>feed_queue := feed_queue s @ [(ts, p)]\<rparr>)) xs s
     = s\<lparr>feed_queue := feed_queue s @ map (\<lambda>ts. (ts, p)) xs,
          events := events s @ map (\<lambda>ts. Queued ts p) xs\<rparr>"
  by (induction xs arbitrary: s) (simp_all add: emit_def)

lemma flush_prebuffer_eq:
  "flush_prebuffer p s
     = s\<lparr>feed_queue := feed_queue s @ map (\<lambda>ts. (ts, p)) (prebuffer s),
          events := events s @ map (\<lambda>ts. Queued ts p) (prebuffer s)\<rparr>"
  by (simp add: flush_prebuffer_def flush_prebuffer_fold)

lemma start_streamer_and_flush_eq:
  "start_streamer_and_flush qe s
     = s\<lparr>music_alive := True,
          streamer_proc := Some (q_new_proc qe),
          last_feed_time := q_now qe,
          feed_queue := feed_queue s @ map (\<lambda>ts. (ts, q_new_proc qe)) (prebuffer s),
          events := events s @ [MusicStarted, Slept (1 / 2), StreamerStarted (q_new_proc qe),
                                HeartbeatReset (q_now qe)]
                      @ map (\<lambda>ts. Queued ts (q_new_proc qe)) (prebuffer s),
          prebuffer := []\<rparr>"
  by (simp add: start_streamer_and_flush_def flush_prebuffer_eq start_music_def emit_def Let_def)

section \<open>The shape of the render stages\<close>

lemma run_render_ok: "fst (run_render run fl p) = (returncode run = Some 0)"
  by (simp add: run_render_def Let_def split: option.splits)

lemma unlink_quietly_removes: "\<not> refused \<Longrightarrow> p \<notin> set (unlink_quietly refused fl p)"
  by (simp add: unlink_quietly_def os_unlink_def)

lemma unlink_quietly_refused: "refused \<Longrightarrow> unlink_quietly refused fl p = fl"
  by (simp add: unlink_quietly_def os_unlink_def)

lemma run_render_failed:
  "\<not> fst (run_render run fl p) \<Longrightarrow> \<not> unlink_refused run
     \<Longrightarrow> p \<notin> set (snd (run_render run fl p))"
  by (auto simp: run_render_def Let_def unlink_quietly_removes split: option.splits if_splits)

lemma run_render_kept:
  "\<not> fst (run_render run fl p) \<Longrightarrow> unlink_refused run
     \<Longrightarrow> snd (run_render run fl p) = run_ffmpeg run fl p"
  by (auto simp: run_render_def Let_def unlink_quietly_refused split: option.splits if_splits)

lemma cache_refreshed_frame [simp]:
  "seq (cache_refreshed cfg clips env s) = seq s"
  "cumulative_ts (cache_refreshed cfg clips env s) = cumulative_ts s"
  "last_bumper_time (cache_refreshed cfg clips env s) = last_bumper_time s"
  "prebuffer (cache_refreshed cfg clips env s) = prebuffer s"
  "streamer_proc (cache_refreshed cfg clips env s) = streamer_proc s"
  "last_feed_time (cache_refreshed cfg clips env s) = last_feed_time s"
  "feed_queue (cache_refreshed cfg clips env s) = feed_queue s"
  "files (cache_refreshed cfg clips env s) = files s"
  "music_alive (cache_refreshed cfg clips env s) = music_alive s"
  "events (cache_refreshed cfg clips env s) = events s"
  by (simp_all add: cache_refreshed_def get_daypart_clips_def Let_def split: option.splits)

lemma render_clip_result:
  "render_clip run cfg fl a b c d e out ts sp = (ok, fl') \<Longrightarrow>
     (\<exists>cmd. ok = (returncode (run cmd) = Some 0) \<and>
            (\<not> ok \<and> \<not> unlink_refused (run cmd) \<longrightarrow> out \<notin> set fl'))"
  using run_render_ok run_render_failed
  by (metis render_clip_def fst_conv snd_conv)

lemma render_overlay_clip_result:
  "render_overlay_clip run cfg fl a b c d e f g out ts sp = (ok, fl') \<Longrightarrow>
     (\<exists>cmd. ok = (returncode (run cmd) = Some 0) \<and>
            (\<not> ok \<and> \<not> unlink_refused (run cmd) \<longrightarrow> out \<notin> set fl'))"
  using run_render_ok run_render_failed
  by (metis render_overlay_clip_def fst_conv snd_conv)

lemma render_bumper_result:
  "render_bumper run cfg fl a out ts = (ok, fl') \<Longrightarrow>
     (\<exists>cmd. ok = (returncode (run cmd) = Some 0) \<and>
            (\<not> ok \<and> \<not> unlink_refused (run cmd) \<longrightarrow> out \<notin> set fl'))"
  using run_render_ok run_render_failed
  by (metis render_bumper_def fst_conv snd_conv)

lemma clip_step_unfold:
  "clip_step cfg clips env s =
     (let active_clips = active_clips_of cfg clips env s;
          s = cache_refreshed cfg clips env s;
          dpn = map_option dp_name (get_current_daypart cfg (e_hour env));
          speed = pick_speed dpn (e_speed env)
      in case pick_clip active_clips (clip_min_duration cfg) (clip_max_duration cfg)
                (e_clip_pick env) (e_clip_r1 env) (e_clip_r2 env) of
           Inl e \<Rightarrow> Inl (e, s)
         | Inr (clip_path, clip_start, clip_dur, needs_loop) \<Rightarrow>
        (case pick_effects (effects_per_clip_min cfg) (effects_per_clip_max cfg) dpn
                (e_fx_count env) (e_fx_rolls env) (e_fx_picks env) of
           Inl e \<Rightarrow> Inl (e, s)
         | Inr effects \<Rightarrow>
        (let s = s\<lparr>seq := seq s + 1\<rparr>;
             ts_path = ts_name cfg (seq s);
             output_dur = clip_dur * speed
         in if should_overlay dpn (e_overlay env) \<and> length active_clips \<ge> 2 then
              (case pick_clip active_clips (clip_min_duration cfg) (clip_max_duration cfg)
                      (e_clip2_pick env) (e_clip2_r1 env) (e_clip2_r2 env) of
                 Inl e \<Rightarrow> Inl (e, s)
               | Inr (clip2_path, clip2_start, clip2_dur, clip2_loop) \<Rightarrow>
              (case pick_blend_mode dpn (e_blend_pick env) of
                 Inl e \<Rightarrow> Inl (e, s)
               | Inr blend_mode \<Rightarrow>
              (case pick_overlay_effects (effects_per_clip_min cfg) (effects_per_clip_max cfg)
                      dpn (e_ofx_count env) (e_ofx_rolls env) (e_ofx_picks env)
                      (e_ofx_extra env) (e_ofx_extra_pick env) of
                 Inl e \<Rightarrow> Inl (e, s)
               | Inr effects \<Rightarrow>
                   (let (ok, fl) = render_overlay_clip (e_clip_run env) cfg (files s)
                                     clip_path clip_start clip2_path clip2_start clip_dur
                                     effects blend_mode ts_path (cumulative_ts s) speed;
                        s = emit [RenderedOverlay ts_path ok] (s\<lparr>files := fl\<rparr>)
                    in if ok then
                         Inr (queue_clip cfg (e_clip_queue env) ts_path
                                (s\<lparr>cumulative_ts := cumulative_ts s + output_dur\<rparr>))
                       else Inr s))))
            else
              (let (ok, fl) = render_clip (e_clip_run env) cfg (files s) clip_path clip_start
                                clip_dur needs_loop effects ts_path (cumulative_ts s) speed;
                   s = emit [RenderedClip ts_path ok] (s\<lparr>files := fl\<rparr>)
               in if ok then
                    Inr (queue_clip cfg (e_clip_queue env) ts_path
                           (s\<lparr>cumulative_ts := cumulative_ts s + output_dur\<rparr>))
                  else Inr s))))"
  unfolding clip_step_def active_clips_of_def cache_refreshed_def
  by (cases "get_daypart_clips cfg clips (e_hour_clips env) (e_scan env) s") (simp add: Let_def)

lemma emit_after_render:
  "emit [ev] (s\<lparr>seq := seq s + 1, files := fl\<rparr>) = after_render s fl ev"
  "emit [ev] (s\<lparr>seq := Suc (seq s), files := fl\<rparr>) = after_render s fl ev"
  by (simp_all add: emit_def after_render_def)

lemma clip_step_shape:
  fixes cfg clips env s
  defines "s0 \<equiv> cache_refreshed cfg clips env s"
  defines "dpn \<equiv> map_option dp_name (get_current_daypart cfg (e_hour env))"
  shows "(\<exists>e. clip_step cfg clips env s = Inl (e, s0)) \<or>
         (\<exists>e. clip_step cfg clips env s = Inl (e, s0\<lparr>seq := seq s + 1\<rparr>)) \<or>
         (\<exists>path start clip_dur loop fl ev.
             pick_clip (active_clips_of cfg clips env s) (clip_min_duration cfg)
                 (clip_max_duration cfg) (e_clip_pick env) (e_clip_r1 env) (e_clip_r2 env)
               = Inr (path, start, clip_dur, loop) \<and>
             is_clip_render ev \<and>
             (\<exists>cmd. render_succeeded ev = (returncode (e_clip_run env cmd) = Some 0) \<and>
                     (\<not> render_succeeded ev \<and> \<not> unlink_refused (e_clip_run env cmd) \<longrightarrow>
                        ts_name cfg (seq s + 1) \<notin> set fl)) \<and>
             (if render_succeeded ev
              then clip_step cfg clips env s
                     = Inr (queue_clip cfg (e_clip_queue env) (ts_name cfg (seq s + 1))
                             ((after_render s0 fl ev)
                                \<lparr>cumulative_ts := cumulative_ts s
                                     + clip_dur * pick_speed dpn (e_speed env)\<rparr>))
              else clip_step cfg clips env s = Inr (after_render s0 fl ev)))"
proof -
  let ?act = "active_clips_of cfg clips env s"
  let ?pc = "pick_clip ?act (clip_min_duration cfg)
                 (clip_max_duration cfg) (e_clip_pick env) (e_clip_r1 env) (e_clip_r2 env)"
  let ?ts = "ts_name cfg (seq s + 1)"
  let ?sp = "pick_speed dpn (e_speed env)"
  show ?thesis
  proof (cases ?pc)
    case (Inl e)
    then have "clip_step cfg clips env s = Inl (e, s0)"
      by (simp add: clip_step_unfold s0_def Let_def)
    then show ?thesis by blast
  next
    case (Inr r)
    then obtain path start clip_dur loop where pc: "?pc = Inr (path, start, clip_dur, loop)"
      by (cases r) auto
    let ?pe = "pick_effects (effects_per_clip_min cfg) (effects_per_clip_max cfg) dpn
                (e_fx_count env) (e_fx_rolls env) (e_fx_picks env)"
    show ?thesis
    proof (cases ?pe)
      case (Inl e)
      then have "clip_step cfg clips env s = Inl (e, s0)"
        using pc by (simp add: clip_step_unfold s0_def dpn_def[symmetric] Let_def)
      then show ?thesis by blast
    next
      case (Inr effects)
      note pe = this
      show ?thesis
      proof (cases "should_overlay dpn (e_overlay env) \<and> length ?act \<ge> 2")
        case False
        then have ov: "(should_overlay dpn (e_overlay env) \<and> 2 \<le> length ?act) = False"
          by simp
        obtain ok fl where r: "render_clip (e_clip_run env) cfg (files s) path start clip_dur loop
               effects ?ts (cumulative_ts s) ?sp = (ok, fl)"
          by (cases "render_clip (e_clip_run env) cfg (files s) path start clip_dur loop
               effects ?ts (cumulative_ts s) ?sp") auto
        note rr = render_clip_result[OF r]
        have eq: "clip_step cfg clips env s =
            (if ok then Inr (queue_clip cfg (e_clip_queue env) ?ts
                             ((after_render s0 fl (RenderedClip ?ts ok))
                                \<lparr>cumulative_ts := cumulative_ts s + clip_dur * ?sp\<rparr>))
             else Inr (after_render s0 fl (RenderedClip ?ts ok)))"
          using pc pe r
          by (simp add: clip_step_unfold dpn_def[symmetric] Let_def ov
                emit_def after_render_def s0_def)
        show ?thesis
          apply (rule disjI2, rule disjI2)
          apply (rule exI[of _ path], rule exI[of _ start], rule exI[of _ clip_dur],
                 rule exI[of _ loop], rule exI[of _ fl], rule exI[of _ "RenderedClip ?ts ok"])
          using pc rr eq by auto
      next
        case True
        then have ov: "(should_overlay dpn (e_overlay env) \<and> 2 \<le> length ?act) = True"
          by simp
        let ?pc2 = "pick_clip ?act (clip_min_duration cfg) (clip_max_duration cfg)
                      (e_clip2_pick env) (e_clip2_r1 env) (e_clip2_r2 env)"
        let ?pb = "pick_blend_mode dpn (e_blend_pick env)"
        let ?po = "pick_overlay_effects (effects_per_clip_min cfg) (effects_per_clip_max cfg)
                      dpn (e_ofx_count env) (e_ofx_rolls env) (e_ofx_picks env)
                      (e_ofx_extra env) (e_ofx_extra_pick env)"
        show ?thesis
        proof (cases ?pc2)
          case (Inl e)
          then have "clip_step cfg clips env s = Inl (e, s0\<lparr>seq := seq s + 1\<rparr>)"
            using pc pe by (simp add: clip_step_unfold s0_def dpn_def[symmetric] Let_def ov)
          then show ?thesis by blast
        next
          case (Inr r2)
          then obtain p2 st2 d2 l2 where pc2: "?pc2 = Inr (p2, st2, d2, l2)" by (cases r2) auto
          show ?thesis
          proof (cases ?pb)
            case (Inl e)
            then have "clip_step cfg clips env s = Inl (e, s0\<lparr>seq := seq s + 1\<rparr>)"
              using pc pe pc2 by (simp add: clip_step_unfold s0_def dpn_def[symmetric] Let_def ov)
            then show ?thesis by blast
          next
            case (Inr blend)
            note pb = this
            show ?thesis
            proof (cases ?po)
              case (Inl e)
              then have "clip_step cfg clips env s = Inl (e, s0\<lparr>seq := seq s + 1\<rparr>)"
                using pc pe pc2 pb by (simp add: clip_step_unfold s0_def dpn_def[symmetric] Let_def ov)
              then show ?thesis by blast
            next
              case (Inr ofx)
              obtain ok fl where r: "render_overlay_clip (e_clip_run env) cfg (files s) path start
                    p2 st2 clip_dur ofx blend ?ts (cumulative_ts s) ?sp = (ok, fl)"
                by (cases "render_overlay_clip (e_clip_run env) cfg (files s) path start
                    p2 st2 clip_dur ofx blend ?ts (cumulative_ts s) ?sp") auto
              note rr = render_overlay_clip_result[OF r]
              have eq: "clip_step cfg clips env s =
                  (if ok then Inr (queue_clip cfg (e_clip_queue env) ?ts
                                   ((after_render s0 fl (RenderedOverlay ?ts ok))
                                      \<lparr>cumulative_ts := cumulative_ts s + clip_dur * ?sp\<rparr>))
                   else Inr (after_render s0 fl (RenderedOverlay ?ts ok)))"
                using pc pe pc2 pb Inr r
                by (simp add: clip_step_unfold dpn_def[symmetric] Let_def ov
                      emit_def after_render_def s0_def)
              show ?thesis
                apply (rule disjI2, rule disjI2)
                apply (rule exI[of _ path], rule exI[of _ start], rule exI[of _ clip_dur],
                       rule exI[of _ loop], rule exI[of _ fl], rule exI[of _ "RenderedOverlay ?ts ok"])
                using pc rr eq by auto
            qed
          qed
        qed
      qed
    qed
  qed
qed


lemma bumper_step_shape:
  "(\<not> bumper_due cfg bumpers env s \<and>
      bumper_step cfg bumpers env s
        = Inr (if last_bumper_time s = 0 then s\<lparr>last_bumper_time := e_t_bumper env\<rparr> else s)) \<or>
   (bumper_due cfg bumpers env s \<and>
      (\<exists>path dur fl ev.
          choice bumpers (e_bumper_pick env) = Inr (path, dur) \<and>
          is_bumper_render ev \<and>
          (\<exists>cmd. render_succeeded ev = (returncode (e_bumper_run env cmd) = Some 0) \<and>
                  (\<not> render_succeeded ev \<and> \<not> unlink_refused (e_bumper_run env cmd) \<longrightarrow>
                     ts_name cfg (seq s + 1) \<notin> set fl)) \<and>
          (if render_succeeded ev
           then bumper_step cfg bumpers env s
                  = Inr (queue_clip cfg (e_bumper_queue env) (ts_name cfg (seq s + 1))
                          ((after_render s fl ev)
                             \<lparr>cumulative_ts := cumulative_ts s + dur,
                               last_bumper_time := e_t_bumper env\<rparr>))
           else bumper_step cfg bumpers env s = Inr (after_render s fl ev))))"
proof (cases "bumper_due cfg bumpers env s")
  case False
  then show ?thesis by (simp add: bumper_step_def)
next
  case True
  then have "bumpers \<noteq> []" by (simp add: bumper_due_def)
  then obtain path dur where ch: "choice bumpers (e_bumper_pick env) = Inr (path, dur)"
    by (cases "bumpers ! randbelow (length bumpers) (e_bumper_pick env)") (simp add: choice_def)
  let ?ts = "ts_name cfg (seq s + 1)"
  obtain ok fl where r: "render_bumper (e_bumper_run env) cfg (files s) path ?ts (cumulative_ts s)
        = (ok, fl)"
    by (cases "render_bumper (e_bumper_run env) cfg (files s) path ?ts (cumulative_ts s)") auto
  note rr = render_bumper_result[OF r]
  have eq: "bumper_step cfg bumpers env s =
      (if ok then Inr (queue_clip cfg (e_bumper_queue env) ?ts
                        ((after_render s fl (RenderedBumper ?ts ok))
                             \<lparr>cumulative_ts := cumulative_ts s + dur,
                               last_bumper_time := e_t_bumper env\<rparr>))
       else Inr (after_render s fl (RenderedBumper ?ts ok)))"
    using True ch r by (simp add: bumper_step_def Let_def emit_def after_render_def)
  show ?thesis
    apply (rule disjI2, rule conjI[OF True])
    apply (rule exI[of _ path], rule exI[of _ dur], rule exI[of _ fl],
           rule exI[of _ "RenderedBumper ?ts ok"])
    using ch rr eq by auto
qed

lemma feeder_step_queue: "feed_queue (feeder_step fe s) = tl (feed_queue s)"
  by (simp add: feeder_step_def Let_def split: list.splits prod.splits)

lemma feeder_steps_queue: "feed_queue (feeder_steps fes s) = drop (length fes) (feed_queue s)"
  unfolding feeder_steps_def
proof (induction fes arbitrary: s)
  case Nil
  then show ?case by simp
next
  case (Cons fe fes)
  then show ?case by (simp add: feeder_step_queue drop_Suc)
qed

lemma queue_times_out_cong:
  "streamer_proc s' = streamer_proc s \<Longrightarrow> feed_queue s' = feed_queue s \<Longrightarrow>
     queue_times_out qe s' = queue_times_out qe s"
  by (simp add: queue_times_out_def feeder_steps_queue)

lemma queue_clip_cases:
  "queue_clip cfg qe ts s =
     (if streamer_proc s = None then
        (if length (prebuffer s) + 1 \<ge> prebuffer_size
         then start_streamer_and_flush qe (s\<lparr>prebuffer := prebuffer s @ [ts]\<rparr>)
         else s\<lparr>prebuffer := prebuffer s @ [ts]\<rparr>)
      else if queue_times_out qe s
        then recover_streamer cfg (q_recover qe) (feeder_steps (q_feeder qe) s)
      else if length (feed_queue s) < feed_queue_maxsize
        then emit [Queued ts (the (streamer_proc s))]
               (s\<lparr>feed_queue := feed_queue s @ [(ts, the (streamer_proc s))]\<rparr>)
      else emit [Queued ts (the (streamer_proc s))]
             ((feeder_steps (q_feeder qe) s)
                \<lparr>feed_queue := feed_queue (feeder_steps (q_feeder qe) s)
                                  @ [(ts, the (streamer_proc s))]\<rparr>))"
  by (auto simp: queue_clip_def queue_times_out_def Let_def split: option.splits)

lemma queue_clip_cumulative_ts:
  "cumulative_ts (queue_clip cfg qe ts s) = (if queue_times_out qe s then 0 else cumulative_ts s)"
  by (cases "streamer_proc s")
     (auto simp: queue_clip_cases start_streamer_and_flush_eq queue_times_out_def)

lemma queue_clip_seq [simp]: "seq (queue_clip cfg qe ts s) = seq s"
  by (simp add: queue_clip_cases start_streamer_and_flush_eq)

lemma queue_clip_events:
  "\<exists>evs. events (queue_clip cfg qe ts s) = events s @ evs \<and>
         filter is_bumper_render evs = [] \<and> filter is_clip_render evs = [] \<and>
         filter render_succeeded evs = []"
proof -
  obtain evs where r: "events (recover_streamer cfg (q_recover qe) (feeder_steps (q_feeder qe) s))
       = events s @ evs" "plain evs"
    using recover_streamer_events[of cfg "q_recover qe" "feeder_steps (q_feeder qe) s"] by auto
  show ?thesis
    using r by (auto simp: queue_clip_cases start_streamer_and_flush_eq plain_def filter_empty_conv)
qed


lemma clip_not_bumper: "is_clip_render ev \<Longrightarrow> \<not> is_bumper_render ev"
  by (cases ev) auto

lemma bumper_not_clip: "is_bumper_render ev \<Longrightarrow> \<not> is_clip_render ev"
  by (cases ev) auto

lemma after_render_events [simp]: "events (after_render s fl ev) = events s @ [ev]"
  by (simp add: after_render_def)

lemma after_render_frame [simp]:
  "seq (after_render s fl ev) = seq s + 1" "cumulative_ts (after_render s fl ev) = cumulative_ts s"
  "last_bumper_time (after_render s fl ev) = last_bumper_time s"
  "prebuffer (after_render s fl ev) = prebuffer s"
  "streamer_proc (after_render s fl ev) = streamer_proc s"
  "last_feed_time (after_render s fl ev) = last_feed_time s"
  "feed_queue (after_render s fl ev) = feed_queue s" "files (after_render s fl ev) = fl"
  "music_alive (after_render s fl ev) = music_alive s"
  by (simp_all add: after_render_def)

lemma bumper_step_events:
  assumes "bumper_step cfg bumpers env s = Inr s1"
  shows "\<exists>evs. events s1 = events s @ evs \<and>
           length (filter is_bumper_render evs) = (if bumper_due cfg bumpers env s then 1 else 0) \<and>
           filter is_clip_render evs = []"
proof (cases "bumper_due cfg bumpers env s")
  case False
  with bumper_step_shape[of cfg bumpers env s] assms
  have "events s1 = events s @ []" by (auto split: if_splits)
  with False show ?thesis by auto
next
  case True
  with bumper_step_shape[of cfg bumpers env s]
  obtain path dur fl ev where ev: "is_bumper_render ev"
    and r: "if render_succeeded ev
           then bumper_step cfg bumpers env s
                  = Inr (queue_clip cfg (e_bumper_queue env) (ts_name cfg (seq s + 1))
                          ((after_render s fl ev)
                             \<lparr>cumulative_ts := cumulative_ts s + dur,
                               last_bumper_time := e_t_bumper env\<rparr>))
           else bumper_step cfg bumpers env s = Inr (after_render s fl ev)"
    by auto
  show ?thesis
  proof (cases "render_succeeded ev")
    case False
    with r assms have "events s1 = events s @ [ev]" by auto
    with ev True bumper_not_clip[OF ev] show ?thesis by auto
  next
    case ok: True
    let ?s2 = "(after_render s fl ev)\<lparr>cumulative_ts := cumulative_ts s + dur,
                               last_bumper_time := e_t_bumper env\<rparr>"
    from ok r assms have s1: "s1 = queue_clip cfg (e_bumper_queue env) (ts_name cfg (seq s + 1)) ?s2"
      by simp
    obtain evs where q: "events s1 = events ?s2 @ evs" "filter is_bumper_render evs = []"
        "filter is_clip_render evs = []"
      using queue_clip_events[of cfg "e_bumper_queue env" "ts_name cfg (seq s + 1)" ?s2] s1 by auto
    have "events s1 = events s @ (ev # evs)" using q(1) by simp
    with q ev True bumper_not_clip[OF ev] show ?thesis by auto
  qed
qed

lemma clip_step_events:
  assumes "clip_step cfg clips env s = Inr s'"
  shows "\<exists>evs. events s' = events s @ evs \<and> filter is_bumper_render evs = [] \<and>
           length (filter is_clip_render evs) = 1"
proof -
  let ?s0 = "cache_refreshed cfg clips env s"
  from clip_step_shape[of cfg clips env s] assms
  obtain clip_dur fl ev where ev: "is_clip_render ev"
    and r: "if render_succeeded ev
              then clip_step cfg clips env s
                     = Inr (queue_clip cfg (e_clip_queue env) (ts_name cfg (seq s + 1))
                             ((after_render ?s0 fl ev)
                                \<lparr>cumulative_ts := cumulative_ts s
                                     + clip_dur * pick_speed (map_option dp_name (get_current_daypart cfg (e_hour env))) (e_speed env)\<rparr>))
              else clip_step cfg clips env s = Inr (after_render ?s0 fl ev)"
    by auto
  show ?thesis
  proof (cases "render_succeeded ev")
    case False
    with r assms have "events s' = events s @ [ev]" by auto
    with ev clip_not_bumper[OF ev] show ?thesis by auto
  next
    case ok: True
    let ?s2 = "(after_render ?s0 fl ev)
                                \<lparr>cumulative_ts := cumulative_ts s
                                     + clip_dur * pick_speed (map_option dp_name (get_current_daypart cfg (e_hour env))) (e_speed env)\<rparr>"
    from ok r assms have s1: "s' = queue_clip cfg (e_clip_queue env) (ts_name cfg (seq s + 1)) ?s2"
      by simp
    obtain evs where q: "events s' = events ?s2 @ evs" "filter is_bumper_render evs = []"
        "filter is_clip_render evs = []"
      using queue_clip_events[of cfg "e_clip_queue env" "ts_name cfg (seq s + 1)" ?s2] s1 by auto
    have "events s' = events s @ (ev # evs)" using q(1) by simp
    with q ev clip_not_bumper[OF ev] show ?thesis by auto
  qed
qed

section \<open>The pre-buffer invariant of the main loop\<close>

lemma successes_append [simp]: "successes (xs @ ys) = successes xs + successes ys"
  by (simp add: successes_def)

lemma never_started_append [simp]:
  "never_started (xs @ ys) = (never_started xs \<and> never_started ys)"
  by (simp add: never_started_def)








lemma start_streamer_and_flush_fields [simp]:
  "prebuffer (start_streamer_and_flush qe s) = []"
  "streamer_proc (start_streamer_and_flush qe s) = Some (q_new_proc qe)"
  "seq (start_streamer_and_flush qe s) = seq s"
  "cumulative_ts (start_streamer_and_flush qe s) = cumulative_ts s"
  "files (start_streamer_and_flush qe s) = files s"
  by (simp_all add: start_streamer_and_flush_eq)






lemma state_of_simps [simp]: "state_of (Inl (e, s)) = s" "state_of (Inr s) = s"
  by (simp_all add: state_of_def)










section \<open>Clip selection: the use duration is capped at the clip's duration\<close>

text \<open>
  Claim C10. For a non-empty clip list and bounds \<open>min_dur \<le> max_dur\<close>, \<^verbatim>\<open>pick_clip\<close>
  returns a clip of the list and never uses more of it than it has: the loop flag is set
  exactly when the clip's duration is at most the drawn target duration, and then the use
  duration is the clip's duration; when the flag is not set, seek start plus use duration
  stays within the clip; and the seek start is 0 whenever the slack (clip duration minus use
  duration) is at most one second. \<open>r1\<close> and \<open>r2\<close> are the two values of
  \<^verbatim>\<open>random.random()\<close> behind the two calls of \<^verbatim>\<open>random.uniform\<close>; the second lies in
  \<open>[0, 1)\<close>. Durations are exact rationals.
\<close>

theorem pick_clip_caps_duration:
  assumes "clips \<noteq> []" "min_dur \<le> max_dur" "0 \<le> r2" "r2 < 1"
  shows "\<exists>clip_path clip_dur seek use_dur needs_loop.
     pick_clip clips min_dur max_dur k r1 r2 = Inr (clip_path, seek, use_dur, needs_loop) \<and>
     clips ! randbelow (length clips) k = (clip_path, clip_dur) \<and>
     (clip_path, clip_dur) \<in> set clips \<and>
     use_dur \<le> clip_dur \<and>
     (needs_loop \<longleftrightarrow> clip_dur \<le> uniform min_dur max_dur r1) \<and>
     (needs_loop \<longrightarrow> use_dur = clip_dur) \<and>
     (\<not> needs_loop \<longrightarrow> seek + use_dur \<le> clip_dur) \<and>
     (clip_dur - use_dur \<le> 1 \<longrightarrow> seek = 0)"
proof -
  obtain p d where pd: "clips ! randbelow (length clips) k = (p, d)"
    by (cases "clips ! randbelow (length clips) k") auto
  have lt: "randbelow (length clips) k < length clips"
    using assms(1) by (simp add: randbelow_def)
  have mem: "(p, d) \<in> set clips"
    using lt pd nth_mem by metis
  have ch: "choice clips k = Inr (p, d)"
    using assms(1) pd by (simp add: choice_def)
  show ?thesis
  proof (cases "d \<le> uniform min_dur max_dur r1")
    case True
    then have "pick_clip clips min_dur max_dur k r1 r2 = Inr (p, 0, d, True)"
      by (simp add: pick_clip_def ch)
    with True pd mem show ?thesis by simp
  next
    case False
    define u where "u = uniform min_dur max_dur r1"
    define m where "m = d - u"
    define s where "s = (if m > 1 then uniform 0 m r2 else 0)"
    have eq: "pick_clip clips min_dur max_dur k r1 r2 = Inr (p, s, u, False)"
      using False by (simp add: pick_clip_def ch u_def m_def s_def Let_def)
    have s_le: "s + u \<le> d"
    proof (cases "m > 1")
      case True
      then have "m * r2 \<le> m * 1"
        using assms(4) by (intro mult_left_mono) auto
      then show ?thesis using True by (simp add: s_def uniform_def m_def algebra_simps)
    next
      case False
      with \<open>\<not> d \<le> uniform min_dur max_dur r1\<close> show ?thesis by (simp add: s_def u_def)
    qed
    have s0: "d - u \<le> 1 \<Longrightarrow> s = 0" by (simp add: s_def m_def)
    from eq pd mem False s_le s0 show ?thesis by (auto simp: u_def)
  qed
qed

theorem pick_clip_caps_duration_witness:
  "[(''a.mp4'', 30), (''b.mp4'', 4 :: rat)] \<noteq> [] \<and> (5 :: rat) \<le> 10 \<and>
   (0 :: rat) \<le> 1 / 2 \<and> (1 / 2 :: rat) < 1 \<and>
   pick_clip [(''a.mp4'', 30), (''b.mp4'', 4)] 5 10 0 (1 / 2) (1 / 2)
     = Inr (''a.mp4'', 45 / 4, 15 / 2, False) \<and>
   pick_clip [(''a.mp4'', 30), (''b.mp4'', 4)] 5 10 1 (1 / 2) (1 / 2)
     = Inr (''b.mp4'', 0, 4, True)"
  using pick_clip_caps_duration
    [of "[(''a.mp4'', 30), (''b.mp4'', 4)]" 5 10 "1 / 2" 0 "1 / 2"]
  by (simp add: pick_clip_def choice_def randbelow_def uniform_def)

section \<open>Sign-on: the target of the off-air sleep\<close>

lemma micros_ten: "micros (ten_oclock d) = (d * 24 + 10) * 3600000000"
  by (simp add: micros_def ten_oclock_def BROADCAST_START_def)

lemma micros_lower: "ordinal now * 86400000000 + int (hour now) * 3600000000 \<le> micros now"
  by (simp add: micros_def algebra_simps)

lemma micros_upper:
  assumes "valid_datetime now"
  shows "micros now < ordinal now * 86400000000 + (int (hour now) + 1) * 3600000000"
proof -
  have "int (minute now) \<le> 59" "int (second now) \<le> 59" "int (microsecond now) \<le> 999999"
    using assms by (auto simp: valid_datetime_def)
  then show ?thesis by (simp add: micros_def algebra_simps)
qed

lemma sign_on_today:
  "BROADCAST_END \<le> hour now \<Longrightarrow> fst (wait_for_broadcast now) = ten_oclock (ordinal now)"
  by (simp add: wait_for_broadcast_def ten_oclock_def Let_def)

lemma wfb_parts:
  "wait_for_broadcast now = (so, w, sl) \<Longrightarrow>
     w = total_seconds (micros so - micros now) \<and> sl = (if w > 0 then Some w else None)"
  by (auto simp: wait_for_broadcast_def Let_def)

lemma total_seconds_pos: "0 < total_seconds td \<longleftrightarrow> 0 < td"
  by (simp add: total_seconds_def)

lemma ten_oclock_earliest:
  assumes "valid_datetime now" "hour now < BROADCAST_START"
    and "micros now \<le> micros (ten_oclock d)"
  shows "micros (ten_oclock (ordinal now)) \<le> micros (ten_oclock d)"
proof -
  have "ordinal now \<le> d"
  proof (rule ccontr)
    assume "\<not> ordinal now \<le> d"
    then have "d + 1 \<le> ordinal now" by simp
    then have "(d + 1) * 86400000000 \<le> ordinal now * 86400000000" by simp
    with micros_lower[of now] assms(3) show False
      by (simp add: micros_ten algebra_simps)
  qed
  then show ?thesis by (simp add: micros_ten)
qed

text \<open>
  The claim as written (for every invocation time the target is the earliest 10:00 not
  earlier than now, and the wait is non-negative) fails in the afternoon: at 15:00 the target
  is the same day's 10:00, five hours in the past, and the computed wait is negative.
\<close>

theorem wait_for_broadcast_afternoon_counterexample:
  "\<not> (micros \<lparr>ordinal = 0, hour = 15, minute = 0, second = 0, microsecond = 0\<rparr>
        \<le> micros (fst (wait_for_broadcast \<lparr>ordinal = 0, hour = 15, minute = 0, second = 0, microsecond = 0\<rparr>)))
   \<and> \<not> (0 \<le> fst (snd (wait_for_broadcast \<lparr>ordinal = 0, hour = 15, minute = 0, second = 0, microsecond = 0\<rparr>)))"
  by (simp add: wait_for_broadcast_def BROADCAST_END_def BROADCAST_START_def micros_def total_seconds_def)

text \<open>
  Claim C9, amended. At an invocation time between 02:00 and 10:00 (the hours at which the
  main loop is off the air) the target is the same day's 10:00, it is later than now, no
  10:00 boundary that is not earlier than now precedes it, and the function sleeps for the
  positive number of seconds up to it. At an invocation time from 10:00 on, the target is
  the same day's 10:00, which is not later than now; the computed wait is not positive and
  the function does not sleep. Nothing is stated for the hours before 02:00.
\<close>

theorem wait_for_broadcast_targets_today:
  assumes "valid_datetime now"
    and eq: "wait_for_broadcast now = (sign_on, wait_secs, slept)"
  shows "(BROADCAST_END \<le> hour now \<and> hour now < BROADCAST_START \<longrightarrow>
            sign_on = ten_oclock (ordinal now) \<and>
            micros now < micros sign_on \<and>
            (\<forall>d. micros now \<le> micros (ten_oclock d) \<longrightarrow> micros sign_on \<le> micros (ten_oclock d)) \<and>
            wait_secs = total_seconds (micros sign_on - micros now) \<and>
            0 < wait_secs \<and> slept = Some wait_secs)
       \<and> (BROADCAST_START \<le> hour now \<longrightarrow>
            sign_on = ten_oclock (ordinal now) \<and>
            micros sign_on \<le> micros now \<and>
            wait_secs = total_seconds (micros sign_on - micros now) \<and>
            wait_secs \<le> 0 \<and> slept = None)"
proof -
  note parts = wfb_parts[OF eq]
  have early: "sign_on = ten_oclock (ordinal now) \<and> micros now < micros sign_on \<and>
      (\<forall>d. micros now \<le> micros (ten_oclock d) \<longrightarrow> micros sign_on \<le> micros (ten_oclock d)) \<and>
      0 < wait_secs \<and> slept = Some wait_secs"
    if h: "BROADCAST_END \<le> hour now" "hour now < BROADCAST_START"
  proof -
    have so: "sign_on = ten_oclock (ordinal now)"
      using sign_on_today[OF h(1)] eq by simp
    have "int (hour now) + 1 \<le> 10" using h(2) by (simp add: BROADCAST_START_def)
    then have "(int (hour now) + 1) * 3600000000 \<le> 10 * 3600000000" by simp
    with micros_upper[OF assms(1)] have lt: "micros now < micros sign_on"
      by (simp add: so micros_ten algebra_simps)
    then have "0 < wait_secs" using parts by (simp add: total_seconds_pos)
    with parts lt so ten_oclock_earliest[OF assms(1) h(2)] show ?thesis by simp
  qed
  have late: "sign_on = ten_oclock (ordinal now) \<and> micros sign_on \<le> micros now \<and>
      wait_secs \<le> 0 \<and> slept = None"
    if h: "BROADCAST_START \<le> hour now"
  proof -
    have "BROADCAST_END \<le> hour now" using h by (simp add: BROADCAST_START_def BROADCAST_END_def)
    then have so: "sign_on = ten_oclock (ordinal now)"
      using sign_on_today eq by (metis fst_conv)
    have "10 * 3600000000 \<le> int (hour now) * 3600000000"
      using h by (simp add: BROADCAST_START_def)
    with micros_lower[of now] have le: "micros sign_on \<le> micros now"
      by (simp add: so micros_ten algebra_simps)
    then have "wait_secs \<le> 0" using parts by (simp add: total_seconds_def divide_le_0_iff)
    with parts le so show ?thesis by simp
  qed
  show ?thesis using early late parts by blast
qed

theorem wait_for_broadcast_targets_today_witness:
  "valid_datetime \<lparr>ordinal = 0, hour = 9, minute = 59, second = 59, microsecond = 0\<rparr> \<and>
   BROADCAST_END \<le> 9 \<and> (9::nat) < BROADCAST_START \<and>
   wait_for_broadcast \<lparr>ordinal = 0, hour = 9, minute = 59, second = 59, microsecond = 0\<rparr>
     = (ten_oclock 0, 1, Some 1)"
  using wait_for_broadcast_targets_today
    [of "\<lparr>ordinal = 0, hour = 9, minute = 59, second = 59, microsecond = 0\<rparr>"
        "ten_oclock 0" 1 "Some 1"]
  by (simp add: valid_datetime_def BROADCAST_END_def BROADCAST_START_def wait_for_broadcast_def
        ten_oclock_def micros_def total_seconds_def add_days_def)

section \<open>Effect selection: length, tier caps, incompatible pairs\<close>

lemma blocked_names_eq:
  "blocked_names names = (if names \<inter> clash = {} then {} else clash - names)"
  by (auto simp: blocked_names_def INCOMPATIBLE_PAIRS_def clash_def Let_def)

lemma light_names:
  "e \<in> set LIGHT_EFFECTS \<Longrightarrow> name e \<in> {''warm_shift'', ''cool_shift'', ''high_saturation'',
     ''low_saturation'', ''hue_drift'', ''vignette'', ''soft_blur'', ''brightness_boost'',
     ''dark_contrast'', ''slight_hue_rotate'', ''sepia''}"
  by (auto simp: LIGHT_EFFECTS_def)

lemma medium_names:
  "e \<in> set MEDIUM_EFFECTS \<Longrightarrow> name e \<in> {''frame_blend'', ''frame_blend_screen'', ''rgba_shift'',
     ''film_grain'', ''cross_process'', ''vintage'', ''negative'', ''chromatic_aberration'',
     ''posterize'', ''scan_lines'', ''color_bleed'', ''red_channel'', ''blue_channel''}"
  by (auto simp: MEDIUM_EFFECTS_def)

lemma heavy_names:
  "e \<in> set HEAVY_EFFECTS \<Longrightarrow> name e \<in> {''edge_glow'', ''pixelate'', ''psychedelic_hue'',
     ''quad_mirror'', ''heavy_trails'', ''solarize'', ''glitch'', ''deep_pixelate''}"
  by (auto simp: HEAVY_EFFECTS_def)

lemma light_medium_disjoint: "e \<in> set LIGHT_EFFECTS \<Longrightarrow> e \<notin> set MEDIUM_EFFECTS"
  using light_names[of e] medium_names[of e] by auto

lemma light_heavy_disjoint: "e \<in> set LIGHT_EFFECTS \<Longrightarrow> e \<notin> set HEAVY_EFFECTS"
  using light_names[of e] heavy_names[of e] by auto

lemma medium_heavy_disjoint: "e \<in> set MEDIUM_EFFECTS \<Longrightarrow> e \<notin> set HEAVY_EFFECTS"
  using medium_names[of e] heavy_names[of e] by auto

lemma light_unblocked: "B \<subseteq> clash \<Longrightarrow> filter (\<lambda>e. name e \<notin> B) LIGHT_EFFECTS \<noteq> []"
proof -
  assume B: "B \<subseteq> clash"
  have "\<lparr>name = ''warm_shift'', filter_expr = ''colorbalance=rs=0.15:gs=-0.05:bs=-0.1''\<rparr>
          \<in> set LIGHT_EFFECTS"
    by (simp add: LIGHT_EFFECTS_def)
  moreover have "''warm_shift'' \<notin> B" using B by (auto simp: clash_def)
  ultimately show ?thesis by (force simp: filter_empty_conv)
qed

lemma medium_unblocked: "B \<subseteq> clash \<Longrightarrow> filter (\<lambda>e. name e \<notin> B) MEDIUM_EFFECTS \<noteq> []"
proof -
  assume B: "B \<subseteq> clash"
  have "\<lparr>name = ''frame_blend'', filter_expr = ''tblend=all_mode=average''\<rparr> \<in> set MEDIUM_EFFECTS"
    by (simp add: MEDIUM_EFFECTS_def)
  moreover have "''frame_blend'' \<notin> B" using B by (auto simp: clash_def)
  ultimately show ?thesis by (force simp: filter_empty_conv)
qed

lemma heavy_unblocked: "B \<subseteq> clash \<Longrightarrow> filter (\<lambda>e. name e \<notin> B) HEAVY_EFFECTS \<noteq> []"
proof -
  assume B: "B \<subseteq> clash"
  have "\<lparr>name = ''pixelate'',
          filter_expr = ''scale=iw/8:ih/8:flags=neighbor,scale=iw*8:ih*8:flags=neighbor''\<rparr>
          \<in> set HEAVY_EFFECTS"
    by (simp add: HEAVY_EFFECTS_def)
  moreover have "''pixelate'' \<notin> B" using B by (auto simp: clash_def)
  ultimately show ?thesis by (force simp: filter_empty_conv)
qed

lemma blocked_subset: "blocked_names names \<subseteq> clash"
  by (simp add: blocked_names_eq)

lemma choice_mem: "xs \<noteq> [] \<Longrightarrow> \<exists>x. choice xs k = Inr x \<and> x \<in> set xs"
  by (simp add: choice_def randbelow_def)

lemma pick_one_cases:
  "pick_one lw mt roll k st = take_from LIGHT_EFFECTS Light k st \<or>
   (pick_one lw mt roll k st = take_from MEDIUM_EFFECTS Medium k st \<and> medium_count st < 2) \<or>
   (pick_one lw mt roll k st = take_from HEAVY_EFFECTS Heavy k st \<and> heavy_count st < 1)"
  by (simp add: pick_one_def take_from_def Let_def)


lemma take_from_effect:
  assumes "pool = LIGHT_EFFECTS \<or> pool = MEDIUM_EFFECTS \<or> pool = HEAVY_EFFECTS"
  shows "\<exists>e. e \<in> set pool \<and> name e \<notin> blocked_names (chosen_names st) \<and>
     take_from pool tier k st =
       Inr (st\<lparr>chosen := chosen st @ [e],
               chosen_names := insert (name e) (chosen_names st),
               medium_count := (if tier = Medium then medium_count st + 1 else medium_count st),
               heavy_count := (if tier = Medium then heavy_count st
                               else if tier = Heavy then heavy_count st + 1
                               else heavy_count st)\<rparr>)"
proof -
  define B where "B = blocked_names (chosen_names st)"
  define el where "el = filter (\<lambda>e. name e \<notin> B) pool"
  have B: "B \<subseteq> clash" unfolding B_def by (rule blocked_subset)
  have ne: "el \<noteq> []"
    unfolding el_def
    using assms light_unblocked[OF B] medium_unblocked[OF B] heavy_unblocked[OF B] by auto
  obtain e where e: "choice el k = Inr e" "e \<in> set el"
    using choice_mem[OF ne] by blast
  have mem: "e \<in> set pool" and nb: "name e \<notin> B"
    using e(2) by (auto simp: el_def)
  have "take_from pool tier k st =
       (case choice el k of Inl err \<Rightarrow> Inl err
        | Inr effect \<Rightarrow>
           Inr (st\<lparr>chosen := chosen st @ [effect],
               chosen_names := insert (name effect) (chosen_names st),
               medium_count := (if tier = Medium then medium_count st + 1 else medium_count st),
               heavy_count := (if tier = Medium then heavy_count st
                               else if tier = Heavy then heavy_count st + 1
                               else heavy_count st)\<rparr>))"
    unfolding take_from_def Let_def B_def[symmetric] el_def[symmetric] using ne by simp
  then have "take_from pool tier k st =
       Inr (st\<lparr>chosen := chosen st @ [e],
               chosen_names := insert (name e) (chosen_names st),
               medium_count := (if tier = Medium then medium_count st + 1 else medium_count st),
               heavy_count := (if tier = Medium then heavy_count st
                               else if tier = Heavy then heavy_count st + 1
                               else heavy_count st)\<rparr>)"
    by (simp add: e(1))
  with mem nb show ?thesis unfolding B_def by blast
qed
lemma clash_preserved:
  assumes "\<not> clash \<subseteq> names" "n \<notin> blocked_names names"
  shows "\<not> clash \<subseteq> insert n names"
  using assms by (auto simp: blocked_names_eq clash_def split: if_splits)

lemma take_from_inv:
  assumes inv: "pick_inv st"
    and pool: "(pool = LIGHT_EFFECTS \<and> tier = Light) \<or>
               (pool = MEDIUM_EFFECTS \<and> tier = Medium \<and> medium_count st < 2) \<or>
               (pool = HEAVY_EFFECTS \<and> tier = Heavy \<and> heavy_count st < 1)"
  shows "\<exists>st'. take_from pool tier k st = Inr st' \<and> pick_inv st' \<and>
           length (chosen st') = Suc (length (chosen st))"
proof -
  have "pool = LIGHT_EFFECTS \<or> pool = MEDIUM_EFFECTS \<or> pool = HEAVY_EFFECTS"
    using pool by blast
  from take_from_effect[OF this, of st tier k]
  obtain e where e: "e \<in> set pool" "name e \<notin> blocked_names (chosen_names st)"
    and eq: "take_from pool tier k st =
       Inr (st\<lparr>chosen := chosen st @ [e],
               chosen_names := insert (name e) (chosen_names st),
               medium_count := (if tier = Medium then medium_count st + 1 else medium_count st),
               heavy_count := (if tier = Medium then heavy_count st
                               else if tier = Heavy then heavy_count st + 1
                               else heavy_count st)\<rparr>)"
    by blast
  have cl: "\<not> clash \<subseteq> insert (name e) (chosen_names st)"
    using clash_preserved[OF _ e(2)] inv unfolding pick_inv_def by blast
  have tiers: "is_medium e = (tier = Medium)" "is_heavy e = (tier = Heavy)"
    using pool e(1) light_medium_disjoint light_heavy_disjoint medium_heavy_disjoint
    by (auto simp: is_medium_def is_heavy_def)
  let ?st' = "st\<lparr>chosen := chosen st @ [e],
               chosen_names := insert (name e) (chosen_names st),
               medium_count := (if tier = Medium then medium_count st + 1 else medium_count st),
               heavy_count := (if tier = Medium then heavy_count st
                               else if tier = Heavy then heavy_count st + 1
                               else heavy_count st)\<rparr>"
  have "pick_inv ?st'"
    using inv pool cl tiers by (auto simp: pick_inv_def)
  then show ?thesis using eq by simp
qed

lemma pick_one_inv:
  assumes "pick_inv st"
  shows "\<exists>st'. pick_one lw mt roll k st = Inr st' \<and> pick_inv st' \<and>
           length (chosen st') = Suc (length (chosen st))"
  using pick_one_cases[of lw mt roll k st]
    take_from_inv[OF assms, of LIGHT_EFFECTS Light k]
    take_from_inv[OF assms, of MEDIUM_EFFECTS Medium k]
    take_from_inv[OF assms, of HEAVY_EFFECTS Heavy k]
  by auto

lemma pick_loop_inv:
  "pick_inv st \<Longrightarrow>
     \<exists>st'. pick_loop n lw mt rolls picks i st = Inr st' \<and> pick_inv st' \<and>
           length (chosen st') = length (chosen st) + n"
proof (induction n arbitrary: i st)
  case 0
  then show ?case by simp
next
  case (Suc n)
  from pick_one_inv[OF Suc.prems, of lw mt "rolls i" "picks i"]
  obtain st1 where s1: "pick_one lw mt (rolls i) (picks i) st = Inr st1" "pick_inv st1"
      "length (chosen st1) = Suc (length (chosen st))"
    by blast
  from Suc.IH[OF s1(2), of "Suc i"]
  obtain st' where s2: "pick_loop n lw mt rolls picks (Suc i) st1 = Inr st'" "pick_inv st'"
      "length (chosen st') = length (chosen st1) + n"
    by blast
  show ?case using s1 s2 by simp
qed

lemma pick_inv_init:
  "pick_inv \<lparr>chosen = [], chosen_names = {}, medium_count = 0, heavy_count = 0\<rparr>"
  by (simp add: pick_inv_def clash_def)

lemma randint_range:
  "a \<le> b \<Longrightarrow> \<exists>c. randint a b k = Inr c \<and> a \<le> c \<and> c \<le> b"
proof -
  assume ab: "a \<le> b"
  have "k mod nat (b - a + 1) < nat (b - a + 1)" using ab by simp
  then have "int (k mod nat (b - a + 1)) \<le> b - a" using ab by linarith
  then show ?thesis using ab by (simp add: randint_def randbelow_def)
qed

text \<open>
  The claim as written ranges over every \<open>min \<le> max\<close>. With both bounds negative the drawn
  count is negative, the loop body never runs and the result is the empty list, whose
  length 0 lies above \<open>max\<close>.
\<close>

theorem pick_effects_negative_bounds_counterexample:
  "(- 2 :: int) \<le> - 1 \<and>
   pick_effects (- 2) (- 1) None 0 (constant_source 0) (constant_source 0) = Inr [] \<and>
   \<not> int (length ([] :: effect list)) \<le> - 1"
  by (simp add: pick_effects_def randint_def randbelow_def Let_def)

text \<open>
  Claim C8, amended. For every \<open>min \<le> max\<close> with \<open>max \<ge> 0\<close>, every daypart and every
  random source, \<^verbatim>\<open>pick_effects\<close> returns a list (it raises nothing) whose length lies in
  \<open>[min, max]\<close>, with at most two effects of the medium tier, at most one of the heavy
  tier, and never both members of an incompatible pair.
\<close>

theorem pick_effects_respects_limits:
  assumes "min_count \<le> max_count" "0 \<le> max_count"
  shows "\<exists>effects. pick_effects min_count max_count daypart kc rolls picks = Inr effects \<and>
     min_count \<le> int (length effects) \<and> int (length effects) \<le> max_count \<and>
     length (filter (\<lambda>e. e \<in> set MEDIUM_EFFECTS) effects) \<le> 2 \<and>
     length (filter (\<lambda>e. e \<in> set HEAVY_EFFECTS) effects) \<le> 1 \<and>
     (\<forall>pair \<in> set INCOMPATIBLE_PAIRS. \<not> pair \<subseteq> name ` set effects)"
proof -
  obtain c where c: "randint min_count max_count kc = Inr c" "min_count \<le> c" "c \<le> max_count"
    using randint_range[OF assms(1)] by blast
  define lw where "lw = fst (tier_weights (get_profile daypart))"
  define mt where "mt = lw + fst (snd (tier_weights (get_profile daypart)))"
  from pick_loop_inv[OF pick_inv_init, of "nat c" lw mt rolls picks 0]
  obtain st where st: "pick_loop (nat c) lw mt rolls picks 0
        \<lparr>chosen = [], chosen_names = {}, medium_count = 0, heavy_count = 0\<rparr> = Inr st"
      "pick_inv st" "length (chosen st) = nat c"
    by auto
  have eq: "pick_effects min_count max_count daypart kc rolls picks = Inr (chosen st)"
    by (simp add: pick_effects_def Let_def c(1) lw_def[symmetric] mt_def[symmetric] st(1))
  have len: "min_count \<le> int (length (chosen st))" "int (length (chosen st)) \<le> max_count"
    using c(2,3) assms(2) st(3) by auto
  have med: "length (filter (\<lambda>e. e \<in> set MEDIUM_EFFECTS) (chosen st)) \<le> 2"
    using st(2) by (simp add: pick_inv_def is_medium_def[abs_def])
  have hvy: "length (filter (\<lambda>e. e \<in> set HEAVY_EFFECTS) (chosen st)) \<le> 1"
    using st(2) by (simp add: pick_inv_def is_heavy_def[abs_def])
  have inc: "\<forall>pair \<in> set INCOMPATIBLE_PAIRS. \<not> pair \<subseteq> name ` set (chosen st)"
    using st(2) unfolding pick_inv_def INCOMPATIBLE_PAIRS_def clash_def by auto
  show ?thesis using eq len med hvy inc by blast
qed

lemma pick_effects_overnight_run:
  "pick_effects 3 3 (Some ''overnight'') 0 (constant_source (9 / 10)) (constant_source 0)
     = Inr [\<lparr>name = ''edge_glow'', filter_expr = ''edgedetect=low=0.1:high=0.3:mode=colormix''\<rparr>,
            \<lparr>name = ''frame_blend'', filter_expr = ''tblend=all_mode=average''\<rparr>,
            \<lparr>name = ''frame_blend'', filter_expr = ''tblend=all_mode=average''\<rparr>]"
  by code_simp

theorem pick_effects_respects_limits_witness:
  "(3 :: int) \<le> 3 \<and> (0 :: int) \<le> 3 \<and>
   (\<exists>effects.
      pick_effects 3 3 (Some ''overnight'') 0 (constant_source (9 / 10)) (constant_source 0)
        = Inr effects \<and>
      map name effects = [''edge_glow'', ''frame_blend'', ''frame_blend''] \<and>
      length (filter (\<lambda>e. e \<in> set HEAVY_EFFECTS) effects) \<le> 1)"
  using pick_effects_respects_limits
    [of 3 3 "Some ''overnight''" 0 "constant_source (9 / 10)" "constant_source 0"]
  by (auto simp: pick_effects_overnight_run)

section \<open>Rendering: the keyframe interval on the encoder's command line\<close>

text \<open>
  \<^verbatim>\<open>render_clip\<close> and \<^verbatim>\<open>render_bumper\<close> pass \<^verbatim>\<open>-g\<close> followed by \<^verbatim>\<open>str(fps * 4)\<close>, for
  every argument.
\<close>

lemma render_clip_cmd_keyframes:
  "sublist [''-g'', str_nat (fps (video cfg) * 4)]
     (render_clip_cmd cfg fl clip_path clip_start clip_dur needs_loop effects output_path ts_offset speed)"
proof -
  have "\<exists>pre. render_clip_cmd cfg fl clip_path clip_start clip_dur needs_loop effects output_path
            ts_offset speed
          = pre @ [''-an'', ''-c:v'', codec (video cfg), ''-preset'', preset (video cfg),
                   ''-b:v'', bitrate (video cfg), ''-g'', str_nat (fps (video cfg) * 4),
                   ''-pix_fmt'', pix_fmt (video cfg),
                   ''-output_ts_offset'', fmt_fixed 3 ts_offset, ''-f'', ''mpegts'', output_path]"
    unfolding render_clip_cmd_def Let_def by (rule exI) (rule refl)
  then obtain pre where "render_clip_cmd cfg fl clip_path clip_start clip_dur needs_loop effects
            output_path ts_offset speed
          = (pre @ [''-an'', ''-c:v'', codec (video cfg), ''-preset'', preset (video cfg),
                   ''-b:v'', bitrate (video cfg)]) @ [''-g'', str_nat (fps (video cfg) * 4)] @
                  [''-pix_fmt'', pix_fmt (video cfg),
                   ''-output_ts_offset'', fmt_fixed 3 ts_offset, ''-f'', ''mpegts'', output_path]"
    by auto
  then show ?thesis by (metis sublist_appendI)
qed

lemma render_bumper_cmd_keyframes:
  "sublist [''-g'', str_nat (fps (video cfg) * 4)]
     (render_bumper_cmd cfg bumper_path output_path ts_offset)"
proof -
  have "\<exists>pre. render_bumper_cmd cfg bumper_path output_path ts_offset
          = pre @ [''-an'', ''-c:v'', codec (video cfg), ''-preset'', preset (video cfg),
                   ''-b:v'', bitrate (video cfg), ''-g'', str_nat (fps (video cfg) * 4),
                   ''-pix_fmt'', pix_fmt (video cfg),
                   ''-output_ts_offset'', fmt_fixed 3 ts_offset, ''-f'', ''mpegts'', output_path]"
    unfolding render_bumper_cmd_def Let_def by (rule exI) (rule refl)
  then obtain pre where "render_bumper_cmd cfg bumper_path output_path ts_offset
          = (pre @ [''-an'', ''-c:v'', codec (video cfg), ''-preset'', preset (video cfg),
                   ''-b:v'', bitrate (video cfg)]) @ [''-g'', str_nat (fps (video cfg) * 4)] @
                  [''-pix_fmt'', pix_fmt (video cfg),
                   ''-output_ts_offset'', fmt_fixed 3 ts_offset, ''-f'', ''mpegts'', output_path]"
    by auto
  then show ?thesis by (metis sublist_appendI)
qed

lemma fmt_fixed_has_point: "CHR ''.'' \<in> set (fmt_fixed k x)"
  by (simp add: fmt_fixed_def Let_def)

lemma fmt_fixed_not_g: "fmt_fixed k x \<noteq> ''-g''"
proof
  assume "fmt_fixed k x = ''-g''"
  with fmt_fixed_has_point[of k x] have "CHR ''.'' \<in> set ''-g''" by simp
  then show False by simp
qed

lemma render_overlay_clip_cmd_no_g:
  assumes "clip1_path \<noteq> ''-g''" "clip2_path \<noteq> ''-g''" "output_path \<noteq> ''-g''"
    "bug_path cfg \<noteq> Some ''-g''"
    "codec (video cfg) \<noteq> ''-g''" "preset (video cfg) \<noteq> ''-g''" "bitrate (video cfg) \<noteq> ''-g''"
    "pix_fmt (video cfg) \<noteq> ''-g''"
  shows "''-g'' \<notin> set (render_overlay_clip_cmd cfg fl clip1_path clip1_start clip2_path clip2_start
            clip_dur effects blend_mode output_path ts_offset speed)"
  using assms fmt_fixed_not_g[of 2 clip1_start] fmt_fixed_not_g[of 2 clip2_start]
    fmt_fixed_not_g[of 2 clip_dur] fmt_fixed_not_g[of 3 ts_offset]
  by (auto simp: render_overlay_clip_cmd_def Let_def bug_present_def split: option.splits)

lemma str_nat_120: "str_nat 120 = ''120''"
  by code_simp

text \<open>
  Claim C2 (every render operation passes a keyframe interval of 4 \<times> fps) holds for the
  single clip and the bumper and fails for the overlay: the command line that
  \<^verbatim>\<open>render_overlay_clip\<close> builds has no \<^verbatim>\<open>-g\<close> at all, so the encoder uses its default
  interval. With fps = 30 the two sibling commands carry \<^verbatim>\<open>-g 120\<close>.
\<close>

theorem render_overlay_clip_cmd_lacks_keyframe_interval:
  "''-g'' \<notin> set (render_overlay_clip_cmd example_cfg [] ''a.mp4'' (45 / 4) ''b.mp4'' 0 (15 / 2) []
                    ''screen'' ''/opt/vj/staging/clip_000001.ts'' 0 1) \<and>
   sublist [''-g'', ''120'']
     (render_clip_cmd example_cfg [] ''a.mp4'' (45 / 4) (15 / 2) False []
        ''/opt/vj/staging/clip_000001.ts'' 0 1) \<and>
   sublist [''-g'', ''120'']
     (render_bumper_cmd example_cfg ''bump.mp4'' ''/opt/vj/staging/clip_000001.ts'' 0)"
proof -
  have v: "str_nat (fps (video example_cfg) * 4) = ''120''"
    by (simp add: example_cfg_def str_nat_120)
  have a: "''-g'' \<notin> set (render_overlay_clip_cmd example_cfg [] ''a.mp4'' (45 / 4) ''b.mp4'' 0 (15 / 2) []
                    ''screen'' ''/opt/vj/staging/clip_000001.ts'' 0 1)"
    by (rule render_overlay_clip_cmd_no_g) (simp_all add: example_cfg_def)
  have b: "sublist [''-g'', ''120'']
     (render_clip_cmd example_cfg [] ''a.mp4'' (45 / 4) (15 / 2) False []
        ''/opt/vj/staging/clip_000001.ts'' 0 1)"
    using render_clip_cmd_keyframes[of example_cfg] unfolding v .
  have c: "sublist [''-g'', ''120'']
     (render_bumper_cmd example_cfg ''bump.mp4'' ''/opt/vj/staging/clip_000001.ts'' 0)"
    using render_bumper_cmd_keyframes[of example_cfg] unfolding v .
  show ?thesis using a b c by blast
qed

section \<open>Watchdog recovery: the state after recover\_streamer\<close>

lemma os_mkfifo_creates: "os_mkfifo refused fl p = Inr fl' \<Longrightarrow> p \<in> set fl'"
  by (auto simp: os_mkfifo_def split: if_splits)

lemma os_mkfifo_accepts: "\<not> refused \<Longrightarrow> p \<notin> set fl \<Longrightarrow> \<exists>fl'. os_mkfifo refused fl p = Inr fl'"
  by (simp add: os_mkfifo_def)

lemma recover_try_completes:
  "recover_try cfg re s = (s1, False) \<Longrightarrow>
     streamer_proc s1 = None \<and> audio_fifo_path cfg \<in> set (files s1)"
  by (auto simp: recover_try_def Let_def os_mkfifo_def split: if_splits sum.splits)

lemma recover_except_clears:
  "streamer_proc (recover_except cfg re s) = None"
  by (simp add: recover_except_def Let_def split: sum.splits)

lemma recover_except_fifo:
  "\<not> r_mkfifo_refused_again re \<Longrightarrow> audio_fifo_path cfg \<in> set (files (recover_except cfg re s))"
  by (auto simp: recover_except_def Let_def os_path_exists_def os_mkfifo_def split: sum.splits)

text \<open>
  The claim as written promises the audio FIFO after every call. When the system refuses
  \<^verbatim>\<open>os.mkfifo\<close> in the \<^verbatim>\<open>try\<close> block (after the old FIFO has been removed) and again in the
  handler, the handler swallows the \<^verbatim>\<open>OSError\<close> and the call returns without a FIFO.
\<close>

theorem recover_streamer_fifo_counterexample:
  "\<not> os_path_exists (files (recover_streamer example_cfg stuck_env live_state))
        (audio_fifo_path example_cfg)"
  by (simp add: recover_streamer_def recover_try_def recover_except_def stuck_env_def live_state_def
      startup_def kill_streamer_def stop_music_def emit_def drain_queue_def clean_staging_def
      glob_staging_def staging_ts_def unlink_quietly_def os_unlink_def os_mkfifo_def
      os_path_exists_def audio_fifo_path_def path_join_def example_cfg_def ts_name_def
      constant_source_def Let_def)

text \<open>
  Claim C5, amended. After every call of the recovery routine, those in which a step of the
  \<^verbatim>\<open>try\<close> block raises included, \<^verbatim>\<open>cumulative_ts\<close> is 0, the pre-buffer list is empty, the
  heartbeat is the current time and the encoder handle is cleared. The audio FIFO exists
  whenever the \<^verbatim>\<open>try\<close> block completes or the system does not refuse \<^verbatim>\<open>os.mkfifo\<close> in the
  handler.
\<close>

theorem recover_streamer_resets_state:
  "cumulative_ts (recover_streamer cfg re s) = 0 \<and>
   prebuffer (recover_streamer cfg re s) = [] \<and>
   last_feed_time (recover_streamer cfg re s) = r_now re \<and>
   streamer_proc (recover_streamer cfg re s) = None \<and>
   (\<not> snd (recover_try cfg re s) \<or> \<not> r_mkfifo_refused_again re \<longrightarrow>
      os_path_exists (files (recover_streamer cfg re s)) (audio_fifo_path cfg))"
proof -
  obtain s1 raised where t: "recover_try cfg re s = (s1, raised)"
    by (cases "recover_try cfg re s") auto
  show ?thesis
  proof (cases raised)
    case True
    then show ?thesis
      using t recover_except_clears[of cfg re s1] recover_except_fifo[of re cfg s1]
      by (simp add: recover_streamer_def os_path_exists_def)
  next
    case False
    then show ?thesis
      using t recover_try_completes[of cfg re s s1]
      by (simp add: recover_streamer_def os_path_exists_def)
  qed
qed

theorem recover_streamer_resets_state_witness:
  "\<not> r_mkfifo_refused_again faulty_env \<and>
   snd (recover_try example_cfg faulty_env live_state) \<and>
   cumulative_ts (recover_streamer example_cfg faulty_env live_state) = 0 \<and>
   prebuffer (recover_streamer example_cfg faulty_env live_state) = [] \<and>
   last_feed_time (recover_streamer example_cfg faulty_env live_state) = 100 \<and>
   streamer_proc (recover_streamer example_cfg faulty_env live_state) = None \<and>
   os_path_exists (files (recover_streamer example_cfg faulty_env live_state))
     (audio_fifo_path example_cfg)"
  using recover_streamer_resets_state [of example_cfg faulty_env live_state]
  by (simp add: faulty_env_def recover_try_def)

section \<open>The render stage: a bumper and then a clip in the same pass\<close>

text \<open>
  The claim as written (at most one fragment per pass; a clip only when no bumper is due)
  fails on a pass in which a bumper is due: the bumper is rendered and then, in the same
  pass, a clip is picked and rendered as well. Here one fragment is pre-buffered, the last
  bumper time is 1000, the clock shows 2000 and the interval is 10 minutes.
\<close>

lemma render_stage_warm_run:
  "render_stage example_cfg two_clips one_bumper calm_env warm_state = Inr warm_stage_result"
  by code_simp

lemma warm_bumper_due: "bumper_due example_cfg one_bumper calm_env warm_state"
  by code_simp

theorem render_stage_two_fragments_counterexample:
  "bumper_due example_cfg one_bumper calm_env warm_state \<and>
   events (state_of (render_stage example_cfg two_clips one_bumper calm_env warm_state))
     = [RenderedBumper ''/opt/vj/staging/clip_000002.ts'' True,
        RenderedClip ''/opt/vj/staging/clip_000003.ts'' True]"
  by (simp add: render_stage_warm_run warm_bumper_due warm_stage_result_def)

text \<open>
  Claim C1, amended. In every pass of the main loop that reaches the render stage and
  completes it without an exception, a bumper render is attempted exactly when bumpers
  exist, a last bumper time has been recorded (it is positive) and at least
  \<^verbatim>\<open>min_interval_minutes\<close> have passed since; and, whether or not a bumper was rendered,
  exactly one clip render (single or overlay) is attempted after it in the same pass. So a
  pass attempts one or two renders.
\<close>

theorem render_stage_renders:
  assumes "render_stage cfg clips bumpers env s = Inr s'"
  shows "\<exists>evs. events s' = events s @ evs \<and>
           length (filter is_bumper_render evs) = (if bumper_due cfg bumpers env s then 1 else 0) \<and>
           length (filter is_clip_render evs) = 1"
proof -
  from assms obtain s1 where b: "bumper_step cfg bumpers env s = Inr s1"
    and c: "clip_step cfg clips env s1 = Inr s'"
    by (auto simp: render_stage_def split: sum.splits)
  from bumper_step_events[OF b] obtain evb where evb: "events s1 = events s @ evb"
    "length (filter is_bumper_render evb) = (if bumper_due cfg bumpers env s then 1 else 0)"
    "filter is_clip_render evb = []" by blast
  from clip_step_events[OF c] obtain evc where evc: "events s' = events s1 @ evc"
    "filter is_bumper_render evc = []" "length (filter is_clip_render evc) = 1" by blast
  have "events s' = events s @ (evb @ evc)" using evb(1) evc(1) by simp
  moreover have "length (filter is_bumper_render (evb @ evc))
      = (if bumper_due cfg bumpers env s then 1 else 0)" using evb(2) evc(2) by simp
  moreover have "length (filter is_clip_render (evb @ evc)) = 1" using evb(3) evc(3) by simp
  ultimately show ?thesis by blast
qed

theorem render_stage_renders_witness:
  "render_stage example_cfg two_clips one_bumper calm_env warm_state = Inr warm_stage_result \<and>
   (\<exists>evs. events warm_stage_result = events warm_state @ evs \<and>
          length (filter is_bumper_render evs) = 1 \<and> length (filter is_clip_render evs) = 1)"
  using render_stage_renders [OF render_stage_warm_run] render_stage_warm_run warm_bumper_due
  by simp

section \<open>PTS accounting: \<^verbatim>\<open>cumulative_ts\<close> after a render attempt\<close>

lemma render_clip_exit:
  "fst (render_clip run cfg fl a b c d e out ts sp)
     = (returncode (run (render_clip_cmd cfg fl a b c d e out ts sp)) = Some 0)"
  "\<not> fst (render_clip run cfg fl a b c d e out ts sp)
     \<Longrightarrow> \<not> unlink_refused (run (render_clip_cmd cfg fl a b c d e out ts sp))
     \<Longrightarrow> out \<notin> set (snd (render_clip run cfg fl a b c d e out ts sp))"
  "\<not> fst (render_clip run cfg fl a b c d e out ts sp)
     \<Longrightarrow> unlink_refused (run (render_clip_cmd cfg fl a b c d e out ts sp))
     \<Longrightarrow> snd (render_clip run cfg fl a b c d e out ts sp)
           = run_ffmpeg (run (render_clip_cmd cfg fl a b c d e out ts sp)) fl out"
  by (simp_all add: render_clip_def run_render_ok run_render_failed run_render_kept)

lemma render_overlay_clip_exit:
  "fst (render_overlay_clip run cfg fl a b c d e f g out ts sp)
     = (returncode (run (render_overlay_clip_cmd cfg fl a b c d e f g out ts sp)) = Some 0)"
  "\<not> fst (render_overlay_clip run cfg fl a b c d e f g out ts sp)
     \<Longrightarrow> \<not> unlink_refused (run (render_overlay_clip_cmd cfg fl a b c d e f g out ts sp))
     \<Longrightarrow> out \<notin> set (snd (render_overlay_clip run cfg fl a b c d e f g out ts sp))"
  "\<not> fst (render_overlay_clip run cfg fl a b c d e f g out ts sp)
     \<Longrightarrow> unlink_refused (run (render_overlay_clip_cmd cfg fl a b c d e f g out ts sp))
     \<Longrightarrow> snd (render_overlay_clip run cfg fl a b c d e f g out ts sp)
           = run_ffmpeg (run (render_overlay_clip_cmd cfg fl a b c d e f g out ts sp)) fl out"
  by (simp_all add: render_overlay_clip_def run_render_ok run_render_failed run_render_kept)

lemma render_bumper_exit:
  "fst (render_bumper run cfg fl a out ts)
     = (returncode (run (render_bumper_cmd cfg a out ts)) = Some 0)"
  "\<not> fst (render_bumper run cfg fl a out ts)
     \<Longrightarrow> \<not> unlink_refused (run (render_bumper_cmd cfg a out ts))
     \<Longrightarrow> out \<notin> set (snd (render_bumper run cfg fl a out ts))"
  "\<not> fst (render_bumper run cfg fl a out ts)
     \<Longrightarrow> unlink_refused (run (render_bumper_cmd cfg a out ts))
     \<Longrightarrow> snd (render_bumper run cfg fl a out ts)
           = run_ffmpeg (run (render_bumper_cmd cfg a out ts)) fl out"
  by (simp_all add: render_bumper_def run_render_ok run_render_failed run_render_kept)

lemma clip_step_shape_Inr:
  assumes "clip_step cfg clips env s = Inr s'"
  shows "\<exists>path start clip_dur loop fl ev.
             pick_clip (active_clips_of cfg clips env s) (clip_min_duration cfg)
                 (clip_max_duration cfg) (e_clip_pick env) (e_clip_r1 env) (e_clip_r2 env)
               = Inr (path, start, clip_dur, loop) \<and>
             is_clip_render ev \<and>
             (\<exists>cmd. render_succeeded ev = (returncode (e_clip_run env cmd) = Some 0) \<and>
                     (\<not> render_succeeded ev \<and> \<not> unlink_refused (e_clip_run env cmd) \<longrightarrow>
                        ts_name cfg (seq s + 1) \<notin> set fl)) \<and>
             (if render_succeeded ev
              then s' = queue_clip cfg (e_clip_queue env) (ts_name cfg (seq s + 1))
                             ((after_render (cache_refreshed cfg clips env s) fl ev)
                                \<lparr>cumulative_ts := cumulative_ts s
                                     + clip_dur * pick_speed (map_option dp_name (get_current_daypart cfg (e_hour env))) (e_speed env)\<rparr>)
              else s' = after_render (cache_refreshed cfg clips env s) fl ev)"
proof -
  note sh = clip_step_shape[of cfg clips env s, unfolded assms sum.inject]
  from sh show ?thesis
  proof (elim disjE)
    assume "\<exists>e. Inr s' = Inl (e, cache_refreshed cfg clips env s)"
    then show ?thesis by simp
  next
    assume "\<exists>e. Inr s' = Inl (e, cache_refreshed cfg clips env s\<lparr>seq := seq s + 1\<rparr>)"
    then show ?thesis by simp
  next
    assume "\<exists>path start clip_dur loop fl ev.
             pick_clip (active_clips_of cfg clips env s) (clip_min_duration cfg)
                 (clip_max_duration cfg) (e_clip_pick env) (e_clip_r1 env) (e_clip_r2 env)
               = Inr (path, start, clip_dur, loop) \<and>
             is_clip_render ev \<and>
             (\<exists>cmd. render_succeeded ev = (returncode (e_clip_run env cmd) = Some 0) \<and>
                     (\<not> render_succeeded ev \<and> \<not> unlink_refused (e_clip_run env cmd) \<longrightarrow>
                        ts_name cfg (seq s + 1) \<notin> set fl)) \<and>
             (if render_succeeded ev
              then s' = queue_clip cfg (e_clip_queue env) (ts_name cfg (seq s + 1))
                             ((after_render (cache_refreshed cfg clips env s) fl ev)
                                \<lparr>cumulative_ts := cumulative_ts s
                                     + clip_dur * pick_speed (map_option dp_name (get_current_daypart cfg (e_hour env))) (e_speed env)\<rparr>)
              else s' = after_render (cache_refreshed cfg clips env s) fl ev)"
    then show ?thesis .
  qed
qed

lemma bumper_step_shape_due:
  assumes "bumper_due cfg bumpers env s" "bumper_step cfg bumpers env s = Inr s'"
  shows "\<exists>path dur fl ev.
          choice bumpers (e_bumper_pick env) = Inr (path, dur) \<and>
          is_bumper_render ev \<and>
          (\<exists>cmd. render_succeeded ev = (returncode (e_bumper_run env cmd) = Some 0) \<and>
                  (\<not> render_succeeded ev \<and> \<not> unlink_refused (e_bumper_run env cmd) \<longrightarrow>
                     ts_name cfg (seq s + 1) \<notin> set fl)) \<and>
          (if render_succeeded ev
           then s' = queue_clip cfg (e_bumper_queue env) (ts_name cfg (seq s + 1))
                          ((after_render s fl ev)
                             \<lparr>cumulative_ts := cumulative_ts s + dur,
                               last_bumper_time := e_t_bumper env\<rparr>)
           else s' = after_render s fl ev)"
proof -
  note sh = bumper_step_shape[of cfg bumpers env s, unfolded assms(2) sum.inject]
  from sh assms(1) show ?thesis by (elim disjE conjE) (simp, assumption)
qed

lemma clip_step_accounting:
  assumes "clip_step cfg clips env s = Inr s'"
  shows "\<exists>clip_path clip_start clip_dur needs_loop ev evs.
          pick_clip (active_clips_of cfg clips env s) (clip_min_duration cfg)
              (clip_max_duration cfg) (e_clip_pick env) (e_clip_r1 env) (e_clip_r2 env)
            = Inr (clip_path, clip_start, clip_dur, needs_loop) \<and>
          is_clip_render ev \<and> events s' = events s @ ev # evs \<and>
          (\<exists>cmd. render_succeeded ev = (returncode (e_clip_run env cmd) = Some 0) \<and>
                  (\<not> render_succeeded ev \<and> \<not> unlink_refused (e_clip_run env cmd) \<longrightarrow>
                     ts_name cfg (seq s + 1) \<notin> set (files s'))) \<and>
          (if render_succeeded ev then
             cumulative_ts s' =
               (if queue_times_out (e_clip_queue env) s then 0
                else cumulative_ts s + clip_dur
                       * pick_speed (map_option dp_name (get_current_daypart cfg (e_hour env)))
                           (e_speed env))
           else cumulative_ts s' = cumulative_ts s)"
proof -
  let ?s0 = "cache_refreshed cfg clips env s"
  let ?sp = "pick_speed (map_option dp_name (get_current_daypart cfg (e_hour env))) (e_speed env)"
  let ?ts = "ts_name cfg (seq s + 1)"
  from clip_step_shape_Inr[OF assms]
  obtain path start clip_dur loop fl ev cmd where pc:
      "pick_clip (active_clips_of cfg clips env s) (clip_min_duration cfg)
              (clip_max_duration cfg) (e_clip_pick env) (e_clip_r1 env) (e_clip_r2 env)
            = Inr (path, start, clip_dur, loop)"
    and ev: "is_clip_render ev"
    and cmd: "render_succeeded ev = (returncode (e_clip_run env cmd) = Some 0)"
    and gone: "\<not> render_succeeded ev \<and> \<not> unlink_refused (e_clip_run env cmd) \<longrightarrow> ?ts \<notin> set fl"
    and r: "if render_succeeded ev
              then s' = queue_clip cfg (e_clip_queue env) ?ts
                             ((after_render ?s0 fl ev)
                                \<lparr>cumulative_ts := cumulative_ts s + clip_dur * ?sp\<rparr>)
              else s' = after_render ?s0 fl ev"
    by blast
  have "\<exists>evs. events s' = events s @ ev # evs \<and>
          (\<not> render_succeeded ev \<longrightarrow> files s' = fl) \<and>
          (if render_succeeded ev then
             cumulative_ts s' =
               (if queue_times_out (e_clip_queue env) s then 0
                else cumulative_ts s + clip_dur * ?sp)
           else cumulative_ts s' = cumulative_ts s)"
  proof (cases "render_succeeded ev")
    case False
    with r have "s' = after_render ?s0 fl ev" by auto
    with False show ?thesis by simp
  next
    case ok: True
    let ?s2 = "(after_render ?s0 fl ev)\<lparr>cumulative_ts := cumulative_ts s + clip_dur * ?sp\<rparr>"
    from ok r have s1: "s' = queue_clip cfg (e_clip_queue env) ?ts ?s2" by simp
    obtain evs where q: "events s' = events ?s2 @ evs"
      using queue_clip_events[of cfg "e_clip_queue env" ?ts ?s2] s1 by auto
    have to: "queue_times_out (e_clip_queue env) ?s2 = queue_times_out (e_clip_queue env) s"
      by (rule queue_times_out_cong) simp_all
    have "cumulative_ts s' =
               (if queue_times_out (e_clip_queue env) s then 0
                else cumulative_ts s + clip_dur * ?sp)"
      unfolding s1 queue_clip_cumulative_ts to by simp
    moreover have "events s' = events s @ ev # evs" using q by simp
    ultimately show ?thesis using ok by auto
  qed
  then obtain evs where e: "events s' = events s @ ev # evs"
    and f: "\<not> render_succeeded ev \<longrightarrow> files s' = fl"
    and c: "if render_succeeded ev then
             cumulative_ts s' =
               (if queue_times_out (e_clip_queue env) s then 0
                else cumulative_ts s + clip_dur * ?sp)
           else cumulative_ts s' = cumulative_ts s"
    by blast
  from gone f have gone': "\<not> render_succeeded ev \<and> \<not> unlink_refused (e_clip_run env cmd)
      \<longrightarrow> ?ts \<notin> set (files s')" by auto
  from pc ev e cmd gone' c show ?thesis by blast
qed

lemma bumper_step_accounting:
  assumes "bumper_due cfg bumpers env s" "bumper_step cfg bumpers env s = Inr s'"
  shows "\<exists>bumper_path bumper_dur ev evs.
          choice bumpers (e_bumper_pick env) = Inr (bumper_path, bumper_dur) \<and>
          is_bumper_render ev \<and> events s' = events s @ ev # evs \<and>
          (\<exists>cmd. render_succeeded ev = (returncode (e_bumper_run env cmd) = Some 0) \<and>
                  (\<not> render_succeeded ev \<and> \<not> unlink_refused (e_bumper_run env cmd) \<longrightarrow>
                     ts_name cfg (seq s + 1) \<notin> set (files s'))) \<and>
          (if render_succeeded ev then
             cumulative_ts s' =
               (if queue_times_out (e_bumper_queue env) s then 0
                else cumulative_ts s + bumper_dur)
           else cumulative_ts s' = cumulative_ts s)"
proof -
  let ?ts = "ts_name cfg (seq s + 1)"
  from bumper_step_shape_due[OF assms]
  obtain path dur fl ev cmd where ch: "choice bumpers (e_bumper_pick env) = Inr (path, dur)"
    and ev: "is_bumper_render ev"
    and cmd: "render_succeeded ev = (returncode (e_bumper_run env cmd) = Some 0)"
    and gone: "\<not> render_succeeded ev \<and> \<not> unlink_refused (e_bumper_run env cmd) \<longrightarrow> ?ts \<notin> set fl"
    and r: "if render_succeeded ev
           then s' = queue_clip cfg (e_bumper_queue env) ?ts
                          ((after_render s fl ev)
                             \<lparr>cumulative_ts := cumulative_ts s + dur,
                               last_bumper_time := e_t_bumper env\<rparr>)
           else s' = after_render s fl ev"
    by blast
  have "\<exists>evs. events s' = events s @ ev # evs \<and>
          (\<not> render_succeeded ev \<longrightarrow> files s' = fl) \<and>
          (if render_succeeded ev then
             cumulative_ts s' =
               (if queue_times_out (e_bumper_queue env) s then 0 else cumulative_ts s + dur)
           else cumulative_ts s' = cumulative_ts s)"
  proof (cases "render_succeeded ev")
    case False
    with r have "s' = after_render s fl ev" by auto
    with False show ?thesis by simp
  next
    case ok: True
    let ?s2 = "(after_render s fl ev)\<lparr>cumulative_ts := cumulative_ts s + dur,
                               last_bumper_time := e_t_bumper env\<rparr>"
    from ok r have s1: "s' = queue_clip cfg (e_bumper_queue env) ?ts ?s2" by simp
    obtain evs where q: "events s' = events ?s2 @ evs"
      using queue_clip_events[of cfg "e_bumper_queue env" ?ts ?s2] s1 by auto
    have to: "queue_times_out (e_bumper_queue env) ?s2 = queue_times_out (e_bumper_queue env) s"
      by (rule queue_times_out_cong) simp_all
    have "cumulative_ts s' =
               (if queue_times_out (e_bumper_queue env) s then 0 else cumulative_ts s + dur)"
      unfolding s1 queue_clip_cumulative_ts to by simp
    moreover have "events s' = events s @ ev # evs" using q by simp
    ultimately show ?thesis using ok by auto
  qed
  then obtain evs where e: "events s' = events s @ ev # evs"
    and f: "\<not> render_succeeded ev \<longrightarrow> files s' = fl"
    and c: "if render_succeeded ev then
             cumulative_ts s' =
               (if queue_times_out (e_bumper_queue env) s then 0 else cumulative_ts s + dur)
           else cumulative_ts s' = cumulative_ts s"
    by blast
  from gone f have gone': "\<not> render_succeeded ev \<and> \<not> unlink_refused (e_bumper_run env cmd)
      \<longrightarrow> ?ts \<notin> set (files s')" by auto
  from ch ev e cmd gone' c show ?thesis by blast
qed

lemma clip_step_locked_run:
  "clip_step example_cfg two_clips locked_env warm_state = Inr kept_clip_result"
  by code_simp

text \<open>
  The claim as written has a failed render delete its partial output. The render functions
  only try to: \<^verbatim>\<open>try: os.unlink(output_path) / except OSError: pass\<close>. When the encoder
  exits with status 1 after writing part of the fragment and the system refuses the
  removal, the pass ends with a failed clip render on record and the partial fragment still
  in the staging directory.
\<close>

theorem failed_render_keeps_output_counterexample:
  "events (state_of (clip_step example_cfg two_clips locked_env warm_state))
     = [RenderedClip ''/opt/vj/staging/clip_000002.ts'' False] \<and>
   ''/opt/vj/staging/clip_000002.ts''
     \<in> set (files (state_of (clip_step example_cfg two_clips locked_env warm_state)))"
  by (simp add: clip_step_locked_run state_of_def kept_clip_result_def)

text \<open>
  Claim C4, amended. A render succeeds exactly when the encoder run exits with status 0; a
  non-zero status and an exception of the run (a timeout) are failures. After a failure the
  render function tries to remove the output: the output path does not exist afterwards
  unless the system refuses the removal, and when it refuses, the file system is as the
  encoder left it. In the main loop, for every clip render (single or overlay) and every
  bumper render: after a failed render \<^verbatim>\<open>cumulative_ts\<close> is what it was, and the output
  file is gone unless its removal was refused; after a successful render \<^verbatim>\<open>cumulative_ts\<close>
  has advanced by the use duration times the speed multiplier (for a bumper, which has no
  speed change, by the bumper's duration), and this is the value the pass ends with, unless
  the queue insertion that follows times out and the recovery it triggers resets
  \<^verbatim>\<open>cumulative_ts\<close> to 0.
\<close>

theorem render_accounting:
  "fst (render_clip run cfg fl path start dur loop fx out ts sp)
     = (returncode (run (render_clip_cmd cfg fl path start dur loop fx out ts sp)) = Some 0) \<and>
   (\<not> fst (render_clip run cfg fl path start dur loop fx out ts sp) \<and>
    \<not> unlink_refused (run (render_clip_cmd cfg fl path start dur loop fx out ts sp)) \<longrightarrow>
      out \<notin> set (snd (render_clip run cfg fl path start dur loop fx out ts sp))) \<and>
   (\<not> fst (render_clip run cfg fl path start dur loop fx out ts sp) \<and>
    unlink_refused (run (render_clip_cmd cfg fl path start dur loop fx out ts sp)) \<longrightarrow>
      snd (render_clip run cfg fl path start dur loop fx out ts sp)
        = run_ffmpeg (run (render_clip_cmd cfg fl path start dur loop fx out ts sp)) fl out) \<and>
   fst (render_overlay_clip run cfg fl path start path2 start2 dur fx blend out ts sp)
     = (returncode (run (render_overlay_clip_cmd cfg fl path start path2 start2 dur fx blend
                           out ts sp)) = Some 0) \<and>
   (\<not> fst (render_overlay_clip run cfg fl path start path2 start2 dur fx blend out ts sp) \<and>
    \<not> unlink_refused (run (render_overlay_clip_cmd cfg fl path start path2 start2 dur fx blend
                             out ts sp)) \<longrightarrow>
      out \<notin> set (snd (render_overlay_clip run cfg fl path start path2 start2 dur fx blend
                          out ts sp))) \<and>
   (\<not> fst (render_overlay_clip run cfg fl path start path2 start2 dur fx blend out ts sp) \<and>
    unlink_refused (run (render_overlay_clip_cmd cfg fl path start path2 start2 dur fx blend
                           out ts sp)) \<longrightarrow>
      snd (render_overlay_clip run cfg fl path start path2 start2 dur fx blend out ts sp)
        = run_ffmpeg (run (render_overlay_clip_cmd cfg fl path start path2 start2 dur fx blend
                             out ts sp)) fl out) \<and>
   fst (render_bumper run cfg fl path out ts)
     = (returncode (run (render_bumper_cmd cfg path out ts)) = Some 0) \<and>
   (\<not> fst (render_bumper run cfg fl path out ts) \<and>
    \<not> unlink_refused (run (render_bumper_cmd cfg path out ts)) \<longrightarrow>
      out \<notin> set (snd (render_bumper run cfg fl path out ts))) \<and>
   (\<not> fst (render_bumper run cfg fl path out ts) \<and>
    unlink_refused (run (render_bumper_cmd cfg path out ts)) \<longrightarrow>
      snd (render_bumper run cfg fl path out ts)
        = run_ffmpeg (run (render_bumper_cmd cfg path out ts)) fl out) \<and>
   (clip_step cfg clips env s = Inr s' \<longrightarrow>
      (\<exists>clip_path clip_start clip_dur needs_loop ev evs.
          pick_clip (active_clips_of cfg clips env s) (clip_min_duration cfg)
              (clip_max_duration cfg) (e_clip_pick env) (e_clip_r1 env) (e_clip_r2 env)
            = Inr (clip_path, clip_start, clip_dur, needs_loop) \<and>
          is_clip_render ev \<and> events s' = events s @ ev # evs \<and>
          (\<exists>cmd. render_succeeded ev = (returncode (e_clip_run env cmd) = Some 0) \<and>
                  (\<not> render_succeeded ev \<and> \<not> unlink_refused (e_clip_run env cmd) \<longrightarrow>
                     ts_name cfg (seq s + 1) \<notin> set (files s'))) \<and>
          (if render_succeeded ev then
             cumulative_ts s' =
               (if queue_times_out (e_clip_queue env) s then 0
                else cumulative_ts s + clip_dur
                       * pick_speed (map_option dp_name (get_current_daypart cfg (e_hour env)))
                           (e_speed env))
           else cumulative_ts s' = cumulative_ts s))) \<and>
   (bumper_due cfg bumpers env s \<and> bumper_step cfg bumpers env s = Inr s'' \<longrightarrow>
      (\<exists>bumper_path bumper_dur ev evs.
          choice bumpers (e_bumper_pick env) = Inr (bumper_path, bumper_dur) \<and>
          is_bumper_render ev \<and> events s'' = events s @ ev # evs \<and>
          (\<exists>cmd. render_succeeded ev = (returncode (e_bumper_run env cmd) = Some 0) \<and>
                  (\<not> render_succeeded ev \<and> \<not> unlink_refused (e_bumper_run env cmd) \<longrightarrow>
                     ts_name cfg (seq s + 1) \<notin> set (files s''))) \<and>
          (if render_succeeded ev then
             cumulative_ts s'' =
               (if queue_times_out (e_bumper_queue env) s then 0
                else cumulative_ts s + bumper_dur)
           else cumulative_ts s'' = cumulative_ts s)))"
  using render_clip_exit[of run cfg fl path start dur loop fx out ts sp]
    render_overlay_clip_exit[of run cfg fl path start path2 start2 dur fx blend out ts sp]
    render_bumper_exit[of run cfg fl path out ts]
    clip_step_accounting[of cfg clips env s s']
    bumper_step_accounting[of cfg bumpers env s s'']
  by blast

lemma clip_step_calm_run:
  "clip_step example_cfg two_clips calm_env warm_state = Inr calm_clip_result"
  by code_simp

lemma clip_step_failing_run:
  "clip_step example_cfg two_clips failing_env warm_state = Inr failed_clip_result"
  by code_simp

theorem render_accounting_witness:
  "clip_step example_cfg two_clips calm_env warm_state = Inr calm_clip_result \<and>
   cumulative_ts calm_clip_result = cumulative_ts warm_state + 15 / 2 \<and>
   clip_step example_cfg two_clips failing_env warm_state = Inr failed_clip_result \<and>
   returncode encoder_fails = Some 1 \<and> \<not> unlink_refused encoder_fails \<and>
   cumulative_ts failed_clip_result = cumulative_ts warm_state \<and>
   ''/opt/vj/staging/clip_000002.ts'' \<notin> set (files failed_clip_result)"
  using render_accounting [where cfg = example_cfg and clips = two_clips and env = calm_env
      and s = warm_state and s' = calm_clip_result]
    render_accounting [where cfg = example_cfg and clips = two_clips and env = failing_env
      and s = warm_state and s' = failed_clip_result]
    clip_step_calm_run clip_step_failing_run
  by (simp add: calm_clip_result_def failed_clip_result_def warm_state_def encoder_fails_def)

section \<open>Pre-buffer and the start of the encoder\<close>






section \<open>Back-pressure: the staging directory can hold 31 fragments\<close>

text \<open>
  The throttle itself does what the claim says: the loop leaves it only with fewer than
  \<open>MAX_STAGING_FILES\<close> staged fragments, sleeping 5 seconds for every poll that finds
  more.
\<close>

lemma staging_guard_bound:
  "staging_guard cfg polls s = Some s' \<Longrightarrow> count_staging_files cfg (files s') < MAX_STAGING_FILES"
  by (induction polls arbitrary: s) (auto split: if_splits)

text \<open>
  Claim C3 (no reachable state of the main loop exceeds 30 staged fragments) fails. The
  throttle is evaluated once per pass, and a pass in which a bumper is due renders two
  fragments. The program starts with 28 fragments that an earlier run left in the staging
  directory (the start-up code does not empty it); the first pass renders a clip (29
  staged); the second pass finds 29, below the limit of 30, renders the bumper and the
  clip, and ends with 31 staged fragments.
\<close>

theorem staging_exceeds_thirty:
  "MAX_STAGING_FILES = 30 \<and>
   staged_count example_cfg (Some (startup example_cfg (leftover 28) 999)) = Some 28 \<and>
   staged_count example_cfg
     (run_iterations example_cfg two_clips one_bumper [first_env, calm_env]
        (startup example_cfg (leftover 28) 999)) = Some 31"
  by code_simp

section \<open>The music worker: the FIFO stays open, and what ends the worker\<close>

lemma pump_events:
  "FifoClosed \<notin> set (fst (pump cs)) \<and>
   (snd (pump cs) = TrackDone \<longrightarrow> DecoderKilled \<notin> set (fst (pump cs))) \<and>
   (snd (pump cs) = PipeBroken \<longrightarrow> (\<exists>pre. fst (pump cs) = pre @ [DecoderKilled]))"
proof (induction cs)
  case Nil
  then show ?case by simp
next
  case (Cons c cs)
  obtain evs r where p: "pump cs = (evs, r)" by (cases "pump cs")
  show ?case
  proof (cases "c_stop c \<or> c_data c = [] \<or> c_write_fails c")
    case True
    then show ?thesis by auto
  next
    case False
    then have eq: "pump (c # cs) = (FifoWrite (c_data c) # evs, r)" using p by simp
    from Cons.IH p have ih: "FifoClosed \<notin> set evs"
      "r = TrackDone \<longrightarrow> DecoderKilled \<notin> set evs"
      "r = PipeBroken \<longrightarrow> (\<exists>pre. evs = pre @ [DecoderKilled])" by simp_all
    show ?thesis unfolding eq using ih
      by (auto intro: exI[of _ "FifoWrite (c_data c) # pre" for pre])
  qed
qed

lemma play_track_events:
  "FifoClosed \<notin> set (fst (play_track p cs)) \<and>
   (snd (play_track p cs) = TrackDone \<longrightarrow> DecoderKilled \<notin> set (fst (play_track p cs))) \<and>
   (snd (play_track p cs) = PipeBroken \<longrightarrow>
      (\<exists>pre. fst (play_track p cs) = pre @ [DecoderKilled, DecoderReaped]))"
proof -
  obtain evs r where pm: "pump cs = (evs, r)" by (cases "pump cs")
  have eq: "play_track p cs = (DecoderSpawned p # evs @ [DecoderReaped], r)"
    by (simp add: play_track_def pm)
  from pump_events[of cs] pm have ih: "FifoClosed \<notin> set evs"
      "r = TrackDone \<longrightarrow> DecoderKilled \<notin> set evs"
      "r = PipeBroken \<longrightarrow> (\<exists>pre. evs = pre @ [DecoderKilled])" by simp_all
  show ?thesis unfolding eq using ih
    by (auto intro: exI[of _ "DecoderSpawned p # pre" for pre])
qed

lemma play_list_events:
  "FifoClosed \<notin> set (fst (play_list cfg tracks cur i pl)) \<and>
   (snd (play_list cfg tracks cur i pl) \<noteq> WorkerReturns \<longrightarrow>
      DecoderKilled \<notin> set (fst (play_list cfg tracks cur i pl))) \<and>
   (snd (play_list cfg tracks cur i pl) = WorkerReturns \<longrightarrow>
      (\<exists>pre. fst (play_list cfg tracks cur i pl) = pre @ [DecoderKilled, DecoderReaped]))"
proof (induction pl arbitrary: i)
  case Nil
  then show ?case by simp
next
  case (Cons t rest)
  obtain path dur where t: "t = (path, dur)" by (cases t)
  obtain evs r where pt: "play_track path (t_chunks (tracks i)) = (evs, r)"
    by (cases "play_track path (t_chunks (tracks i))")
  obtain evs' r' where pl: "play_list cfg tracks cur (Suc i) rest = (evs', r')"
    by (cases "play_list cfg tracks cur (Suc i) rest")
  from play_track_events[of path "t_chunks (tracks i)"] pt
  have a: "FifoClosed \<notin> set evs" "r = TrackDone \<longrightarrow> DecoderKilled \<notin> set evs"
    "r = PipeBroken \<longrightarrow> (\<exists>pre. evs = pre @ [DecoderKilled, DecoderReaped])" by simp_all
  from Cons.IH[of "Suc i"] pl
  have b: "FifoClosed \<notin> set evs'" "r' \<noteq> WorkerReturns \<longrightarrow> DecoderKilled \<notin> set evs'"
    "r' = WorkerReturns \<longrightarrow> (\<exists>pre. evs' = pre @ [DecoderKilled, DecoderReaped])" by simp_all
  show ?case
  proof (cases "t_stop (tracks i) \<or>
      snd (get_daypart_music cfg (t_hour (tracks i)) (t_scan (tracks i))) \<noteq> cur \<or>
      t_spawn_fails (tracks i)")
    case True
    then show ?thesis by (auto simp: t)
  next
    case False
    show ?thesis
    proof (cases r)
      case PipeBroken
      then have "play_list cfg tracks cur i (t # rest) = (evs, WorkerReturns)"
        using False pt by (simp add: t)
      then show ?thesis using a PipeBroken by simp
    next
      case TrackDone
      then have eq: "play_list cfg tracks cur i (t # rest) = (evs @ evs', r')"
        using False pt pl by (simp add: t)
      show ?thesis unfolding eq using a b TrackDone
        by (auto intro: exI[of _ "evs @ pre" for pre])
    qed
  qed
qed

lemma supervise_events:
  "FifoClosed \<notin> set (fst (supervise cfg rs)) \<and>
   (DecoderKilled \<in> set (fst (supervise cfg rs)) \<longrightarrow>
      snd (supervise cfg rs) = Exited \<and>
      (\<exists>pre. fst (supervise cfg rs) = pre @ [DecoderKilled, DecoderReaped]))"
proof (induction rs)
  case Nil
  then show ?case by simp
next
  case (Cons r rs)
  obtain evs' st where sv: "supervise cfg rs = (evs', st)" by (cases "supervise cfg rs")
  from Cons.IH sv have ih: "FifoClosed \<notin> set evs'"
    "DecoderKilled \<in> set evs' \<longrightarrow> st = Exited \<and> (\<exists>pre. evs' = pre @ [DecoderKilled, DecoderReaped])"
    by simp_all
  obtain mf dn where gm: "get_daypart_music cfg (r_hour r) (r_scan r) = (mf, dn)"
    by (cases "get_daypart_music cfg (r_hour r) (r_scan r)")
  show ?case
  proof (cases "r_stop r")
    case True
    then show ?thesis by simp
  next
    case ns: False
    show ?thesis
    proof (cases "mf = []")
      case True
      show ?thesis
      proof (cases "r_wait_stop r")
        case True
        with ns gm \<open>mf = []\<close> show ?thesis by simp
      next
        case False
        with ns gm \<open>mf = []\<close> have eq: "supervise cfg (r # rs) = (Waited 30 # evs', st)"
          using sv by simp
        show ?thesis unfolding eq using ih
          by (auto intro: exI[of _ "Waited 30 # pre" for pre])
      qed
    next
      case False
      let ?pl = "play_list cfg (r_tracks r) dn 0 (shuffle (r_shuffle r) mf)"
      obtain evs res where p: "?pl = (evs, res)" by (cases ?pl)
      from play_list_events[of cfg "r_tracks r" dn 0 "shuffle (r_shuffle r) mf"] p
      have a: "FifoClosed \<notin> set evs" "res \<noteq> WorkerReturns \<longrightarrow> DecoderKilled \<notin> set evs"
        "res = WorkerReturns \<longrightarrow> (\<exists>pre. evs = pre @ [DecoderKilled, DecoderReaped])"
        by simp_all
      show ?thesis
      proof (cases res)
        case WorkerReturns
        then have eq: "supervise cfg (r # rs) = (evs, Exited)"
          using ns gm False p by simp
        show ?thesis unfolding eq using a WorkerReturns by simp
      next
        case SpawnFailed
        then have eq: "supervise cfg (r # rs) = (evs, Raised)"
          using ns gm False p by simp
        show ?thesis unfolding eq using a SpawnFailed by simp
      next
        case ListDone
        then have eq: "supervise cfg (r # rs) = (evs @ evs', st)"
          using ns gm False p sv by simp
        show ?thesis unfolding eq using a ih ListDone
          by (auto intro: exI[of _ "evs @ pre" for pre])
      qed
    qed
  qed
qed

lemma pump_writes:
  "list_all writes_chunk ok \<Longrightarrow>
     pump (ok @ cs) = (map (\<lambda>c. FifoWrite (c_data c)) ok @ fst (pump cs), snd (pump cs))"
proof (induction ok)
  case Nil
  then show ?case by simp
next
  case (Cons c ok)
  then show ?case by (simp add: writes_chunk_def split_beta)
qed

lemma pump_write_raises:
  assumes "list_all writes_chunk ok" "write_raises c"
  shows "pump (ok @ c # cs) = (map (\<lambda>c. FifoWrite (c_data c)) ok @ [DecoderKilled], PipeBroken)"
  using pump_writes[OF assms(1), of "c # cs"] assms(2) by (simp add: write_raises_def)

lemma pump_output_ends:
  assumes "list_all writes_chunk ok" "output_ends c"
  shows "pump (ok @ c # cs) = (map (\<lambda>c. FifoWrite (c_data c)) ok, TrackDone)"
  using pump_writes[OF assms(1), of "c # cs"] assms(2) by (simp add: output_ends_def)

lemma play_list_pipe_broken:
  assumes "track_played cfg tracks cur i" "\<not> t_spawn_fails (tracks i)"
    "snd (pump (t_chunks (tracks i))) = PipeBroken"
  shows "play_list cfg tracks cur i ((p, d) # rest)
           = (DecoderSpawned p # fst (pump (t_chunks (tracks i))) @ [DecoderReaped],
              WorkerReturns)"
  using assms by (simp add: track_played_def play_track_def split_beta)

lemma play_list_track_done:
  assumes "track_played cfg tracks cur i" "\<not> t_spawn_fails (tracks i)"
    "snd (pump (t_chunks (tracks i))) = TrackDone"
  shows "play_list cfg tracks cur i ((p, d) # rest)
           = (DecoderSpawned p # fst (pump (t_chunks (tracks i))) @ DecoderReaped
                # fst (play_list cfg tracks cur (Suc i) rest),
              snd (play_list cfg tracks cur (Suc i) rest))"
  using assms by (simp add: track_played_def play_track_def split_beta)

lemma play_list_spawn_fails:
  assumes "track_played cfg tracks cur i" "t_spawn_fails (tracks i)"
  shows "play_list cfg tracks cur i ((p, d) # rest) = ([], SpawnFailed)"
  using assms by (simp add: track_played_def)

lemma supervise_playlist_ends:
  assumes "\<not> r_stop r" "fst (get_daypart_music cfg (r_hour r) (r_scan r)) \<noteq> []"
  shows "snd (play_list cfg (r_tracks r) (snd (get_daypart_music cfg (r_hour r) (r_scan r))) 0
            (shuffle (r_shuffle r) (fst (get_daypart_music cfg (r_hour r) (r_scan r)))))
           = WorkerReturns
         \<Longrightarrow> supervise cfg (r # rs)
           = (fst (play_list cfg (r_tracks r)
                     (snd (get_daypart_music cfg (r_hour r) (r_scan r))) 0
                     (shuffle (r_shuffle r) (fst (get_daypart_music cfg (r_hour r) (r_scan r))))),
              Exited)"
    and "snd (play_list cfg (r_tracks r) (snd (get_daypart_music cfg (r_hour r) (r_scan r))) 0
            (shuffle (r_shuffle r) (fst (get_daypart_music cfg (r_hour r) (r_scan r)))))
           = SpawnFailed
         \<Longrightarrow> supervise cfg (r # rs)
           = (fst (play_list cfg (r_tracks r)
                     (snd (get_daypart_music cfg (r_hour r) (r_scan r))) 0
                     (shuffle (r_shuffle r) (fst (get_daypart_music cfg (r_hour r) (r_scan r))))),
              Raised)"
  using assms by (simp_all add: split_beta split: prod.splits playlist_result.splits)

lemma music_worker_events:
  "FifoClosed \<notin> set (butlast (fst (music_worker cfg open_fails rounds)))"
  "snd (music_worker cfg open_fails rounds) = Running
     \<Longrightarrow> FifoClosed \<notin> set (fst (music_worker cfg open_fails rounds))"
  "\<not> open_fails \<Longrightarrow> snd (music_worker cfg open_fails rounds) \<noteq> Running
     \<Longrightarrow> last (fst (music_worker cfg open_fails rounds)) = FifoClosed"
  "DecoderKilled \<in> set (fst (music_worker cfg open_fails rounds))
     \<Longrightarrow> snd (music_worker cfg open_fails rounds) = Exited \<and>
         (\<exists>pre. fst (music_worker cfg open_fails rounds)
                  = pre @ [DecoderKilled, DecoderReaped, FifoClosed])"
proof -
  obtain evs st where sv: "supervise cfg rounds = (evs, st)" by (cases "supervise cfg rounds")
  from supervise_events[of cfg rounds] sv
  have a: "FifoClosed \<notin> set evs"
    and b: "DecoderKilled \<in> set evs \<longrightarrow>
              st = Exited \<and> (\<exists>pre. evs = pre @ [DecoderKilled, DecoderReaped])" by simp_all
  have mw: "music_worker cfg open_fails rounds =
              (if open_fails then ([], Exited)
               else (FifoOpened # evs @ (if st = Running then [] else [FifoClosed]), st))"
    by (simp add: music_worker_def sv)
  show "FifoClosed \<notin> set (butlast (fst (music_worker cfg open_fails rounds)))"
    unfolding mw using a by (auto simp: butlast_append dest: in_set_butlastD)
  show "snd (music_worker cfg open_fails rounds) = Running
     \<Longrightarrow> FifoClosed \<notin> set (fst (music_worker cfg open_fails rounds))"
    unfolding mw using a by (simp split: if_splits)
  show "\<not> open_fails \<Longrightarrow> snd (music_worker cfg open_fails rounds) \<noteq> Running
     \<Longrightarrow> last (fst (music_worker cfg open_fails rounds)) = FifoClosed"
    unfolding mw by simp
  show "DecoderKilled \<in> set (fst (music_worker cfg open_fails rounds))
     \<Longrightarrow> snd (music_worker cfg open_fails rounds) = Exited \<and>
         (\<exists>pre. fst (music_worker cfg open_fails rounds)
                  = pre @ [DecoderKilled, DecoderReaped, FifoClosed])"
    unfolding mw using b
    by (auto split: if_splits intro: exI[of _ "FifoOpened # pre" for pre])
qed

text \<open>
  The claim as written lets every decoder failure other than a failed write to the FIFO
  only advance to the next track. That holds for a decoder that was started. When the
  system cannot start the decoder, \<^verbatim>\<open>subprocess.Popen\<close> raises outside the \<^verbatim>\<open>try\<close> of the
  copy loop and nothing catches the exception: the worker closes the FIFO in its \<^verbatim>\<open>finally\<close>
  and ends, and the next track is not played. In this run the decoder of the first track
  cannot be started; a second track and a further pass of the supervision loop are at hand.
\<close>

theorem music_worker_spawn_failure_counterexample:
  "music_worker example_cfg False [unstartable_round, example_round]
     = ([FifoOpened, FifoClosed], Raised)"
  by code_simp

text \<open>
  Claim C7, amended. The worker closes the audio FIFO only as its last action: nothing it
  does before its last action is a close, and while it still runs it has not closed the
  FIFO, whatever tracks it played and however often it reshuffled; a worker that opened the
  FIFO and has ended closed it last. A write to the FIFO that raises ends the worker: the
  copy loop kills the decoder and returns, no further track and no further playlist is
  played, and after the kill the worker only reaps the decoder and closes the FIFO. A
  decoder that was started and whose output ends, at once or after some chunks, ends only
  its track: the worker reaps it and goes on with the next track of the playlist. A decoder
  that cannot be started ends the worker by the exception of \<^verbatim>\<open>Popen\<close>.
\<close>

theorem music_worker_fifo_continuity:
  "FifoClosed \<notin> set (butlast (fst (music_worker cfg open_fails rounds))) \<and>
   (snd (music_worker cfg open_fails rounds) = Running \<longrightarrow>
      FifoClosed \<notin> set (fst (music_worker cfg open_fails rounds))) \<and>
   (\<not> open_fails \<and> snd (music_worker cfg open_fails rounds) \<noteq> Running \<longrightarrow>
      last (fst (music_worker cfg open_fails rounds)) = FifoClosed) \<and>
   (DecoderKilled \<in> set (fst (music_worker cfg open_fails rounds)) \<longrightarrow>
      snd (music_worker cfg open_fails rounds) = Exited \<and>
      (\<exists>pre. fst (music_worker cfg open_fails rounds)
               = pre @ [DecoderKilled, DecoderReaped, FifoClosed])) \<and>
   (list_all writes_chunk ok \<and> write_raises c \<longrightarrow>
      pump (ok @ c # cs) = (map (\<lambda>c. FifoWrite (c_data c)) ok @ [DecoderKilled], PipeBroken)) \<and>
   (list_all writes_chunk ok \<and> output_ends c \<longrightarrow>
      pump (ok @ c # cs) = (map (\<lambda>c. FifoWrite (c_data c)) ok, TrackDone)) \<and>
   (track_played cfg tracks cur i \<and> \<not> t_spawn_fails (tracks i) \<and>
    snd (pump (t_chunks (tracks i))) = PipeBroken \<longrightarrow>
      play_list cfg tracks cur i ((p, d) # rest)
        = (DecoderSpawned p # fst (pump (t_chunks (tracks i))) @ [DecoderReaped],
           WorkerReturns)) \<and>
   (track_played cfg tracks cur i \<and> \<not> t_spawn_fails (tracks i) \<and>
    snd (pump (t_chunks (tracks i))) = TrackDone \<longrightarrow>
      play_list cfg tracks cur i ((p, d) # rest)
        = (DecoderSpawned p # fst (pump (t_chunks (tracks i))) @ DecoderReaped
             # fst (play_list cfg tracks cur (Suc i) rest),
           snd (play_list cfg tracks cur (Suc i) rest))) \<and>
   (track_played cfg tracks cur i \<and> t_spawn_fails (tracks i) \<longrightarrow>
      play_list cfg tracks cur i ((p, d) # rest) = ([], SpawnFailed)) \<and>
   (\<not> r_stop r \<and> fst (get_daypart_music cfg (r_hour r) (r_scan r)) \<noteq> [] \<and>
    snd (play_list cfg (r_tracks r) (snd (get_daypart_music cfg (r_hour r) (r_scan r))) 0
           (shuffle (r_shuffle r) (fst (get_daypart_music cfg (r_hour r) (r_scan r)))))
      = WorkerReturns \<longrightarrow>
      supervise cfg (r # rs)
        = (fst (play_list cfg (r_tracks r)
                  (snd (get_daypart_music cfg (r_hour r) (r_scan r))) 0
                  (shuffle (r_shuffle r) (fst (get_daypart_music cfg (r_hour r) (r_scan r))))),
           Exited)) \<and>
   (\<not> r_stop r \<and> fst (get_daypart_music cfg (r_hour r) (r_scan r)) \<noteq> [] \<and>
    snd (play_list cfg (r_tracks r) (snd (get_daypart_music cfg (r_hour r) (r_scan r))) 0
           (shuffle (r_shuffle r) (fst (get_daypart_music cfg (r_hour r) (r_scan r)))))
      = SpawnFailed \<longrightarrow>
      supervise cfg (r # rs)
        = (fst (play_list cfg (r_tracks r)
                  (snd (get_daypart_music cfg (r_hour r) (r_scan r))) 0
                  (shuffle (r_shuffle r) (fst (get_daypart_music cfg (r_hour r) (r_scan r))))),
           Raised))"
  using music_worker_events[where cfg = cfg and open_fails = open_fails and rounds = rounds]
    pump_write_raises[where ok = ok and c = c and cs = cs]
    pump_output_ends[where ok = ok and c = c and cs = cs]
    play_list_pipe_broken[where cfg = cfg and tracks = tracks and cur = cur and i = i and p = p
      and d = d and rest = rest]
    play_list_track_done[where cfg = cfg and tracks = tracks and cur = cur and i = i and p = p
      and d = d and rest = rest]
    play_list_spawn_fails[where cfg = cfg and tracks = tracks and cur = cur and i = i and p = p
      and d = d and rest = rest]
    supervise_playlist_ends[where r = r and cfg = cfg and rs = rs]
  by blast

lemma music_worker_example_run:
  "music_worker example_cfg False [example_round] = (example_music_run, Exited)"
  by code_simp

lemma supervise_example_run:
  "supervise example_cfg [example_round] = (butlast (tl example_music_run), Exited)"
  by code_simp

lemma play_list_example_run:
  "play_list example_cfg example_tracks ''all'' 0
       [(''/media/music/b.mp3'', 200), (''/media/music/a.mp3'', 180)]
     = (butlast (tl example_music_run), WorkerReturns)"
  by code_simp

lemma example_tracks_played:
  "track_played example_cfg example_tracks ''all'' 0"
  "track_played example_cfg example_tracks ''all'' 1"
  "\<not> t_spawn_fails (example_tracks 0)"
  "track_played example_cfg unstartable_tracks ''all'' 0"
  "t_spawn_fails (unstartable_tracks 0)"
  by code_simp+

lemma pump_example_runs:
  "list_all writes_chunk [good_chunk]" "write_raises broken_chunk" "output_ends end_chunk"
  "pump ([good_chunk] @ broken_chunk # []) = ([FifoWrite ''pcm'', DecoderKilled], PipeBroken)"
  "pump ([] @ end_chunk # []) = ([], TrackDone)"
  by code_simp+

lemma example_music_run_events:
  "DecoderKilled \<in> set example_music_run"
  "FifoClosed \<notin> set (butlast example_music_run)"
  "last example_music_run = FifoClosed"
  by code_simp+

theorem music_worker_fifo_continuity_witness:
  "music_worker example_cfg False [example_round] = (example_music_run, Exited) \<and>
   DecoderKilled \<in> set example_music_run \<and>
   FifoClosed \<notin> set (butlast example_music_run) \<and>
   last example_music_run = FifoClosed \<and>
   list_all writes_chunk [good_chunk] \<and> write_raises broken_chunk \<and>
   pump ([good_chunk] @ broken_chunk # []) = ([FifoWrite ''pcm'', DecoderKilled], PipeBroken) \<and>
   output_ends end_chunk \<and> pump ([] @ end_chunk # []) = ([], TrackDone) \<and>
   track_played example_cfg example_tracks ''all'' 0 \<and>
   track_played example_cfg example_tracks ''all'' 1 \<and>
   play_list example_cfg example_tracks ''all'' 0
       [(''/media/music/b.mp3'', 200), (''/media/music/a.mp3'', 180)]
     = (butlast (tl example_music_run), WorkerReturns) \<and>
   supervise example_cfg [example_round] = (butlast (tl example_music_run), Exited)"
  using music_worker_example_run supervise_example_run play_list_example_run
    example_tracks_played pump_example_runs example_music_run_events
    music_worker_fifo_continuity [where cfg = example_cfg and open_fails = False
      and rounds = "[example_round]" and ok = "[good_chunk]" and c = broken_chunk and cs = "[]"
      and tracks = example_tracks and cur = "''all''" and i = 0
      and p = "''/media/music/b.mp3''" and d = 200 and rest = "[(''/media/music/a.mp3'', 180)]"
      and r = example_round and rs = "[]"]
  by blast

end
